(* ===== verification/Ixgbe_Prelude.thy ===== *)
theory Ixgbe_Prelude
  imports Main "HOL-Library.Word"
begin

unbundle bit_operations_syntax

text \<open>
  Shared vocabulary of the development: the C integer types as machine words, the driver's
  status codes, single-bit masks and their bit-level rewrite rules, and the loop lemmas that
  the component theories use.
\<close>

section \<open>Integer types\<close>

type_synonym u8 = "8 word"
type_synonym u16 = "16 word"
type_synonym u32 = "32 word"
type_synonym u64 = "64 word"

section \<open>Status codes\<close>

text \<open>
  Functions of the source that return \<open>s32\<close> status values return a value of this type;
  \<open>ixgbe_status_code\<close> is the number the header gives the code.
\<close>

datatype ixgbe_status =
    IXGBE_SUCCESS
  | IXGBE_ERR_EEPROM
  | IXGBE_ERR_EEPROM_CHECKSUM
  | IXGBE_ERR_CONFIG
  | IXGBE_ERR_PARAM
  | IXGBE_ERR_INVALID_MAC_ADDR
  | IXGBE_ERR_INVALID_LINK_SETTINGS
  | IXGBE_ERR_SWFW_SYNC
  | IXGBE_ERR_FDIR_REINIT_FAILED
  | IXGBE_ERR_NO_SPACE
  | IXGBE_ERR_FC_NOT_NEGOTIATED
  | IXGBE_ERR_INVALID_ARGUMENT
  | IXGBE_ERR_FDIR_CMD_INCOMPLETE
  | IXGBE_ERR_MBX
  | IXGBE_ERR_MBX_NOMSG
  | IXGBE_ERR_TIMEOUT
  | IXGBE_NOT_IMPLEMENTED

fun ixgbe_status_code :: "ixgbe_status \<Rightarrow> int" where
  "ixgbe_status_code IXGBE_SUCCESS = 0"
| "ixgbe_status_code IXGBE_ERR_EEPROM = -1"
| "ixgbe_status_code IXGBE_ERR_EEPROM_CHECKSUM = -2"
| "ixgbe_status_code IXGBE_ERR_CONFIG = -4"
| "ixgbe_status_code IXGBE_ERR_PARAM = -5"
| "ixgbe_status_code IXGBE_ERR_INVALID_MAC_ADDR = -10"
| "ixgbe_status_code IXGBE_ERR_INVALID_LINK_SETTINGS = -13"
| "ixgbe_status_code IXGBE_ERR_SWFW_SYNC = -16"
| "ixgbe_status_code IXGBE_ERR_FDIR_REINIT_FAILED = -23"
| "ixgbe_status_code IXGBE_ERR_NO_SPACE = -25"
| "ixgbe_status_code IXGBE_ERR_FC_NOT_NEGOTIATED = -27"
| "ixgbe_status_code IXGBE_ERR_INVALID_ARGUMENT = -32"
| "ixgbe_status_code IXGBE_ERR_FDIR_CMD_INCOMPLETE = -38"
| "ixgbe_status_code IXGBE_ERR_MBX = -41"
| "ixgbe_status_code IXGBE_ERR_MBX_NOMSG = -42"
| "ixgbe_status_code IXGBE_ERR_TIMEOUT = -43"
| "ixgbe_status_code IXGBE_NOT_IMPLEMENTED = 0x7FFFFFFF"

text \<open>Error numbers of the kernel that the modelled code returns, as negative integers.\<close>

abbreviation EPERM :: int where "EPERM \<equiv> 1"
abbreviation ENOMEM :: int where "ENOMEM \<equiv> 12"
abbreviation EINVAL :: int where "EINVAL \<equiv> 22"
abbreviation ENOSPC :: int where "ENOSPC \<equiv> 28"
abbreviation EOPNOTSUPP :: int where "EOPNOTSUPP \<equiv> 95"

section \<open>Single-bit masks\<close>

text \<open>The C expression \<open>1 << n\<close> at width 32; a count of 32 or more has no meaning in C.\<close>

definition BIT :: "nat \<Rightarrow> u32" where
  "BIT n = push_bit n 1"

named_theorems bitw "rewrite rules for single bits of words"

lemma bit_BIT [bitw]: "bit (BIT n) m \<longleftrightarrow> m = n \<and> n < 32"
  by (auto simp: BIT_def bit_exp_iff)

lemma bit_or_BIT [bitw]: "bit (x OR BIT n) m \<longleftrightarrow> bit x m \<or> (m = n \<and> n < 32)"
  by (simp add: bit_or_iff bit_BIT)

lemma bit_and_not_BIT [bitw]: "bit (x AND NOT (BIT n)) m \<longleftrightarrow> bit x m \<and> m \<noteq> n"
proof -
  have "bit x m \<Longrightarrow> m < 32"
    by (drule bit_imp_le_length) simp
  then show ?thesis
    by (auto simp: bit_and_iff bit_not_iff bit_BIT)
qed

lemma or_xor_BIT [bitw]: "(x OR BIT n) XOR BIT n = x AND NOT (BIT n)"
  by (rule bit_word_eqI) (auto simp: bit_xor_iff bit_or_iff bit_and_iff bit_not_iff bit_BIT)

lemma BIT_neq_0: "n < 32 \<Longrightarrow> BIT n \<noteq> 0"
  by (metis bit_BIT bit_0_eq bot_apply bot_bool_def)

lemma and_BIT_eq_0: "n < 32 \<Longrightarrow> x AND BIT n = 0 \<longleftrightarrow> \<not> bit x n"
  unfolding bit_eq_iff [of "x AND BIT n"] by (auto simp: bit_and_iff bit_BIT)

lemma word_eq_0_iff_bits: "(x::u32) = 0 \<longleftrightarrow> (\<forall>n < 32. \<not> bit x n)"
  by (auto simp: bit_eq_iff)

lemma unat_plus_1: "(a :: 'a::len word) < b \<Longrightarrow> unat (a + 1) = Suc (unat a)"
proof -
  assume "a < b"
  then have "unat a < unat b"
    by (simp add: word_less_nat_alt)
  moreover have "unat b < 2 ^ LENGTH('a)"
    by (rule unsigned_less)
  ultimately have "Suc (unat a) < 2 ^ LENGTH('a)"
    by linarith
  then show ?thesis by (simp add: unat_word_ariths)
qed

lemma word_of_nat_0_small: "k < 2 ^ 32 \<Longrightarrow> (of_nat k :: u32) = 0 \<longleftrightarrow> k = 0"
  by (auto simp: word_of_nat_eq_0_iff dest: dvd_imp_le)

lemma ge_less_False: "(x :: 'a::linorder) < y \<Longrightarrow> (y \<le> x) = False"
  by (simp add: not_le)

lemma unat_minus_32: "\<not> unat (v :: u32) < 32 \<Longrightarrow> unat (v - 32) = unat v - 32"
  by (subst unat_sub) (simp_all add: word_le_nat_alt)

lemmas idx_simps = word_less_nat_alt word_le_nat_alt unat_minus_32

lemma mask16_eq: "(0xFFFF :: u32) = mask 16"
  by (simp add: mask_eq_exp_minus_1)

lemma bit_0xFFFF [bitw]: "bit (0xFFFF :: u32) n \<longleftrightarrow> n < 16"
  by (auto simp: mask16_eq bit_mask_iff)

lemma bit_31_eq: "(0x80000000 :: u32) = BIT 31"
  by (simp add: BIT_def)

lemmas lit_masks = mask16_eq bit_31_eq

lemma bit_0x80000000 [bitw]: "bit (0x80000000 :: u32) n \<longleftrightarrow> n = 31"
  by (simp add: bit_31_eq bit_BIT)

section \<open>All bits of a word\<close>

text \<open>A claim about every bit of a word splits into one claim per bit, which \<open>simp\<close> evaluates.\<close>

lemma all_less_16:
  "(\<forall>n < 16. P n) \<longleftrightarrow> P 0 \<and> P 1 \<and> P 2 \<and> P 3 \<and> P 4 \<and> P 5 \<and> P 6 \<and> P 7 \<and> P 8 \<and> P 9 \<and> P 10 \<and> P 11 \<and>
     P 12 \<and> P 13 \<and> P 14 \<and> P (15::nat)"
proof -
  have "(\<forall>n < 16. P n) \<longleftrightarrow> (\<forall>n \<in> set [0..<16]. P n)" by auto
  then show ?thesis by (simp add: upt_rec) (simp add: numeral_eq_Suc)
qed

lemma word32_eqI:
  assumes "\<forall>n < 16. bit x n = bit y n \<and> bit x (n + 16) = bit y (n + 16)"
  shows "x = (y :: u32)"
proof (rule bit_word_eqI)
  fix n assume n: "n < LENGTH(32)"
  show "bit x n = bit y n"
  proof (cases "n < 16")
    case True
    with assms show ?thesis by blast
  next
    case False
    with n have "n - 16 < 16" "n - 16 + 16 = n" by auto
    with assms show ?thesis by metis
  qed
qed

lemma bit_u32_out: "32 \<le> n \<Longrightarrow> \<not> bit (x :: u32) n"
  by (auto dest: bit_imp_le_length)

lemma bit_u16_out: "16 \<le> n \<Longrightarrow> \<not> bit (x :: u16) n"
  by (auto dest: bit_imp_le_length)

lemmas bit_split = bit_or_iff bit_and_iff bit_xor_iff bit_push_bit_iff bit_drop_bit_eq bit_u32_out bit_u16_out

lemma all_less_32: "\<forall>n < 16. P n \<and> P (n + 16) \<Longrightarrow> n < 32 \<Longrightarrow> P (n :: nat)"
proof -
  assume *: "\<forall>n < 16. P n \<and> P (n + 16)" "n < 32"
  from *(2) have "n < 16 \<or> (\<exists>i < 16. n = i + 16)" by presburger
  with * show ?thesis by auto
qed

text \<open>Words that fit fewer bits, and widening.\<close>

lemma small_bit: "unat x < 2 ^ n \<Longrightarrow> bit x m \<Longrightarrow> m < n" for x :: "'a::len word"
proof -
  assume "unat x < 2 ^ n" "bit x m"
  then have "take_bit n x = x" by (simp add: word_unat_eq_iff unsigned_take_bit_eq take_bit_nat_eq_self)
  with \<open>bit x m\<close> show "m < n" by (metis bit_take_bit_iff)
qed

lemma unat_ucast_up: "LENGTH('a) \<le> LENGTH('b) \<Longrightarrow> unat (ucast x :: 'b::len word) = unat x" for x :: "'a::len word"
proof -
  assume "LENGTH('a) \<le> LENGTH('b)"
  then have "unat x < 2 ^ LENGTH('b)" using unsigned_less [where 'a = nat, of x] by (meson less_le_trans one_le_numeral power_increasing)
  then show ?thesis by (simp add: unsigned_ucast_eq take_bit_nat_eq_self)
qed

section \<open>Loops\<close>

text \<open>A \<open>for\<close> loop with no early exit is a fold over its index range.\<close>

abbreviation for_upto :: "nat \<Rightarrow> nat \<Rightarrow> (nat \<Rightarrow> 's \<Rightarrow> 's) \<Rightarrow> 's \<Rightarrow> 's" where
  "for_upto m n body s \<equiv> fold body [m..<n] s"

lemma for_upto_invariant:
  assumes "P s" and "\<And>i t. m \<le> i \<Longrightarrow> i < n \<Longrightarrow> P t \<Longrightarrow> P (body i t)"
  shows "P (for_upto m n body s)"
proof -
  have "(\<And>i t. i \<in> set xs \<Longrightarrow> P t \<Longrightarrow> P (body i t)) \<Longrightarrow> P t \<Longrightarrow> P (fold body xs t)" for xs t
    by (induction xs arbitrary: t) auto
  from this [of "[m..<n]" s] assms show ?thesis by simp
qed

lemma for_upto_frame:
  assumes "\<And>i t. f (body i t) = f t"
  shows "f (for_upto m n body s) = f s"
proof -
  have "f (fold body xs t) = f t" for xs t
    by (induction xs arbitrary: t) (simp_all add: assms)
  then show ?thesis by simp
qed

section \<open>Steps that keep an invariant\<close>

text \<open>
  The contract shared by the relations between the states before and after a function: related
  to itself while the invariant holds, closed under sequencing, and never leaving the invariant.  What holds of
  single steps then holds of sequences, conditional steps, loops and bindings.
\<close>

locale preserving =
  fixes inv :: "'s \<Rightarrow> bool"
    and step :: "'s \<Rightarrow> 's \<Rightarrow> bool"
  assumes step_refl: "inv a \<Longrightarrow> step a a"
    and step_trans: "step a b \<Longrightarrow> step b c \<Longrightarrow> step a c"
    and step_inv: "step a b \<Longrightarrow> inv b"
begin

lemma thread: "step a b \<Longrightarrow> (inv b \<Longrightarrow> step b c) \<Longrightarrow> step a c"
  using step_trans step_inv by blast

lemma over_if: "inv a \<Longrightarrow> (c \<Longrightarrow> step a b) \<Longrightarrow> step a (if c then b else a)"
  by (simp add: step_refl)

lemma over_list:
  assumes "inv a" "\<And>i t. i \<in> set xs \<Longrightarrow> inv t \<Longrightarrow> step t (f i t)"
  shows "step a (fold f xs a)"
  using assms
proof (induction xs arbitrary: a)
  case Nil
  then show ?case by (simp add: step_refl)
next
  case (Cons x xs)
  then have "step a (f x a)" by simp
  then show ?case using Cons.IH [of "f x a"] Cons.prems(2) thread by fastforce
qed

lemma over_let:
  "step a e \<Longrightarrow> (\<And>b. step a b \<Longrightarrow> step a (f b)) \<Longrightarrow> step a (let b = e in f b)"
  "step a (snd p) \<Longrightarrow> (\<And>x b. step a b \<Longrightarrow> step a (g x b)) \<Longrightarrow> step a (let (x, b) = p in g x b)"
  by (simp_all add: Let_def split_beta)

end

end
