(* ===== verification/Ixgbe_Hw.thy ===== *)
theory Ixgbe_Hw
  imports Ixgbe_Prelude
begin

unbundle bit_operations_syntax

text \<open>
  The hardware structure of the shared code (\<open>struct ixgbe_hw\<close> with its \<open>mac\<close>,
  \<open>addr_ctrl\<close> and \<open>fc\<close> parts) and the register access layer.  A register is a value of
  the datatype \<open>reg\<close>, one constructor per register macro of \<open>ixgbe_type.h\<close>, with the
  index of a register array as argument.

  Two kinds of registers are treated differently.  Configuration tables and settings
  (receive addresses, VLAN filters, water marks, masks) are storage: a read returns what was
  written.  They are the field \<open>regs\<close> of \<open>ixgbe_hw\<close>, behind \<open>IXGBE_READ_REG\<close> and
  \<open>IXGBE_WRITE_REG\<close>.  Registers that the device changes by itself (mailboxes, semaphores,
  command and polling registers) are reached through a device, the record \<open>device\<close>
  of the theory \<open>Ixgbe_Device\<close>; the theories that need them take the device as an argument.
\<close>

section \<open>Registers\<close>

text \<open>
  Registers are grouped by block; the abbreviations carry the macro names of the source.
\<close>

text \<open>Receive address, multicast, VLAN and pool filters.\<close>

datatype rx_reg =
    RAL nat | RAH nat | MPSAR_LO nat | MPSAR_HI nat | MTA nat | UTA nat | FCTRL
  | MCSTCTRL | VFTA nat | VLVF nat | VLVFB nat | VT_CTL

text \<open>Flow control, packet buffers and link.\<close>

datatype link_reg =
    PCS1GANA | PCS1GLCTL | PCS1GLSTA | PCS1GANLP | AUTOC | ANLP1 | LINKS | LINKS2
  | MFLCN | FCCFG | FCRTL_82599 nat | FCRTH_82599 nat | FCTTV nat | FCRTV
  | RXPBSIZE nat | TXPBSIZE nat | TXPBTHRESH nat

text \<open>
  Mailboxes and virtualization.  The mailbox memory is one array of words, \<open>PFMBMEM w\<close> at byte
  address \<open>0x13000 + 4 * w\<close>.
\<close>

datatype vt_reg =
    PFMAILBOX nat | PFMBMEM nat | PFMBICR nat | PFVFLRE nat | PFVFLREC nat
  | VFMAILBOX | VFMBMEM nat | GCR_EXT | PVFTXDCTL nat | PFVFSPOOF nat | VMOLR nat
  | VMVIR nat | VFRE nat | VFTE nat | QDE

text \<open>Status, NVM access and semaphores.\<close>

datatype nvm_reg =
    STATUS | EEC | EERD | EEWR | SWSM | GSSR

text \<open>Flow Director.\<close>

datatype fdir_reg =
    FDIRCTRL | FDIRHKEY | FDIRSKEY | FDIRDIP4M | FDIRSIP4M | FDIRTCPM | FDIRUDPM
  | FDIRSCTPM | FDIRIP6M | FDIRM | FDIRFREE | FDIRLEN | FDIRUSTAT | FDIRFSTAT
  | FDIRMATCH | FDIRMISS | FDIRSIPv6 nat | FDIRIPSA | FDIRIPDA | FDIRPORT | FDIRVLAN
  | FDIRHASH | FDIRCMD

text \<open>Data center bridging: arbiters, queue modes and statistics mapping.\<close>

datatype dcb_reg =
    RTRPCS | RTRUP2TC | RTRPT4C nat | RTTDQSEL | RTTDT1C | RTTDT2C nat | RTTDCS
  | RTTPCS | RTTUP2TC | RTTPT2C nat | MRQC | MTQC | SECTXMINIFG | RQSMR nat | TQSM nat
  | RUPPBMR | RMCS | RT2CR nat | RDRXCTL | RXCTRL | DPMCS | TDTQ2TCCR nat | PDPMCS
  | TDPT2TCCR nat | DTXCTL | TQSMR nat | FCRTL nat | FCRTH nat

text \<open>Pools, queues and switching.\<close>

datatype pool_reg =
    VMECM nat | PVFTDWBAH nat | PVFTDWBAL nat | MAXFRS | VLNCTRL | RXDCTL nat | GPIE | PFDTXGSWC
  | RTTBCNRM | RTTBCNRC | ETQF nat | WQBR_TX nat | WQBR_RX nat | LVMMC_TX | LVMMC_RX

datatype reg =
    RxReg rx_reg
  | LinkReg link_reg
  | VtReg vt_reg
  | NvmReg nvm_reg
  | FdirReg fdir_reg
  | DcbReg dcb_reg
  | PoolReg pool_reg

abbreviation IXGBE_RAL :: "nat \<Rightarrow> reg" where
  "IXGBE_RAL i \<equiv> RxReg (RAL i)"
abbreviation IXGBE_RAH :: "nat \<Rightarrow> reg" where
  "IXGBE_RAH i \<equiv> RxReg (RAH i)"
abbreviation IXGBE_MPSAR_LO :: "nat \<Rightarrow> reg" where
  "IXGBE_MPSAR_LO i \<equiv> RxReg (MPSAR_LO i)"
abbreviation IXGBE_MPSAR_HI :: "nat \<Rightarrow> reg" where
  "IXGBE_MPSAR_HI i \<equiv> RxReg (MPSAR_HI i)"
abbreviation IXGBE_MTA :: "nat \<Rightarrow> reg" where
  "IXGBE_MTA i \<equiv> RxReg (MTA i)"
abbreviation IXGBE_UTA :: "nat \<Rightarrow> reg" where
  "IXGBE_UTA i \<equiv> RxReg (UTA i)"
abbreviation IXGBE_FCTRL :: "reg" where
  "IXGBE_FCTRL \<equiv> RxReg FCTRL"
abbreviation IXGBE_MCSTCTRL :: "reg" where
  "IXGBE_MCSTCTRL \<equiv> RxReg MCSTCTRL"
abbreviation IXGBE_VFTA :: "nat \<Rightarrow> reg" where
  "IXGBE_VFTA i \<equiv> RxReg (VFTA i)"
abbreviation IXGBE_VLVF :: "nat \<Rightarrow> reg" where
  "IXGBE_VLVF i \<equiv> RxReg (VLVF i)"
abbreviation IXGBE_VLVFB :: "nat \<Rightarrow> reg" where
  "IXGBE_VLVFB i \<equiv> RxReg (VLVFB i)"
abbreviation IXGBE_VT_CTL :: "reg" where
  "IXGBE_VT_CTL \<equiv> RxReg VT_CTL"

abbreviation IXGBE_PCS1GANA :: "reg" where
  "IXGBE_PCS1GANA \<equiv> LinkReg PCS1GANA"
abbreviation IXGBE_PCS1GLCTL :: "reg" where
  "IXGBE_PCS1GLCTL \<equiv> LinkReg PCS1GLCTL"
abbreviation IXGBE_PCS1GLSTA :: "reg" where
  "IXGBE_PCS1GLSTA \<equiv> LinkReg PCS1GLSTA"
abbreviation IXGBE_PCS1GANLP :: "reg" where
  "IXGBE_PCS1GANLP \<equiv> LinkReg PCS1GANLP"
abbreviation IXGBE_AUTOC :: "reg" where
  "IXGBE_AUTOC \<equiv> LinkReg AUTOC"
abbreviation IXGBE_ANLP1 :: "reg" where
  "IXGBE_ANLP1 \<equiv> LinkReg ANLP1"
abbreviation IXGBE_LINKS :: "reg" where
  "IXGBE_LINKS \<equiv> LinkReg LINKS"
abbreviation IXGBE_LINKS2 :: "reg" where
  "IXGBE_LINKS2 \<equiv> LinkReg LINKS2"
abbreviation IXGBE_MFLCN :: "reg" where
  "IXGBE_MFLCN \<equiv> LinkReg MFLCN"
abbreviation IXGBE_FCCFG :: "reg" where
  "IXGBE_FCCFG \<equiv> LinkReg FCCFG"
abbreviation IXGBE_FCRTL_82599 :: "nat \<Rightarrow> reg" where
  "IXGBE_FCRTL_82599 i \<equiv> LinkReg (FCRTL_82599 i)"
abbreviation IXGBE_FCRTH_82599 :: "nat \<Rightarrow> reg" where
  "IXGBE_FCRTH_82599 i \<equiv> LinkReg (FCRTH_82599 i)"
abbreviation IXGBE_FCTTV :: "nat \<Rightarrow> reg" where
  "IXGBE_FCTTV i \<equiv> LinkReg (FCTTV i)"
abbreviation IXGBE_FCRTV :: "reg" where
  "IXGBE_FCRTV \<equiv> LinkReg FCRTV"
abbreviation IXGBE_RXPBSIZE :: "nat \<Rightarrow> reg" where
  "IXGBE_RXPBSIZE i \<equiv> LinkReg (RXPBSIZE i)"
abbreviation IXGBE_TXPBSIZE :: "nat \<Rightarrow> reg" where
  "IXGBE_TXPBSIZE i \<equiv> LinkReg (TXPBSIZE i)"
abbreviation IXGBE_TXPBTHRESH :: "nat \<Rightarrow> reg" where
  "IXGBE_TXPBTHRESH i \<equiv> LinkReg (TXPBTHRESH i)"

abbreviation IXGBE_PFMAILBOX :: "nat \<Rightarrow> reg" where
  "IXGBE_PFMAILBOX i \<equiv> VtReg (PFMAILBOX i)"

text \<open>
  Word \<open>j\<close> of mailbox \<open>i\<close>: the source's \<open>IXGBE_PFMBMEM(i)\<close> is \<open>0x13000 + 64 * i\<close> and the words are four
  bytes apart, so the words from 16 on are those of the next mailbox.
\<close>

abbreviation IXGBE_PFMBMEM :: "nat \<Rightarrow> nat \<Rightarrow> reg" where
  "IXGBE_PFMBMEM i j \<equiv> VtReg (PFMBMEM (16 * i + j))"
abbreviation IXGBE_PFMBICR :: "nat \<Rightarrow> reg" where
  "IXGBE_PFMBICR i \<equiv> VtReg (PFMBICR i)"
abbreviation IXGBE_PFVFLRE :: "nat \<Rightarrow> reg" where
  "IXGBE_PFVFLRE i \<equiv> VtReg (PFVFLRE i)"
abbreviation IXGBE_PFVFLREC :: "nat \<Rightarrow> reg" where
  "IXGBE_PFVFLREC i \<equiv> VtReg (PFVFLREC i)"
abbreviation IXGBE_VFMAILBOX :: "reg" where
  "IXGBE_VFMAILBOX \<equiv> VtReg VFMAILBOX"
abbreviation IXGBE_VFMBMEM :: "nat \<Rightarrow> reg" where
  "IXGBE_VFMBMEM i \<equiv> VtReg (VFMBMEM i)"
abbreviation IXGBE_GCR_EXT :: "reg" where
  "IXGBE_GCR_EXT \<equiv> VtReg GCR_EXT"
abbreviation IXGBE_PVFTXDCTL :: "nat \<Rightarrow> reg" where
  "IXGBE_PVFTXDCTL i \<equiv> VtReg (PVFTXDCTL i)"
abbreviation IXGBE_PFVFSPOOF :: "nat \<Rightarrow> reg" where
  "IXGBE_PFVFSPOOF i \<equiv> VtReg (PFVFSPOOF i)"
abbreviation IXGBE_VMOLR :: "nat \<Rightarrow> reg" where
  "IXGBE_VMOLR i \<equiv> VtReg (VMOLR i)"
abbreviation IXGBE_VMVIR :: "nat \<Rightarrow> reg" where
  "IXGBE_VMVIR i \<equiv> VtReg (VMVIR i)"
abbreviation IXGBE_VFRE :: "nat \<Rightarrow> reg" where
  "IXGBE_VFRE i \<equiv> VtReg (VFRE i)"
abbreviation IXGBE_VFTE :: "nat \<Rightarrow> reg" where
  "IXGBE_VFTE i \<equiv> VtReg (VFTE i)"
abbreviation IXGBE_QDE :: "reg" where
  "IXGBE_QDE \<equiv> VtReg QDE"

abbreviation IXGBE_STATUS :: "reg" where
  "IXGBE_STATUS \<equiv> NvmReg STATUS"
abbreviation IXGBE_EEC :: "reg" where
  "IXGBE_EEC \<equiv> NvmReg EEC"
abbreviation IXGBE_EERD :: "reg" where
  "IXGBE_EERD \<equiv> NvmReg EERD"
abbreviation IXGBE_EEWR :: "reg" where
  "IXGBE_EEWR \<equiv> NvmReg EEWR"
abbreviation IXGBE_SWSM :: "reg" where
  "IXGBE_SWSM \<equiv> NvmReg SWSM"
abbreviation IXGBE_GSSR :: "reg" where
  "IXGBE_GSSR \<equiv> NvmReg GSSR"

abbreviation IXGBE_FDIRCTRL :: "reg" where
  "IXGBE_FDIRCTRL \<equiv> FdirReg FDIRCTRL"
abbreviation IXGBE_FDIRHKEY :: "reg" where
  "IXGBE_FDIRHKEY \<equiv> FdirReg FDIRHKEY"
abbreviation IXGBE_FDIRSKEY :: "reg" where
  "IXGBE_FDIRSKEY \<equiv> FdirReg FDIRSKEY"
abbreviation IXGBE_FDIRDIP4M :: "reg" where
  "IXGBE_FDIRDIP4M \<equiv> FdirReg FDIRDIP4M"
abbreviation IXGBE_FDIRSIP4M :: "reg" where
  "IXGBE_FDIRSIP4M \<equiv> FdirReg FDIRSIP4M"
abbreviation IXGBE_FDIRTCPM :: "reg" where
  "IXGBE_FDIRTCPM \<equiv> FdirReg FDIRTCPM"
abbreviation IXGBE_FDIRUDPM :: "reg" where
  "IXGBE_FDIRUDPM \<equiv> FdirReg FDIRUDPM"
abbreviation IXGBE_FDIRSCTPM :: "reg" where
  "IXGBE_FDIRSCTPM \<equiv> FdirReg FDIRSCTPM"
abbreviation IXGBE_FDIRIP6M :: "reg" where
  "IXGBE_FDIRIP6M \<equiv> FdirReg FDIRIP6M"
abbreviation IXGBE_FDIRM :: "reg" where
  "IXGBE_FDIRM \<equiv> FdirReg FDIRM"
abbreviation IXGBE_FDIRFREE :: "reg" where
  "IXGBE_FDIRFREE \<equiv> FdirReg FDIRFREE"
abbreviation IXGBE_FDIRLEN :: "reg" where
  "IXGBE_FDIRLEN \<equiv> FdirReg FDIRLEN"
abbreviation IXGBE_FDIRUSTAT :: "reg" where
  "IXGBE_FDIRUSTAT \<equiv> FdirReg FDIRUSTAT"
abbreviation IXGBE_FDIRFSTAT :: "reg" where
  "IXGBE_FDIRFSTAT \<equiv> FdirReg FDIRFSTAT"
abbreviation IXGBE_FDIRMATCH :: "reg" where
  "IXGBE_FDIRMATCH \<equiv> FdirReg FDIRMATCH"
abbreviation IXGBE_FDIRMISS :: "reg" where
  "IXGBE_FDIRMISS \<equiv> FdirReg FDIRMISS"
abbreviation IXGBE_FDIRSIPv6 :: "nat \<Rightarrow> reg" where
  "IXGBE_FDIRSIPv6 i \<equiv> FdirReg (FDIRSIPv6 i)"
abbreviation IXGBE_FDIRIPSA :: "reg" where
  "IXGBE_FDIRIPSA \<equiv> FdirReg FDIRIPSA"
abbreviation IXGBE_FDIRIPDA :: "reg" where
  "IXGBE_FDIRIPDA \<equiv> FdirReg FDIRIPDA"
abbreviation IXGBE_FDIRPORT :: "reg" where
  "IXGBE_FDIRPORT \<equiv> FdirReg FDIRPORT"
abbreviation IXGBE_FDIRVLAN :: "reg" where
  "IXGBE_FDIRVLAN \<equiv> FdirReg FDIRVLAN"
abbreviation IXGBE_FDIRHASH :: "reg" where
  "IXGBE_FDIRHASH \<equiv> FdirReg FDIRHASH"
abbreviation IXGBE_FDIRCMD :: "reg" where
  "IXGBE_FDIRCMD \<equiv> FdirReg FDIRCMD"

abbreviation IXGBE_RTRPCS :: "reg" where
  "IXGBE_RTRPCS \<equiv> DcbReg RTRPCS"
abbreviation IXGBE_RTRUP2TC :: "reg" where
  "IXGBE_RTRUP2TC \<equiv> DcbReg RTRUP2TC"
abbreviation IXGBE_RTRPT4C :: "nat \<Rightarrow> reg" where
  "IXGBE_RTRPT4C i \<equiv> DcbReg (RTRPT4C i)"
abbreviation IXGBE_RTTDQSEL :: "reg" where
  "IXGBE_RTTDQSEL \<equiv> DcbReg RTTDQSEL"
abbreviation IXGBE_RTTDT1C :: "reg" where
  "IXGBE_RTTDT1C \<equiv> DcbReg RTTDT1C"
abbreviation IXGBE_RTTDT2C :: "nat \<Rightarrow> reg" where
  "IXGBE_RTTDT2C i \<equiv> DcbReg (RTTDT2C i)"
abbreviation IXGBE_RTTDCS :: "reg" where
  "IXGBE_RTTDCS \<equiv> DcbReg RTTDCS"
abbreviation IXGBE_RTTPCS :: "reg" where
  "IXGBE_RTTPCS \<equiv> DcbReg RTTPCS"
abbreviation IXGBE_RTTUP2TC :: "reg" where
  "IXGBE_RTTUP2TC \<equiv> DcbReg RTTUP2TC"
abbreviation IXGBE_RTTPT2C :: "nat \<Rightarrow> reg" where
  "IXGBE_RTTPT2C i \<equiv> DcbReg (RTTPT2C i)"
abbreviation IXGBE_MRQC :: "reg" where
  "IXGBE_MRQC \<equiv> DcbReg MRQC"
abbreviation IXGBE_MTQC :: "reg" where
  "IXGBE_MTQC \<equiv> DcbReg MTQC"
abbreviation IXGBE_SECTXMINIFG :: "reg" where
  "IXGBE_SECTXMINIFG \<equiv> DcbReg SECTXMINIFG"
abbreviation IXGBE_RQSMR :: "nat \<Rightarrow> reg" where
  "IXGBE_RQSMR i \<equiv> DcbReg (RQSMR i)"
abbreviation IXGBE_TQSM :: "nat \<Rightarrow> reg" where
  "IXGBE_TQSM i \<equiv> DcbReg (TQSM i)"
abbreviation IXGBE_RUPPBMR :: "reg" where
  "IXGBE_RUPPBMR \<equiv> DcbReg RUPPBMR"
abbreviation IXGBE_RMCS :: "reg" where
  "IXGBE_RMCS \<equiv> DcbReg RMCS"
abbreviation IXGBE_RT2CR :: "nat \<Rightarrow> reg" where
  "IXGBE_RT2CR i \<equiv> DcbReg (RT2CR i)"
abbreviation IXGBE_RDRXCTL :: "reg" where
  "IXGBE_RDRXCTL \<equiv> DcbReg RDRXCTL"
abbreviation IXGBE_RXCTRL :: "reg" where
  "IXGBE_RXCTRL \<equiv> DcbReg RXCTRL"
abbreviation IXGBE_DPMCS :: "reg" where
  "IXGBE_DPMCS \<equiv> DcbReg DPMCS"
abbreviation IXGBE_TDTQ2TCCR :: "nat \<Rightarrow> reg" where
  "IXGBE_TDTQ2TCCR i \<equiv> DcbReg (TDTQ2TCCR i)"
abbreviation IXGBE_PDPMCS :: "reg" where
  "IXGBE_PDPMCS \<equiv> DcbReg PDPMCS"
abbreviation IXGBE_TDPT2TCCR :: "nat \<Rightarrow> reg" where
  "IXGBE_TDPT2TCCR i \<equiv> DcbReg (TDPT2TCCR i)"
abbreviation IXGBE_DTXCTL :: "reg" where
  "IXGBE_DTXCTL \<equiv> DcbReg DTXCTL"
abbreviation IXGBE_TQSMR :: "nat \<Rightarrow> reg" where
  "IXGBE_TQSMR i \<equiv> DcbReg (TQSMR i)"
abbreviation IXGBE_FCRTL :: "nat \<Rightarrow> reg" where
  "IXGBE_FCRTL i \<equiv> DcbReg (FCRTL i)"
abbreviation IXGBE_FCRTH :: "nat \<Rightarrow> reg" where
  "IXGBE_FCRTH i \<equiv> DcbReg (FCRTH i)"

abbreviation IXGBE_VMECM :: "nat \<Rightarrow> reg" where
  "IXGBE_VMECM i \<equiv> PoolReg (VMECM i)"
abbreviation IXGBE_PVFTDWBAH :: "nat \<Rightarrow> reg" where
  "IXGBE_PVFTDWBAH i \<equiv> PoolReg (PVFTDWBAH i)"
abbreviation IXGBE_PVFTDWBAL :: "nat \<Rightarrow> reg" where
  "IXGBE_PVFTDWBAL i \<equiv> PoolReg (PVFTDWBAL i)"
abbreviation IXGBE_MAXFRS :: "reg" where
  "IXGBE_MAXFRS \<equiv> PoolReg MAXFRS"
abbreviation IXGBE_VLNCTRL :: "reg" where
  "IXGBE_VLNCTRL \<equiv> PoolReg VLNCTRL"
abbreviation IXGBE_RXDCTL :: "nat \<Rightarrow> reg" where
  "IXGBE_RXDCTL i \<equiv> PoolReg (RXDCTL i)"
abbreviation IXGBE_GPIE :: "reg" where
  "IXGBE_GPIE \<equiv> PoolReg GPIE"
abbreviation IXGBE_PFDTXGSWC :: "reg" where
  "IXGBE_PFDTXGSWC \<equiv> PoolReg PFDTXGSWC"
abbreviation IXGBE_RTTBCNRM :: "reg" where
  "IXGBE_RTTBCNRM \<equiv> PoolReg RTTBCNRM"
abbreviation IXGBE_RTTBCNRC :: "reg" where
  "IXGBE_RTTBCNRC \<equiv> PoolReg RTTBCNRC"
abbreviation IXGBE_ETQF :: "nat \<Rightarrow> reg" where
  "IXGBE_ETQF i \<equiv> PoolReg (ETQF i)"
abbreviation IXGBE_WQBR_TX :: "nat \<Rightarrow> reg" where
  "IXGBE_WQBR_TX i \<equiv> PoolReg (WQBR_TX i)"
abbreviation IXGBE_WQBR_RX :: "nat \<Rightarrow> reg" where
  "IXGBE_WQBR_RX i \<equiv> PoolReg (WQBR_RX i)"
abbreviation IXGBE_LVMMC_TX :: reg where "IXGBE_LVMMC_TX \<equiv> PoolReg LVMMC_TX"
abbreviation IXGBE_LVMMC_RX :: reg where "IXGBE_LVMMC_RX \<equiv> PoolReg LVMMC_RX"

section \<open>Hardware structure\<close>

datatype ixgbe_mac_type =
    ixgbe_mac_unknown
  | ixgbe_mac_82598EB
  | ixgbe_mac_82599EB
  | ixgbe_mac_X540
  | ixgbe_mac_X550
  | ixgbe_mac_X550EM_x
  | ixgbe_mac_X550EM_a
  | ixgbe_mac_E610
  | ixgbe_num_macs

text \<open>The enumeration's numbers; the source compares generations with \<open><\<close>.\<close>

fun mac_type_val :: "ixgbe_mac_type \<Rightarrow> nat" where
  "mac_type_val ixgbe_mac_unknown = 0"
| "mac_type_val ixgbe_mac_82598EB = 1"
| "mac_type_val ixgbe_mac_82599EB = 2"
| "mac_type_val ixgbe_mac_X540 = 3"
| "mac_type_val ixgbe_mac_X550 = 4"
| "mac_type_val ixgbe_mac_X550EM_x = 5"
| "mac_type_val ixgbe_mac_X550EM_a = 6"
| "mac_type_val ixgbe_mac_E610 = 7"
| "mac_type_val ixgbe_num_macs = 8"

datatype ixgbe_media_type =
    ixgbe_media_type_unknown
  | ixgbe_media_type_fiber
  | ixgbe_media_type_fiber_qsfp
  | ixgbe_media_type_copper
  | ixgbe_media_type_backplane
  | ixgbe_media_type_cx4
  | ixgbe_media_type_virtual
  | ixgbe_media_type_da
  | ixgbe_media_type_aui

datatype ixgbe_fc_mode =
    ixgbe_fc_none
  | ixgbe_fc_rx_pause
  | ixgbe_fc_tx_pause
  | ixgbe_fc_full
  | ixgbe_fc_pfc
  | ixgbe_fc_default

record ixgbe_addr_filter_info =
  num_mc_addrs :: u32
  rar_used_count :: u32
  mta_in_use :: u32
  overflow_promisc :: u32
  user_set_promisc :: bool

record ixgbe_fc_info =
  high_water :: "u32 list"
  low_water :: "u32 list"
  pause_time :: u16
  send_xon :: bool
  strict_ieee :: bool
  disable_fc_autoneg :: bool
  fc_was_autonegged :: bool
  current_mode :: ixgbe_fc_mode
  requested_mode :: ixgbe_fc_mode

record ixgbe_mac_info =
  mac_type :: ixgbe_mac_type
  mac_addr :: "u8 list"
  mta_shadow :: "u32 list"
  mc_filter_type :: int
  mcft_size :: u32
  vft_size :: u32
  num_rar_entries :: u32
  rar_highwater :: u32
  san_mac_rar_index :: u8

record ixgbe_hw =
  hw_removed :: bool \<comment> \<open>\<open>hw_addr\<close> is \<open>NULL\<close>\<close>
  mac :: ixgbe_mac_info
  addr_ctrl :: ixgbe_addr_filter_info
  fc :: ixgbe_fc_info
  media_type :: ixgbe_media_type
  device_id :: u16
  regs :: "reg \<Rightarrow> u32"

section \<open>Storage registers\<close>

definition IXGBE_REMOVED :: "ixgbe_hw \<Rightarrow> bool" where
  "IXGBE_REMOVED hw = hw_removed hw"

text \<open>
  The register read of an attached adapter; a removed adapter reads as all ones
  (\<open>IXGBE_FAILED_READ_REG\<close>).
\<close>

definition IXGBE_READ_REG :: "ixgbe_hw \<Rightarrow> reg \<Rightarrow> u32" where
  "IXGBE_READ_REG hw r = (if IXGBE_REMOVED hw then 0xFFFFFFFF else regs hw r)"

definition IXGBE_WRITE_REG :: "ixgbe_hw \<Rightarrow> reg \<Rightarrow> u32 \<Rightarrow> ixgbe_hw" where
  "IXGBE_WRITE_REG hw r v = (if IXGBE_REMOVED hw then hw else hw\<lparr>regs := (regs hw)(r := v)\<rparr>)"

lemma READ_WRITE_REG [simp]:
  "\<not> hw_removed hw \<Longrightarrow>
   IXGBE_READ_REG (IXGBE_WRITE_REG hw r v) r' = (if r' = r then v else IXGBE_READ_REG hw r')"
  by (simp add: IXGBE_READ_REG_def IXGBE_WRITE_REG_def IXGBE_REMOVED_def)

lemma READ_WRITE_REG_other [simp]:
  "r' \<noteq> r \<Longrightarrow> IXGBE_READ_REG (IXGBE_WRITE_REG hw r v) r' = IXGBE_READ_REG hw r'"
  by (simp add: IXGBE_READ_REG_def IXGBE_WRITE_REG_def IXGBE_REMOVED_def)

lemma WRITE_REG_frame [simp]:
  "hw_removed (IXGBE_WRITE_REG hw r v) = hw_removed hw"
  "mac (IXGBE_WRITE_REG hw r v) = mac hw"
  "addr_ctrl (IXGBE_WRITE_REG hw r v) = addr_ctrl hw"
  "fc (IXGBE_WRITE_REG hw r v) = fc hw"
  "media_type (IXGBE_WRITE_REG hw r v) = media_type hw"
  "device_id (IXGBE_WRITE_REG hw r v) = device_id hw"
  by (simp_all add: IXGBE_WRITE_REG_def)

lemma READ_REG_update [simp]:
  "IXGBE_READ_REG (hw\<lparr>mac := m\<rparr>) r = IXGBE_READ_REG hw r"
  "IXGBE_READ_REG (hw\<lparr>addr_ctrl := a\<rparr>) r = IXGBE_READ_REG hw r"
  "IXGBE_READ_REG (hw\<lparr>fc := f\<rparr>) r = IXGBE_READ_REG hw r"
  by (simp_all add: IXGBE_READ_REG_def IXGBE_REMOVED_def)

lemma write_loop_frame [simp]:
  "hw_removed (for_upto m n (\<lambda>i hw. IXGBE_WRITE_REG hw (f i) (g i)) hw) = hw_removed hw"
  "mac (for_upto m n (\<lambda>i hw. IXGBE_WRITE_REG hw (f i) (g i)) hw) = mac hw"
  "addr_ctrl (for_upto m n (\<lambda>i hw. IXGBE_WRITE_REG hw (f i) (g i)) hw) = addr_ctrl hw"
  by (rule for_upto_frame; simp)+

text \<open>A loop that writes the same value to a range of registers.\<close>

lemma write_loop_read:
  assumes "\<not> hw_removed hw"
  shows "IXGBE_READ_REG (for_upto m n (\<lambda>i hw. IXGBE_WRITE_REG hw (f i) v) hw) r =
    (if r \<in> f ` {m..<n} then v else IXGBE_READ_REG hw r)"
  using assms by (induction n) (auto simp: atLeastLessThanSuc)

text \<open>
  A concrete adapter for the examples: an 82599 with all registers zero, 128 receive address
  entries of which only RAR 0 is counted as used.
\<close>

definition hw_reset :: ixgbe_hw where
  "hw_reset =
     \<lparr>hw_removed = False,
      mac = \<lparr>mac_type = ixgbe_mac_82599EB, mac_addr = [0x02, 0x1B, 0x21, 0x0A, 0x0B, 0x0C],
             mta_shadow = replicate 128 0, mc_filter_type = 0, mcft_size = 128, vft_size = 128,
             num_rar_entries = 128, rar_highwater = 1, san_mac_rar_index = 127\<rparr>,
      addr_ctrl = \<lparr>num_mc_addrs = 0, rar_used_count = 1, mta_in_use = 0, overflow_promisc = 0,
                   user_set_promisc = False\<rparr>,
      fc = \<lparr>high_water = replicate 8 0, low_water = replicate 8 0, pause_time = 0xFFFF,
            send_xon = True, strict_ieee = False, disable_fc_autoneg = False,
            fc_was_autonegged = False, current_mode = ixgbe_fc_none,
            requested_mode = ixgbe_fc_full\<rparr>,
      media_type = ixgbe_media_type_fiber,
      device_id = 0x10FB,
      regs = (\<lambda>_. 0)\<rparr>"

lemma READ_REG_reset [simp]: "IXGBE_READ_REG hw_reset r = 0"
  by (simp add: IXGBE_READ_REG_def IXGBE_REMOVED_def hw_reset_def)

lemma hw_reset_simps [simp]:
  "\<not> hw_removed hw_reset" "num_rar_entries (mac hw_reset) = 128" "rar_highwater (mac hw_reset) = 1"
  "rar_used_count (addr_ctrl hw_reset) = 1" "mcft_size (mac hw_reset) = 128"
  "vft_size (mac hw_reset) = 128" "mac_type (mac hw_reset) = ixgbe_mac_82599EB"
  "overflow_promisc (addr_ctrl hw_reset) = 0" "user_set_promisc (addr_ctrl hw_reset) = False"
  by (simp_all add: hw_reset_def)

end
