(* ===== verification/Ixgbe_Rar.thy ===== *)
theory Ixgbe_Rar
  imports Ixgbe_Hw
begin

unbundle bit_operations_syntax

text \<open>
  Receive address registers: the operations of \<open>ixgbe_common.c\<close> that put Ethernet
  addresses into the RAR table (RAL/RAH), associate them with VMDq pools (MPSAR), search and
  replace entries, and initialise the receive filters.  The function pointers
  \<open>hw->mac.ops.set_rar\<close>, \<open>set_vmdq\<close>, \<open>clear_rar\<close>, \<open>clear_vmdq\<close> and
  \<open>get_mac_addr\<close> are the generic functions installed by \<open>ixgbe_init_ops_generic\<close> and
  \<open>ixgbe_init_ops_82599\<close>.
\<close>

section \<open>Operations\<close>

abbreviation IXGBE_RAH_AV :: u32 where
  "IXGBE_RAH_AV \<equiv> 0x80000000"

abbreviation IXGBE_CLEAR_VMDQ_ALL :: u32 where
  "IXGBE_CLEAR_VMDQ_ALL \<equiv> 0xFFFFFFFF"

abbreviation IXGBE_FCTRL_UPE :: u32 where
  "IXGBE_FCTRL_UPE \<equiv> 0x200"

definition IXGBE_IS_MULTICAST :: "u8 list \<Rightarrow> bool" where
  "IXGBE_IS_MULTICAST a \<longleftrightarrow> a ! 0 AND 1 \<noteq> 0"

definition IXGBE_IS_BROADCAST :: "u8 list \<Rightarrow> bool" where
  "IXGBE_IS_BROADCAST a \<longleftrightarrow> a ! 0 = 0xFF \<and> a ! 1 = 0xFF"

definition ixgbe_validate_mac_addr :: "u8 list \<Rightarrow> ixgbe_status" where
  "ixgbe_validate_mac_addr a =
     (if IXGBE_IS_MULTICAST a then IXGBE_ERR_INVALID_MAC_ADDR
      else if IXGBE_IS_BROADCAST a then IXGBE_ERR_INVALID_MAC_ADDR
      else if a ! 0 = 0 \<and> a ! 1 = 0 \<and> a ! 2 = 0 \<and> a ! 3 = 0 \<and> a ! 4 = 0 \<and> a ! 5 = 0
      then IXGBE_ERR_INVALID_MAC_ADDR
      else IXGBE_SUCCESS)"

text \<open>The register image of an address: the low four bytes and the high two, little endian.\<close>

definition addr_low :: "u8 list \<Rightarrow> u32" where
  "addr_low a = ucast (a ! 0) OR push_bit 8 (ucast (a ! 1)) OR
     push_bit 16 (ucast (a ! 2)) OR push_bit 24 (ucast (a ! 3))"

definition addr_high :: "u8 list \<Rightarrow> u32" where
  "addr_high a = ucast (a ! 4) OR push_bit 8 (ucast (a ! 5))"

text \<open>
  Some parts put the VMDq setting in the extra RAH bits: everything is kept except the lower
  16 bits that hold part of the address and the address valid bit.
\<close>

definition rah_keep :: "u32 \<Rightarrow> u32" where
  "rah_keep rar_high = rar_high AND NOT (0x0000FFFF OR IXGBE_RAH_AV)"

definition ixgbe_get_mac_addr_generic :: "ixgbe_hw \<Rightarrow> u8 list" where
  "ixgbe_get_mac_addr_generic hw =
     (let rar_high = IXGBE_READ_REG hw (IXGBE_RAH 0);
          rar_low = IXGBE_READ_REG hw (IXGBE_RAL 0)
      in map (\<lambda>i. ucast (drop_bit (i * 8) rar_low)) [0..<4] @
         map (\<lambda>i. ucast (drop_bit (i * 8) rar_high)) [0..<2])"

definition ixgbe_set_vmdq_generic :: "ixgbe_hw \<Rightarrow> u32 \<Rightarrow> u32 \<Rightarrow> ixgbe_status \<times> ixgbe_hw" where
  "ixgbe_set_vmdq_generic hw rar vmdq =
     (if rar \<ge> num_rar_entries (mac hw) then (IXGBE_ERR_INVALID_ARGUMENT, hw)
      else if vmdq < 32 then
        let mpsar = IXGBE_READ_REG hw (IXGBE_MPSAR_LO (unat rar)) OR BIT (unat vmdq)
        in (IXGBE_SUCCESS, IXGBE_WRITE_REG hw (IXGBE_MPSAR_LO (unat rar)) mpsar)
      else
        let mpsar = IXGBE_READ_REG hw (IXGBE_MPSAR_HI (unat rar)) OR BIT (unat (vmdq - 32))
        in (IXGBE_SUCCESS, IXGBE_WRITE_REG hw (IXGBE_MPSAR_HI (unat rar)) mpsar))"

definition ixgbe_set_rar_generic ::
  "ixgbe_hw \<Rightarrow> u32 \<Rightarrow> u8 list \<Rightarrow> u32 \<Rightarrow> u32 \<Rightarrow> ixgbe_status \<times> ixgbe_hw" where
  "ixgbe_set_rar_generic hw index addr vmdq enable_addr =
     (if index \<ge> num_rar_entries (mac hw) then (IXGBE_ERR_INVALID_ARGUMENT, hw)
      else
        let hw = snd (ixgbe_set_vmdq_generic hw index vmdq);
            rar_low = addr_low addr;
            rar_high = IXGBE_READ_REG hw (IXGBE_RAH (unat index));
            rar_high = rah_keep rar_high;
            rar_high = rar_high OR addr_high addr;
            rar_high = (if enable_addr \<noteq> 0 then rar_high OR IXGBE_RAH_AV else rar_high);
            hw = IXGBE_WRITE_REG hw (IXGBE_RAL (unat index)) rar_low;
            hw = IXGBE_WRITE_REG hw (IXGBE_RAH (unat index)) rar_high
        in (IXGBE_SUCCESS, hw))"

text \<open>
  The pool update of \<open>ixgbe_clear_vmdq_generic\<close>: the new values of \<open>mpsar_lo\<close> and
  \<open>mpsar_hi\<close> with the hardware after the writes.
\<close>

definition clear_vmdq_pools :: "ixgbe_hw \<Rightarrow> u32 \<Rightarrow> u32 \<Rightarrow> u32 \<Rightarrow> u32 \<Rightarrow> u32 \<times> u32 \<times> ixgbe_hw" where
  "clear_vmdq_pools hw rar vmdq mpsar_lo mpsar_hi =
     (if vmdq = IXGBE_CLEAR_VMDQ_ALL then
        let (mpsar_lo, hw) =
              (if mpsar_lo \<noteq> 0
               then let hw = IXGBE_WRITE_REG hw (IXGBE_MPSAR_LO (unat rar)) 0
                    in (IXGBE_READ_REG hw (IXGBE_MPSAR_LO (unat rar)), hw)
               else (mpsar_lo, hw));
            (mpsar_hi, hw) =
              (if mpsar_hi \<noteq> 0
               then let hw = IXGBE_WRITE_REG hw (IXGBE_MPSAR_HI (unat rar)) 0
                    in (IXGBE_READ_REG hw (IXGBE_MPSAR_HI (unat rar)), hw)
               else (mpsar_hi, hw))
        in (mpsar_lo, mpsar_hi, hw)
      else if vmdq < 32 then
        let mpsar_lo = mpsar_lo AND NOT (BIT (unat vmdq))
        in (mpsar_lo, mpsar_hi, IXGBE_WRITE_REG hw (IXGBE_MPSAR_LO (unat rar)) mpsar_lo)
      else
        let mpsar_hi = mpsar_hi AND NOT (BIT (unat (vmdq - 32)))
        in (mpsar_lo, mpsar_hi, IXGBE_WRITE_REG hw (IXGBE_MPSAR_HI (unat rar)) mpsar_hi))"

definition pools_pending :: "ixgbe_hw \<Rightarrow> u32 \<Rightarrow> nat" where
  "pools_pending hw rar =
     (if hw_removed hw \<or> (IXGBE_READ_REG hw (IXGBE_MPSAR_LO (unat rar)) = 0 \<and>
          IXGBE_READ_REG hw (IXGBE_MPSAR_HI (unat rar)) = 0) then 0 else 1)"

lemma clear_vmdq_pools_reads:
  assumes "\<not> hw_removed hw"
    and "mpsar_lo = IXGBE_READ_REG hw (IXGBE_MPSAR_LO (unat rar))"
    and "mpsar_hi = IXGBE_READ_REG hw (IXGBE_MPSAR_HI (unat rar))"
    and "clear_vmdq_pools hw rar vmdq mpsar_lo mpsar_hi = (lo, hi, hw')"
  shows "IXGBE_READ_REG hw' (IXGBE_MPSAR_LO (unat rar)) = lo"
    and "IXGBE_READ_REG hw' (IXGBE_MPSAR_HI (unat rar)) = hi"
    and "hw_removed hw' = hw_removed hw"
    and "mac hw' = mac hw"
  using assms by (auto simp: clear_vmdq_pools_def Let_def split: if_splits)

text \<open>
  \<open>ixgbe_clear_rar_generic\<close> and \<open>ixgbe_clear_vmdq_generic\<close> call each other; the
  recursion stops because the second visit finds no pool left on the entry.
\<close>

function ixgbe_clear_rar_generic :: "ixgbe_hw \<Rightarrow> u32 \<Rightarrow> ixgbe_status \<times> ixgbe_hw"
  and ixgbe_clear_vmdq_generic :: "ixgbe_hw \<Rightarrow> u32 \<Rightarrow> u32 \<Rightarrow> ixgbe_status \<times> ixgbe_hw" where
  "ixgbe_clear_rar_generic hw index =
     (if index \<ge> num_rar_entries (mac hw) then (IXGBE_ERR_INVALID_ARGUMENT, hw)
      else
        let rar_high = IXGBE_READ_REG hw (IXGBE_RAH (unat index));
            rar_high = rah_keep rar_high;
            hw = IXGBE_WRITE_REG hw (IXGBE_RAL (unat index)) 0;
            hw = IXGBE_WRITE_REG hw (IXGBE_RAH (unat index)) rar_high
        in (IXGBE_SUCCESS, snd (ixgbe_clear_vmdq_generic hw index IXGBE_CLEAR_VMDQ_ALL)))"
| "ixgbe_clear_vmdq_generic hw rar vmdq =
     (if rar \<ge> num_rar_entries (mac hw) then (IXGBE_ERR_INVALID_ARGUMENT, hw)
      else
        let mpsar_lo = IXGBE_READ_REG hw (IXGBE_MPSAR_LO (unat rar));
            mpsar_hi = IXGBE_READ_REG hw (IXGBE_MPSAR_HI (unat rar))
        in if IXGBE_REMOVED hw then (IXGBE_SUCCESS, hw)
           else if mpsar_lo = 0 \<and> mpsar_hi = 0 then (IXGBE_SUCCESS, hw)
           else
             let (lo, hi, hw') = clear_vmdq_pools hw rar vmdq mpsar_lo mpsar_hi
             in if lo = 0 \<and> hi = 0 \<and> rar \<noteq> 0 \<and> rar \<noteq> ucast (san_mac_rar_index (mac hw'))
                then (IXGBE_SUCCESS, snd (ixgbe_clear_rar_generic hw' rar))
                else (IXGBE_SUCCESS, hw'))"
  by pat_completeness auto

termination
proof (relation "measure (\<lambda>x. case x of Inl (hw, i) \<Rightarrow> 2 * pools_pending hw i + 1
                                       | Inr (hw, i, v) \<Rightarrow> 2 * pools_pending hw i)", goal_cases)
  case 1
  show ?case by simp
next
  case (2 hw index)
  then show ?case by (simp add: pools_pending_def)
next
  case (3 hw rar vmdq lo0 hi0 p lo q hi hw')
  then have "pools_pending hw rar = 1"
    by (auto simp: pools_pending_def IXGBE_REMOVED_def)
  moreover have "pools_pending hw' rar = 0"
    using 3 clear_vmdq_pools_reads [of hw lo0 rar hi0 vmdq lo hi hw']
    by (auto simp: pools_pending_def IXGBE_REMOVED_def)
  ultimately show ?case by simp
qed

declare ixgbe_clear_rar_generic.simps [simp del]
declare ixgbe_clear_vmdq_generic.simps [simp del]

text \<open>
  The search loop of \<open>ixgbe_insert_mac_addr_generic\<close>.  \<open>None\<close> stands for
  \<open>NO_EMPTY_RAR_FOUND\<close>.  The result is the loop index at the exit and the first empty entry.
\<close>

function rar_search ::
  "ixgbe_hw \<Rightarrow> u32 \<Rightarrow> u32 \<Rightarrow> u32 \<Rightarrow> u32 option \<Rightarrow> u32 \<times> u32 option" where
  "rar_search hw lo hi rar first_empty =
     (if rar < rar_highwater (mac hw) then
        let rar_high = IXGBE_READ_REG hw (IXGBE_RAH (unat rar)) in
        if IXGBE_RAH_AV AND rar_high = 0 \<and> first_empty = None
        then rar_search hw lo hi (rar + 1) (Some rar)
        else if rar_high AND 0xFFFF = hi then
          if IXGBE_READ_REG hw (IXGBE_RAL (unat rar)) = lo then (rar, first_empty)
          else rar_search hw lo hi (rar + 1) first_empty
        else rar_search hw lo hi (rar + 1) first_empty
      else (rar, first_empty))"
  by pat_completeness auto
termination
  by (relation "measure (\<lambda>(hw, lo, hi, rar, fe). unat (rar_highwater (mac hw)) - unat rar)")
    (auto simp: unat_plus_1 word_less_nat_alt)

declare rar_search.simps [simp del]

definition ixgbe_insert_mac_addr_generic ::
  "ixgbe_hw \<Rightarrow> u8 list \<Rightarrow> u32 \<Rightarrow> (ixgbe_status + u32) \<times> ixgbe_hw" where
  "ixgbe_insert_mac_addr_generic hw addr vmdq =
     (let (rar, first_empty_rar) = rar_search hw (addr_low addr) (addr_high addr) 0 None;
          finish = (\<lambda>rar hw. (Inr rar,
            if rar = 0 then snd (ixgbe_clear_vmdq_generic hw rar 0) else hw))
      in if rar < rar_highwater (mac hw) then
           finish rar (snd (ixgbe_set_vmdq_generic hw rar vmdq))
         else (case first_empty_rar of
             Some rar \<Rightarrow> finish rar (snd (ixgbe_set_rar_generic hw rar addr vmdq IXGBE_RAH_AV))
           | None \<Rightarrow>
               if rar = rar_highwater (mac hw) then
                 let hw = snd (ixgbe_set_rar_generic hw rar addr vmdq IXGBE_RAH_AV)
                 in finish rar (hw\<lparr>mac := (mac hw)\<lparr>rar_highwater := rar_highwater (mac hw) + 1\<rparr>\<rparr>)
               else if rar \<ge> num_rar_entries (mac hw) then (Inl IXGBE_ERR_INVALID_MAC_ADDR, hw)
               else finish rar hw))"

definition ixgbe_set_vmdq_san_mac_generic :: "ixgbe_hw \<Rightarrow> u32 \<Rightarrow> ixgbe_status \<times> ixgbe_hw" where
  "ixgbe_set_vmdq_san_mac_generic hw vmdq =
     (let rar = unat (san_mac_rar_index (mac hw)) in
      if vmdq < 32 then
        let hw = IXGBE_WRITE_REG hw (IXGBE_MPSAR_LO rar) (BIT (unat vmdq))
        in (IXGBE_SUCCESS, IXGBE_WRITE_REG hw (IXGBE_MPSAR_HI rar) 0)
      else
        let hw = IXGBE_WRITE_REG hw (IXGBE_MPSAR_LO rar) 0
        in (IXGBE_SUCCESS, IXGBE_WRITE_REG hw (IXGBE_MPSAR_HI rar) (BIT (unat (vmdq - 32)))))"

definition ixgbe_add_uc_addr :: "ixgbe_hw \<Rightarrow> u8 list \<Rightarrow> u32 \<Rightarrow> ixgbe_hw" where
  "ixgbe_add_uc_addr hw addr vmdq =
     (if rar_used_count (addr_ctrl hw) < num_rar_entries (mac hw) then
        let rar = rar_used_count (addr_ctrl hw);
            hw = snd (ixgbe_set_rar_generic hw rar addr vmdq IXGBE_RAH_AV)
        in hw\<lparr>addr_ctrl := (addr_ctrl hw)\<lparr>rar_used_count := rar_used_count (addr_ctrl hw) + 1\<rparr>\<rparr>
      else
        hw\<lparr>addr_ctrl := (addr_ctrl hw)\<lparr>overflow_promisc := overflow_promisc (addr_ctrl hw) + 1\<rparr>\<rparr>)"

text \<open>
  The iterator \<open>next\<close> walks the caller's address list; the model takes the addresses
  and pool indices it yields, in order.
\<close>

definition clear_rars :: "nat \<Rightarrow> nat \<Rightarrow> ixgbe_hw \<Rightarrow> ixgbe_hw" where
  "clear_rars m n hw = for_upto m n (\<lambda>i hw.
     IXGBE_WRITE_REG (IXGBE_WRITE_REG hw (IXGBE_RAL i) 0) (IXGBE_RAH i) 0) hw"

definition ixgbe_update_uc_addr_list_generic ::
  "ixgbe_hw \<Rightarrow> (u8 list \<times> u32) list \<Rightarrow> ixgbe_status \<times> ixgbe_hw" where
  "ixgbe_update_uc_addr_list_generic hw addrs =
     (let old_promisc_setting = overflow_promisc (addr_ctrl hw);
          uc_addr_in_use = rar_used_count (addr_ctrl hw) - 1;
          hw = hw\<lparr>addr_ctrl := (addr_ctrl hw)
                 \<lparr>rar_used_count := rar_used_count (addr_ctrl hw) - uc_addr_in_use,
                  overflow_promisc := 0\<rparr>\<rparr>;
          hw = clear_rars 1 (1 + unat uc_addr_in_use) hw;
          hw = fold (\<lambda>(addr, vmdq) hw. ixgbe_add_uc_addr hw addr vmdq) addrs hw
      in if overflow_promisc (addr_ctrl hw) \<noteq> 0 then
           if old_promisc_setting = 0 \<and> \<not> user_set_promisc (addr_ctrl hw) then
             (IXGBE_SUCCESS, IXGBE_WRITE_REG hw IXGBE_FCTRL
                (IXGBE_READ_REG hw IXGBE_FCTRL OR IXGBE_FCTRL_UPE))
           else (IXGBE_SUCCESS, hw)
         else
           if old_promisc_setting \<noteq> 0 \<and> \<not> user_set_promisc (addr_ctrl hw) then
             (IXGBE_SUCCESS, IXGBE_WRITE_REG hw IXGBE_FCTRL
                (IXGBE_READ_REG hw IXGBE_FCTRL AND NOT IXGBE_FCTRL_UPE))
           else (IXGBE_SUCCESS, hw))"

definition ixgbe_init_uta_tables_generic :: "ixgbe_hw \<Rightarrow> ixgbe_status \<times> ixgbe_hw" where
  "ixgbe_init_uta_tables_generic hw =
     (IXGBE_SUCCESS, for_upto 0 128 (\<lambda>i hw. IXGBE_WRITE_REG hw (IXGBE_UTA i) 0) hw)"

definition ixgbe_init_rx_addrs_generic :: "ixgbe_hw \<Rightarrow> ixgbe_status \<times> ixgbe_hw" where
  "ixgbe_init_rx_addrs_generic hw =
     (let hw = (if ixgbe_validate_mac_addr (mac_addr (mac hw)) = IXGBE_ERR_INVALID_MAC_ADDR
                then hw\<lparr>mac := (mac hw)\<lparr>mac_addr := ixgbe_get_mac_addr_generic hw\<rparr>\<rparr>
                else snd (ixgbe_set_rar_generic hw 0 (mac_addr (mac hw)) 0 IXGBE_RAH_AV));
          hw = snd (ixgbe_clear_vmdq_generic hw 0 IXGBE_CLEAR_VMDQ_ALL);
          hw = hw\<lparr>addr_ctrl := (addr_ctrl hw)\<lparr>overflow_promisc := 0, rar_used_count := 1\<rparr>\<rparr>;
          hw = clear_rars 1 (unat (num_rar_entries (mac hw))) hw;
          hw = hw\<lparr>addr_ctrl := (addr_ctrl hw)\<lparr>mta_in_use := 0\<rparr>\<rparr>;
          hw = IXGBE_WRITE_REG hw IXGBE_MCSTCTRL (word_of_int (mc_filter_type (mac hw)));
          hw = for_upto 0 (unat (mcft_size (mac hw)))
                 (\<lambda>i hw. IXGBE_WRITE_REG hw (IXGBE_MTA i) 0) hw;
          hw = snd (ixgbe_init_uta_tables_generic hw)
      in (IXGBE_SUCCESS, hw))"

section \<open>Abstract view of the receive address table\<close>

text \<open>
  What the registers mean: entry \<open>i\<close> is valid when bit 31 (AV) of \<open>RAH(i)\<close> is set, holds an
  address split over \<open>RAL(i)\<close> and the low half of \<open>RAH(i)\<close>, and delivers to the pools whose bits
  are set in the pair \<open>MPSAR_LO(i)\<close>, \<open>MPSAR_HI(i)\<close>.
\<close>

definition rar_valid :: "ixgbe_hw \<Rightarrow> nat \<Rightarrow> bool" where
  "rar_valid hw i \<longleftrightarrow> bit (IXGBE_READ_REG hw (IXGBE_RAH i)) 31"

definition rar_image :: "ixgbe_hw \<Rightarrow> nat \<Rightarrow> u32 \<times> u32" where
  "rar_image hw i = (IXGBE_READ_REG hw (IXGBE_RAL i), IXGBE_READ_REG hw (IXGBE_RAH i) AND 0xFFFF)"

definition rar_pool :: "ixgbe_hw \<Rightarrow> nat \<Rightarrow> nat \<Rightarrow> bool" where
  "rar_pool hw i p \<longleftrightarrow>
     (if p < 32 then bit (IXGBE_READ_REG hw (IXGBE_MPSAR_LO i)) p
      else bit (IXGBE_READ_REG hw (IXGBE_MPSAR_HI i)) (p - 32))"

definition rar_holds :: "ixgbe_hw \<Rightarrow> nat \<Rightarrow> u8 list \<Rightarrow> bool" where
  "rar_holds hw i addr \<longleftrightarrow> rar_valid hw i \<and> rar_image hw i = (addr_low addr, addr_high addr)"

text \<open>The two register writes with which \<open>ixgbe_clear_rar_generic\<close> empties an entry.\<close>

definition clear_rar_regs :: "ixgbe_hw \<Rightarrow> nat \<Rightarrow> ixgbe_hw" where
  "clear_rar_regs hw i = IXGBE_WRITE_REG (IXGBE_WRITE_REG hw (IXGBE_RAL i) 0) (IXGBE_RAH i)
     (rah_keep (IXGBE_READ_REG hw (IXGBE_RAH i)))"

text \<open>The pools of an entry that remain when \<open>v\<close> is removed, and whether the removal gives the
  entry up: its last pool is gone and it is neither RAR 0 nor the SAN address.\<close>

definition pool_left :: "ixgbe_hw \<Rightarrow> u32 \<Rightarrow> u32 \<Rightarrow> nat \<Rightarrow> bool" where
  "pool_left hw rar v p \<longleftrightarrow>
     rar_pool hw (unat rar) p \<and> v \<noteq> IXGBE_CLEAR_VMDQ_ALL \<and> p \<noteq> unat v"

definition rar_given_up :: "ixgbe_hw \<Rightarrow> u32 \<Rightarrow> u32 \<Rightarrow> bool" where
  "rar_given_up hw rar v \<longleftrightarrow>
     (\<exists>p < 64. rar_pool hw (unat rar) p) \<and> (\<forall>p < 64. \<not> pool_left hw rar v p) \<and>
     rar \<noteq> 0 \<and> rar \<noteq> ucast (san_mac_rar_index (mac hw))"

section \<open>Address images and register fields\<close>

lemma bit_addr_high [bitw]:
  "bit (addr_high a) n \<longleftrightarrow> (if n < 8 then bit (a ! 4) n else n < 16 \<and> bit (a ! 5) (n - 8))"
  using bit_imp_le_length [of "a ! 4" n] bit_imp_le_length [of "a ! 5" "n - 8"]
  by (auto simp: addr_high_def bit_or_iff bit_push_bit_iff bit_ucast_iff)

lemma bit_addr_low [bitw]:
  "bit (addr_low a) n \<longleftrightarrow>
     (if n < 8 then bit (a ! 0) n else if n < 16 then bit (a ! 1) (n - 8)
      else if n < 24 then bit (a ! 2) (n - 16) else n < 32 \<and> bit (a ! 3) (n - 24))"
  using bit_imp_le_length [of "a ! 0" n] bit_imp_le_length [of "a ! 1" "n - 8"]
    bit_imp_le_length [of "a ! 2" "n - 16"] bit_imp_le_length [of "a ! 3" "n - 24"]
  by (auto simp: addr_low_def bit_or_iff bit_push_bit_iff bit_ucast_iff)

lemma addr_low_bytes:
  "ucast (addr_low a) = a ! 0"
  "ucast (drop_bit 8 (addr_low a)) = a ! 1"
  "ucast (drop_bit 16 (addr_low a)) = a ! 2"
  "ucast (drop_bit 24 (addr_low a)) = a ! 3"
  by (rule bit_word_eqI; auto simp: bit_ucast_iff bit_drop_bit_eq bitw)+

lemma addr_high_bytes:
  "ucast (addr_high a) = a ! 4"
  "ucast (drop_bit 8 (addr_high a)) = a ! 5"
  by (rule bit_word_eqI; auto simp: bit_ucast_iff bit_drop_bit_eq bitw)+

lemma list6_eqI:
  assumes "length a = 6" "length b = 6" "\<And>i. i < 6 \<Longrightarrow> a ! i = b ! i"
  shows "a = b"
  using assms by (auto intro: nth_equalityI)

lemma addr_image_inject:
  assumes "length a = 6" "length b = 6" "addr_low a = addr_low b" "addr_high a = addr_high b"
  shows "a = b"
proof (rule list6_eqI)
  fix i :: nat assume "i < 6"
  then consider "i = 0" | "i = 1" | "i = 2" | "i = 3" | "i = 4" | "i = 5" by linarith
  then show "a ! i = b ! i"
    using addr_low_bytes [of a] addr_low_bytes [of b] addr_high_bytes [of a] addr_high_bytes [of b]
      assms(3,4) by cases simp_all
qed (use assms in auto)

lemma bit_rah_keep [bitw]: "bit (rah_keep x) n \<longleftrightarrow> bit x n \<and> 16 \<le> n \<and> n \<noteq> 31"
  unfolding rah_keep_def lit_masks
  by (auto simp: bit_and_iff bit_or_iff bit_not_iff bit_mask_iff bitw dest: bit_imp_le_length)

lemma bit_mask16 [bitw]: "bit ((x :: u32) AND 0xFFFF) n \<longleftrightarrow> bit x n \<and> n < 16"
  unfolding lit_masks by (auto simp: bit_and_iff bit_mask_iff)

lemma bit_or_AV [bitw]: "bit (x OR IXGBE_RAH_AV) n \<longleftrightarrow> bit x n \<or> n = 31"
  unfolding lit_masks by (auto simp: bitw)

lemma rah_fields:
  "(rah_keep x OR addr_high a) AND 0xFFFF = addr_high a"
  "((rah_keep x OR addr_high a) OR IXGBE_RAH_AV) AND 0xFFFF = addr_high a"
  "rah_keep x AND 0xFFFF = 0"
  unfolding bit_31_eq
  by (rule bit_word_eqI; auto simp: bit_or_iff bitw split: if_splits)+

lemma rah_av_test: "IXGBE_RAH_AV AND x = 0 \<longleftrightarrow> \<not> bit x 31"
  unfolding lit_masks by (simp add: and.commute and_BIT_eq_0)

lemmas rar_defs = rar_valid_def rar_image_def rar_pool_def rar_holds_def

section \<open>Effect of the single-entry operations\<close>

lemma set_vmdq_effect:
  assumes "\<not> hw_removed hw" "rar < num_rar_entries (mac hw)" "vmdq < 64"
    and "ixgbe_set_vmdq_generic hw rar vmdq = (st, hw')"
  shows "st = IXGBE_SUCCESS"
    and "rar_pool hw' j p \<longleftrightarrow> rar_pool hw j p \<or> (j = unat rar \<and> p = unat vmdq)"
    and "rar_valid hw' = rar_valid hw" and "rar_image hw' = rar_image hw"
    and "hw_removed hw' = hw_removed hw" and "mac hw' = mac hw" and "addr_ctrl hw' = addr_ctrl hw"
  using assms
  by (auto simp: ixgbe_set_vmdq_generic_def Let_def rar_defs fun_eq_iff bitw idx_simps
      split: if_splits)

lemma set_rar_effect:
  assumes "\<not> hw_removed hw" "index < num_rar_entries (mac hw)" "vmdq < 64"
    and "ixgbe_set_rar_generic hw index addr vmdq en = (st, hw')"
  shows "st = IXGBE_SUCCESS"
    and "rar_pool hw' j p \<longleftrightarrow> rar_pool hw j p \<or> (j = unat index \<and> p = unat vmdq)"
    and "rar_valid hw' j \<longleftrightarrow> (if j = unat index then en \<noteq> 0 else rar_valid hw j)"
    and "rar_image hw' j = (if j = unat index then (addr_low addr, addr_high addr) else rar_image hw j)"
    and "hw_removed hw' = hw_removed hw" and "mac hw' = mac hw" and "addr_ctrl hw' = addr_ctrl hw"
proof -
  obtain st1 hw1 where 1: "ixgbe_set_vmdq_generic hw index vmdq = (st1, hw1)"
    by fastforce
  note eff = set_vmdq_effect [OF assms(1-3) 1]
  define h where "h = rah_keep (IXGBE_READ_REG hw1 (IXGBE_RAH (unat index)))"
  define v where "v = (if en \<noteq> 0 then (h OR addr_high addr) OR IXGBE_RAH_AV else h OR addr_high addr)"
  have hw': "st = IXGBE_SUCCESS" "hw' = IXGBE_WRITE_REG (IXGBE_WRITE_REG hw1 (IXGBE_RAL (unat index)) (addr_low addr))
    (IXGBE_RAH (unat index)) v"
    using assms(2,4) 1 by (auto simp: ixgbe_set_rar_generic_def Let_def v_def h_def ge_less_False)
  have v: "v AND 0xFFFF = addr_high addr" "bit v 31 \<longleftrightarrow> en \<noteq> 0"
    unfolding v_def h_def by (auto simp: rah_fields bit_or_iff bitw)
  have nr: "\<not> hw_removed hw1" using eff assms(1) by simp
  have img: "rar_image hw1 j = rar_image hw j" "rar_valid hw1 j = rar_valid hw j"
    using eff by simp_all
  have pool: "rar_pool hw' j p = rar_pool hw1 j p"
    by (simp add: hw' rar_pool_def)
  show "st = IXGBE_SUCCESS" by (rule hw')
  show "rar_pool hw' j p \<longleftrightarrow> rar_pool hw j p \<or> (j = unat index \<and> p = unat vmdq)"
    using eff pool by simp
  show "rar_valid hw' j \<longleftrightarrow> (if j = unat index then en \<noteq> 0 else rar_valid hw j)"
    using nr v img by (auto simp: hw' rar_valid_def)
  show "rar_image hw' j = (if j = unat index then (addr_low addr, addr_high addr) else rar_image hw j)"
    using nr v img by (auto simp: hw' rar_image_def)
  show "hw_removed hw' = hw_removed hw" and "mac hw' = mac hw" and "addr_ctrl hw' = addr_ctrl hw"
    using eff by (simp_all add: hw')
qed

lemma clear_vmdq_no_pools:
  assumes "rar < num_rar_entries (mac hw)"
    and "IXGBE_READ_REG hw (IXGBE_MPSAR_LO (unat rar)) = 0" "IXGBE_READ_REG hw (IXGBE_MPSAR_HI (unat rar)) = 0"
  shows "ixgbe_clear_vmdq_generic hw rar v = (IXGBE_SUCCESS, hw)"
  using assms by (simp add: ixgbe_clear_vmdq_generic.simps not_le)

lemma clear_rar_regs_effect:
  assumes "\<not> hw_removed hw"
  shows "rar_valid (clear_rar_regs hw i) j \<longleftrightarrow> rar_valid hw j \<and> j \<noteq> i"
    and "rar_image (clear_rar_regs hw i) j = (if j = i then (0, 0) else rar_image hw j)"
    and "rar_pool (clear_rar_regs hw i) = rar_pool hw"
    and "hw_removed (clear_rar_regs hw i) = hw_removed hw"
    and "mac (clear_rar_regs hw i) = mac hw" and "addr_ctrl (clear_rar_regs hw i) = addr_ctrl hw"
    and "IXGBE_READ_REG (clear_rar_regs hw i) (IXGBE_MPSAR_LO k) = IXGBE_READ_REG hw (IXGBE_MPSAR_LO k)"
    and "IXGBE_READ_REG (clear_rar_regs hw i) (IXGBE_MPSAR_HI k) = IXGBE_READ_REG hw (IXGBE_MPSAR_HI k)"
  using assms
  by (auto simp: clear_rar_regs_def rar_defs fun_eq_iff rah_fields bitw)

lemma clear_rar_unfold:
  assumes "index < num_rar_entries (mac hw)"
  shows "ixgbe_clear_rar_generic hw index =
    (IXGBE_SUCCESS, snd (ixgbe_clear_vmdq_generic (clear_rar_regs hw (unat index)) index IXGBE_CLEAR_VMDQ_ALL))"
  using assms by (simp add: ixgbe_clear_rar_generic.simps clear_rar_regs_def not_le Let_def)

lemma clear_rar_no_pools:
  assumes "index < num_rar_entries (mac hw)" "\<not> hw_removed hw"
    and "IXGBE_READ_REG hw (IXGBE_MPSAR_LO (unat index)) = 0" "IXGBE_READ_REG hw (IXGBE_MPSAR_HI (unat index)) = 0"
  shows "ixgbe_clear_rar_generic hw index = (IXGBE_SUCCESS, clear_rar_regs hw (unat index))"
  using assms by (simp add: clear_rar_unfold clear_vmdq_no_pools clear_rar_regs_effect)

lemma no_pools_iff:
  "(\<forall>p < 64. \<not> rar_pool hw i p) \<longleftrightarrow>
     IXGBE_READ_REG hw (IXGBE_MPSAR_LO i) = 0 \<and> IXGBE_READ_REG hw (IXGBE_MPSAR_HI i) = 0"
proof -
  have "(\<forall>p < 64. \<not> rar_pool hw i p) \<longleftrightarrow>
    (\<forall>p < 32. \<not> rar_pool hw i p) \<and> (\<forall>q < 32. \<not> rar_pool hw i (q + 32))" (is "?l \<longleftrightarrow> ?r")
  proof
    assume r: ?r
    show ?l
    proof (intro allI impI)
      fix p :: nat assume "p < 64"
      with r show "\<not> rar_pool hw i p"
        by (cases "p < 32") (auto dest: spec [of _ "p - 32"])
    qed
  qed auto
  then show ?thesis by (simp add: word_eq_0_iff_bits rar_pool_def)
qed

lemma clear_vmdq_pools_effect:
  assumes "\<not> hw_removed hw" "v < 64 \<or> v = IXGBE_CLEAR_VMDQ_ALL"
    and "clear_vmdq_pools hw rar v (IXGBE_READ_REG hw (IXGBE_MPSAR_LO (unat rar)))
        (IXGBE_READ_REG hw (IXGBE_MPSAR_HI (unat rar))) = (lo, hi, hw')"
  shows "j \<noteq> unat rar \<Longrightarrow> rar_pool hw' j p = rar_pool hw j p"
    and "p < 64 \<Longrightarrow> rar_pool hw' (unat rar) p \<longleftrightarrow> rar_pool hw (unat rar) p \<and> v \<noteq> IXGBE_CLEAR_VMDQ_ALL \<and> p \<noteq> unat v"
    and "rar_valid hw' = rar_valid hw" and "rar_image hw' = rar_image hw" and "addr_ctrl hw' = addr_ctrl hw"
    and "lo = 0 \<and> hi = 0 \<longleftrightarrow> (\<forall>p < 64. \<not> rar_pool hw' (unat rar) p)"
proof -
  note reads = clear_vmdq_pools_reads [OF assms(1) refl refl assms(3)]
  show "j \<noteq> unat rar \<Longrightarrow> rar_pool hw' j p = rar_pool hw j p"
    using assms by (auto simp: clear_vmdq_pools_def Let_def rar_pool_def split: if_splits)
  show "p < 64 \<Longrightarrow> rar_pool hw' (unat rar) p \<longleftrightarrow> rar_pool hw (unat rar) p \<and> v \<noteq> IXGBE_CLEAR_VMDQ_ALL \<and> p \<noteq> unat v"
    using assms by (auto simp: clear_vmdq_pools_def Let_def rar_pool_def bitw idx_simps split: if_splits)
  show "rar_valid hw' = rar_valid hw" and "rar_image hw' = rar_image hw" and "addr_ctrl hw' = addr_ctrl hw"
    using assms by (auto simp: clear_vmdq_pools_def Let_def rar_defs fun_eq_iff split: if_splits)
  show "lo = 0 \<and> hi = 0 \<longleftrightarrow> (\<forall>p < 64. \<not> rar_pool hw' (unat rar) p)"
    using reads by (simp add: no_pools_iff)
qed

lemma clear_vmdq_cases:
  assumes "\<not> hw_removed hw" "rar < num_rar_entries (mac hw)" "v < 64 \<or> v = IXGBE_CLEAR_VMDQ_ALL"
  shows "\<exists>hw1. hw_removed hw1 = hw_removed hw \<and> mac hw1 = mac hw \<and> addr_ctrl hw1 = addr_ctrl hw \<and>
     rar_valid hw1 = rar_valid hw \<and> rar_image hw1 = rar_image hw \<and>
     (\<forall>j p. p < 64 \<longrightarrow> rar_pool hw1 j p = (if j = unat rar then pool_left hw rar v p else rar_pool hw j p)) \<and>
     ixgbe_clear_vmdq_generic hw rar v =
       (IXGBE_SUCCESS, if rar_given_up hw rar v then clear_rar_regs hw1 (unat rar) else hw1)"
proof (cases "\<forall>p < 64. \<not> rar_pool hw (unat rar) p")
  case True
  then have "ixgbe_clear_vmdq_generic hw rar v = (IXGBE_SUCCESS, hw)"
    using assms(2) by (simp add: no_pools_iff clear_vmdq_no_pools)
  with True show ?thesis
    by (intro exI [of _ hw]) (auto simp: pool_left_def rar_given_up_def)
next
  case False
  obtain lo hi hw1 where c: "clear_vmdq_pools hw rar v (IXGBE_READ_REG hw (IXGBE_MPSAR_LO (unat rar)))
        (IXGBE_READ_REG hw (IXGBE_MPSAR_HI (unat rar))) = (lo, hi, hw1)"
    using prod_cases3 by blast
  note r = clear_vmdq_pools_reads [OF assms(1) refl refl c]
  note e = clear_vmdq_pools_effect [OF assms(1,3) c]
  have z: "lo = 0 \<and> hi = 0 \<longleftrightarrow> (\<forall>p < 64. \<not> pool_left hw rar v p)"
    using e(2,6) by (auto simp: pool_left_def)
  have g: "rar_given_up hw rar v \<longleftrightarrow> lo = 0 \<and> hi = 0 \<and> rar \<noteq> 0 \<and> rar \<noteq> ucast (san_mac_rar_index (mac hw1))"
    using False z r(4) by (auto simp: rar_given_up_def)
  have "ixgbe_clear_rar_generic hw1 rar = (IXGBE_SUCCESS, clear_rar_regs hw1 (unat rar))" if "lo = 0 \<and> hi = 0"
    using clear_rar_no_pools [of rar hw1] that r assms by simp
  then have "ixgbe_clear_vmdq_generic hw rar v =
       (IXGBE_SUCCESS, if rar_given_up hw rar v then clear_rar_regs hw1 (unat rar) else hw1)"
    using False assms(1,2) c g
    by (auto simp: ixgbe_clear_vmdq_generic.simps [of hw] no_pools_iff IXGBE_REMOVED_def ge_less_False Let_def)
  with e r show ?thesis
    by (intro exI [of _ hw1]) (auto simp: pool_left_def)
qed

lemma clear_vmdq_effect:
  assumes "\<not> hw_removed hw" "rar < num_rar_entries (mac hw)" "v < 64 \<or> v = IXGBE_CLEAR_VMDQ_ALL"
    and "ixgbe_clear_vmdq_generic hw rar v = (st, hw')"
  shows "st = IXGBE_SUCCESS"
    and "p < 64 \<Longrightarrow> rar_pool hw' j p \<longleftrightarrow> (if j = unat rar then pool_left hw rar v p else rar_pool hw j p)"
    and "rar_valid hw' j \<longleftrightarrow> rar_valid hw j \<and> \<not> (j = unat rar \<and> rar_given_up hw rar v)"
    and "rar_image hw' j = (if j = unat rar \<and> rar_given_up hw rar v then (0, 0) else rar_image hw j)"
    and "hw_removed hw' = hw_removed hw" and "mac hw' = mac hw" and "addr_ctrl hw' = addr_ctrl hw"
proof -
  obtain hw1 where 1: "hw_removed hw1 = hw_removed hw" "mac hw1 = mac hw" "addr_ctrl hw1 = addr_ctrl hw"
    "rar_valid hw1 = rar_valid hw" "rar_image hw1 = rar_image hw"
    and pool: "\<And>j p. p < 64 \<Longrightarrow>
      rar_pool hw1 j p = (if j = unat rar then pool_left hw rar v p else rar_pool hw j p)"
    and res: "ixgbe_clear_vmdq_generic hw rar v =
       (IXGBE_SUCCESS, if rar_given_up hw rar v then clear_rar_regs hw1 (unat rar) else hw1)"
    using clear_vmdq_cases [OF assms(1-3)] by blast
  have eq: "st = IXGBE_SUCCESS" "hw' = (if rar_given_up hw rar v then clear_rar_regs hw1 (unat rar) else hw1)"
    using res assms(4) by simp_all
  show "st = IXGBE_SUCCESS" by (rule eq)
  show "p < 64 \<Longrightarrow> rar_pool hw' j p \<longleftrightarrow> (if j = unat rar then pool_left hw rar v p else rar_pool hw j p)"
    using 1 pool [of p j] assms(1) by (cases "j = unat rar") (simp_all add: eq clear_rar_regs_effect)
  show "rar_valid hw' j \<longleftrightarrow> rar_valid hw j \<and> \<not> (j = unat rar \<and> rar_given_up hw rar v)"
    and "rar_image hw' j = (if j = unat rar \<and> rar_given_up hw rar v then (0, 0) else rar_image hw j)"
    and "hw_removed hw' = hw_removed hw" and "mac hw' = mac hw" and "addr_ctrl hw' = addr_ctrl hw"
    using 1 assms(1) by (simp_all add: eq clear_rar_regs_effect)
qed

lemma clear_rar_effect:
  assumes "\<not> hw_removed hw" "index < num_rar_entries (mac hw)"
    and "ixgbe_clear_rar_generic hw index = (st, hw')"
  shows "st = IXGBE_SUCCESS"
    and "p < 64 \<Longrightarrow> rar_pool hw' j p \<longleftrightarrow> rar_pool hw j p \<and> j \<noteq> unat index"
    and "rar_valid hw' j \<longleftrightarrow> rar_valid hw j \<and> j \<noteq> unat index"
    and "rar_image hw' j = (if j = unat index then (0, 0) else rar_image hw j)"
    and "hw_removed hw' = hw_removed hw" and "mac hw' = mac hw" and "addr_ctrl hw' = addr_ctrl hw"
proof -
  let ?h = "clear_rar_regs hw (unat index)"
  note c = clear_rar_regs_effect [OF assms(1), of "unat index"]
  obtain st1 hw1 where v: "ixgbe_clear_vmdq_generic ?h index IXGBE_CLEAR_VMDQ_ALL = (st1, hw1)"
    by fastforce
  note e = clear_vmdq_effect [OF _ _ _ v]
  have hw': "st = IXGBE_SUCCESS" "hw' = hw1"
    using assms(2,3) v by (auto simp: clear_rar_unfold)
  show "st = IXGBE_SUCCESS" by (rule hw')
  show "p < 64 \<Longrightarrow> rar_pool hw' j p \<longleftrightarrow> rar_pool hw j p \<and> j \<noteq> unat index"
    and "rar_valid hw' j \<longleftrightarrow> rar_valid hw j \<and> j \<noteq> unat index"
    and "rar_image hw' j = (if j = unat index then (0, 0) else rar_image hw j)"
    and "hw_removed hw' = hw_removed hw" and "mac hw' = mac hw" and "addr_ctrl hw' = addr_ctrl hw"
    using e assms(1,2) c by (auto simp: hw' pool_left_def)
qed

text \<open>One iteration of the search, in terms of the entries.\<close>

lemma rar_search_step:
  "rar_search hw lo hi rar fe =
     (if rar < rar_highwater (mac hw) then
        if \<not> rar_valid hw (unat rar) \<and> fe = None then rar_search hw lo hi (rar + 1) (Some rar)
        else if rar_image hw (unat rar) = (lo, hi) then (rar, fe)
        else rar_search hw lo hi (rar + 1) fe
      else (rar, fe))"
  by (subst rar_search.simps) (simp add: rah_av_test rar_valid_def rar_image_def Let_def)

lemma rar_search_spec:
  assumes "rar_search hw lo hi rar fe = (r, fe')" "rar \<le> rar_highwater (mac hw)"
  shows "rar \<le> r \<and> r \<le> rar_highwater (mac hw) \<and>
    (r < rar_highwater (mac hw) \<longrightarrow> rar_image hw (unat r) = (lo, hi)) \<and>
    (\<forall>k. unat rar \<le> k \<and> k < unat r \<and> rar_image hw k = (lo, hi) \<longrightarrow> \<not> rar_valid hw k) \<and>
    (fe \<noteq> None \<longrightarrow> fe' = fe) \<and>
    (fe' = None \<longrightarrow> (\<forall>k. unat rar \<le> k \<and> k < unat r \<longrightarrow> rar_valid hw k)) \<and>
    (\<forall>e. fe = None \<and> fe' = Some e \<longrightarrow> e < r \<and> \<not> rar_valid hw (unat e))"
  using assms
proof (induction "unat (rar_highwater (mac hw)) - unat rar" arbitrary: rar fe)
  case 0
  then have "\<not> rar < rar_highwater (mac hw)"
    by (simp add: word_less_nat_alt)
  with 0 show ?case by (auto simp: rar_search_step [of hw lo hi rar])
next
  case (Suc n)
  then have lt: "rar < rar_highwater (mac hw)"
    by (simp add: word_less_nat_alt)
  have succ: "unat (rar + 1) = Suc (unat rar)" by (rule unat_plus_1 [OF lt])
  then have le: "rar + 1 \<le> rar_highwater (mac hw)" and n: "n = unat (rar_highwater (mac hw)) - unat (rar + 1)"
    using lt Suc.hyps(2) by (simp_all add: word_le_nat_alt word_less_nat_alt)
  note IH = Suc.hyps(1) [OF n _ le]
  have next_le: "rar \<le> r" if "rar + 1 \<le> r"
    using that succ by (simp add: word_le_nat_alt)
  have split_k: "k = unat rar \<or> unat (rar + 1) \<le> k" if "unat rar \<le> k" for k
    using that succ by linarith
  have lt_r: "rar < r" if "rar + 1 \<le> r"
    using that succ by (simp add: word_le_nat_alt word_less_nat_alt)
  show ?case
  proof (cases "\<not> rar_valid hw (unat rar) \<and> fe = None")
    case True
    with Suc.prems lt have "rar_search hw lo hi (rar + 1) (Some rar) = (r, fe')"
      by (simp add: rar_search_step [of hw lo hi rar])
    from IH [OF this] True next_le split_k lt_r show ?thesis by auto
  next
    case F: False
    show ?thesis
    proof (cases "rar_image hw (unat rar) = (lo, hi)")
      case True
      with Suc.prems lt F show ?thesis by (auto simp: rar_search_step [of hw lo hi rar])
    next
      case False
      with Suc.prems lt F have "rar_search hw lo hi (rar + 1) fe = (r, fe')"
        by (auto simp: rar_search_step [of hw lo hi rar])
      from IH [OF this] False F next_le split_k lt_r show ?thesis by (metis option.distinct(1))
    qed
  qed
qed

section \<open>Insertion\<close>

text \<open>
  The invariant that \<open>ixgbe_insert_mac_addr_generic\<close> relies on and keeps: the high-water mark is
  within the table, no entry at or above it is valid, an invalid entry below it is zeroed, and no
  address is held twice.
\<close>

definition rar_inv :: "ixgbe_hw \<Rightarrow> bool" where
  "rar_inv hw \<longleftrightarrow>
     (let top = unat (rar_highwater (mac hw)); n = unat (num_rar_entries (mac hw)) in
      top \<le> n \<and>
      (\<forall>i < n. if top \<le> i then \<not> rar_valid hw i else rar_valid hw i \<or> rar_image hw i = (0, 0)) \<and>
      (\<forall>i < n. \<forall>j < n. rar_valid hw i \<and> rar_valid hw j \<and> rar_image hw i = rar_image hw j \<longrightarrow> i = j))"

text \<open>There is an entry to use: one above the mark, an empty one below it, or the address itself.\<close>

definition rar_room :: "ixgbe_hw \<Rightarrow> u8 list \<Rightarrow> bool" where
  "rar_room hw addr \<longleftrightarrow>
     rar_highwater (mac hw) < num_rar_entries (mac hw) \<or>
     (\<exists>i < unat (rar_highwater (mac hw)). \<not> rar_valid hw i \<or> rar_holds hw i addr)"

lemma zero_image: "length a = 6 \<Longrightarrow> (addr_low a, addr_high a) = (0, 0) \<Longrightarrow> a = [0, 0, 0, 0, 0, 0]"
  using addr_image_inject [of a "[0, 0, 0, 0, 0, 0]"] by (simp add: addr_low_def addr_high_def)

lemma rar_views_mac_update [simp]:
  "rar_valid (hw\<lparr>mac := m\<rparr>) = rar_valid hw" "rar_image (hw\<lparr>mac := m\<rparr>) = rar_image hw"
  "rar_pool (hw\<lparr>mac := m\<rparr>) = rar_pool hw"
  "rar_valid (hw\<lparr>addr_ctrl := c\<rparr>) = rar_valid hw" "rar_image (hw\<lparr>addr_ctrl := c\<rparr>) = rar_image hw"
  "rar_pool (hw\<lparr>addr_ctrl := c\<rparr>) = rar_pool hw"
  by (simp_all add: rar_defs fun_eq_iff)

text \<open>The last step of the insertion: RAR 0 never delivers to pool 0.\<close>

lemma insert_finish:
  assumes "\<not> hw_removed hw" "r < num_rar_entries (mac hw)"
    and "hw' = (if r = 0 then snd (ixgbe_clear_vmdq_generic hw r 0) else hw)"
  shows "rar_valid hw' j = rar_valid hw j" "rar_image hw' j = rar_image hw j"
    and "p < 64 \<Longrightarrow> rar_pool hw' j p \<longleftrightarrow> rar_pool hw j p \<and> \<not> (j = 0 \<and> r = 0 \<and> p = 0)"
    and "mac hw' = mac hw" "addr_ctrl hw' = addr_ctrl hw" "hw_removed hw' = hw_removed hw"
proof -
  obtain st1 hw1 where 1: "ixgbe_clear_vmdq_generic hw r 0 = (st1, hw1)" by fastforce
  note e = clear_vmdq_effect [OF assms(1,2) _ 1]
  show "rar_valid hw' j = rar_valid hw j" "rar_image hw' j = rar_image hw j"
    and "p < 64 \<Longrightarrow> rar_pool hw' j p \<longleftrightarrow> rar_pool hw j p \<and> \<not> (j = 0 \<and> r = 0 \<and> p = 0)"
    and "mac hw' = mac hw" "addr_ctrl hw' = addr_ctrl hw" "hw_removed hw' = hw_removed hw"
    using e 1 assms(3) by (auto simp: rar_given_up_def pool_left_def split: if_splits)
qed

text \<open>What the insertion of \<open>addr\<close> at entry \<open>r\<close> must do to the table.\<close>

definition rar_inserted :: "ixgbe_hw \<Rightarrow> ixgbe_hw \<Rightarrow> u32 \<Rightarrow> u8 list \<Rightarrow> u32 \<Rightarrow> bool" where
  "rar_inserted hw hw' r addr vmdq \<longleftrightarrow>
     r < num_rar_entries (mac hw) \<and> rar_holds hw' (unat r) addr \<and>
     (\<forall>p < 64. rar_pool hw' (unat r) p \<longleftrightarrow>
        (rar_pool hw (unat r) p \<or> p = unat vmdq) \<and> \<not> (r = 0 \<and> p = 0)) \<and>
     (\<forall>j. j \<noteq> unat r \<longrightarrow> rar_valid hw' j = rar_valid hw j \<and> rar_image hw' j = rar_image hw j \<and>
        (\<forall>p < 64. rar_pool hw' j p = rar_pool hw j p))"

lemma insert_into_entry:
  assumes "\<not> hw_removed hw" "r < num_rar_entries (mac hw)" "vmdq < 64"
    and "hw1 = snd (ixgbe_set_rar_generic hw r addr vmdq IXGBE_RAH_AV)"
    and "hw2 = (if grow then hw1\<lparr>mac := (mac hw1)\<lparr>rar_highwater := rar_highwater (mac hw1) + 1\<rparr>\<rparr> else hw1)"
    and "hw' = (if r = 0 then snd (ixgbe_clear_vmdq_generic hw2 r 0) else hw2)"
  shows "rar_inserted hw hw' r addr vmdq"
    and "mac hw' = (if grow then (mac hw)\<lparr>rar_highwater := rar_highwater (mac hw) + 1\<rparr> else mac hw)"
proof -
  obtain st where 1: "ixgbe_set_rar_generic hw r addr vmdq IXGBE_RAH_AV = (st, hw1)"
    using assms(4) by (metis prod.collapse)
  note e = set_rar_effect [OF assms(1-3) 1]
  have 2: "\<not> hw_removed hw2" "r < num_rar_entries (mac hw2)"
    using e assms(1,2,5) by simp_all
  note f = insert_finish [OF 2 assms(6)]
  have g: "rar_valid hw2 = rar_valid hw1" "rar_image hw2 = rar_image hw1" "rar_pool hw2 = rar_pool hw1"
    using assms(5) by simp_all
  show "rar_inserted hw hw' r addr vmdq"
    using assms(2) e f g by (auto simp: rar_inserted_def rar_holds_def unat_eq_0)
  show "mac hw' = (if grow then (mac hw)\<lparr>rar_highwater := rar_highwater (mac hw) + 1\<rparr> else mac hw)"
    using e f assms(5) by simp
qed

lemma insert_found:
  assumes "\<not> hw_removed hw" "r < num_rar_entries (mac hw)" "vmdq < 64" "rar_holds hw (unat r) addr"
    and "hw1 = snd (ixgbe_set_vmdq_generic hw r vmdq)"
    and "hw' = (if r = 0 then snd (ixgbe_clear_vmdq_generic hw1 r 0) else hw1)"
  shows "rar_inserted hw hw' r addr vmdq" and "mac hw' = mac hw"
proof -
  obtain st where 1: "ixgbe_set_vmdq_generic hw r vmdq = (st, hw1)"
    using assms(5) by (metis prod.collapse)
  note e = set_vmdq_effect [OF assms(1-3) 1]
  have 2: "\<not> hw_removed hw1" "r < num_rar_entries (mac hw1)"
    using e assms(1,2) by simp_all
  note f = insert_finish [OF 2 assms(6)]
  show "rar_inserted hw hw' r addr vmdq" and "mac hw' = mac hw"
    using assms(2,4) e f by (auto simp: rar_inserted_def rar_holds_def unat_eq_0)
qed

lemma rar_inv_inserted:
  assumes "rar_inv hw" "rar_inserted hw hw' r addr vmdq"
    and "\<forall>i < unat (num_rar_entries (mac hw)). rar_holds hw i addr \<longrightarrow> i = unat r"
    and "num_rar_entries (mac hw') = num_rar_entries (mac hw)"
    and "unat (rar_highwater (mac hw')) = max (unat (rar_highwater (mac hw))) (Suc (unat r))"
    and "unat r \<le> unat (rar_highwater (mac hw))"
  shows "rar_inv hw'"
proof -
  let ?n = "unat (num_rar_entries (mac hw))"
  have r: "unat r < ?n" and at_r: "rar_valid hw' (unat r)" "rar_image hw' (unat r) = (addr_low addr, addr_high addr)"
    and off: "\<And>j. j \<noteq> unat r \<Longrightarrow> rar_valid hw' j = rar_valid hw j \<and> rar_image hw' j = rar_image hw j"
    using assms(2) by (auto simp: rar_inserted_def rar_holds_def word_less_nat_alt)
  have "i = j" if "i < ?n" "j < ?n" "rar_valid hw' i" "rar_valid hw' j" "rar_image hw' i = rar_image hw' j" for i j
  proof (cases "i = unat r \<or> j = unat r")
    case True
    then show ?thesis using that assms(3) at_r off by (metis rar_holds_def)
  next
    case False
    then show ?thesis using that assms(1) off by (auto simp: rar_inv_def Let_def)
  qed
  moreover have "if unat (rar_highwater (mac hw')) \<le> i then \<not> rar_valid hw' i
      else rar_valid hw' i \<or> rar_image hw' i = (0, 0)" if "i < ?n" for i
    using that assms(1,5,6) at_r off [of i] by (cases "i = unat r") (auto simp: rar_inv_def Let_def)
  ultimately show ?thesis
    using assms(1,4,5) r unfolding rar_inv_def Let_def by simp
qed

lemma insert_mac_addr_cases:
  assumes s: "rar_search hw (addr_low addr) (addr_high addr) 0 None = (r, fe)"
  shows "ixgbe_insert_mac_addr_generic hw addr vmdq =
    (if r < rar_highwater (mac hw) then
       let hw1 = snd (ixgbe_set_vmdq_generic hw r vmdq)
       in (Inr r, if r = 0 then snd (ixgbe_clear_vmdq_generic hw1 r 0) else hw1)
     else case fe of
         Some e \<Rightarrow>
           let hw1 = snd (ixgbe_set_rar_generic hw e addr vmdq IXGBE_RAH_AV)
           in (Inr e, if e = 0 then snd (ixgbe_clear_vmdq_generic hw1 e 0) else hw1)
       | None \<Rightarrow>
           let hw1 = snd (ixgbe_set_rar_generic hw r addr vmdq IXGBE_RAH_AV);
               hw2 = hw1\<lparr>mac := (mac hw1)\<lparr>rar_highwater := rar_highwater (mac hw1) + 1\<rparr>\<rparr>
           in (Inr r, if r = 0 then snd (ixgbe_clear_vmdq_generic hw2 r 0) else hw2))"
proof -
  have "r \<le> rar_highwater (mac hw)"
    using rar_search_spec [OF s] by simp
  then have "\<not> r < rar_highwater (mac hw) \<Longrightarrow> r = rar_highwater (mac hw)"
    by simp
  then show ?thesis
    using s by (cases fe) (simp_all add: ixgbe_insert_mac_addr_generic_def Let_def)
qed

text \<open>The search finds the entry that holds the address, if there is one.\<close>

lemma rar_search_unique:
  assumes "rar_inv hw" "addr \<noteq> [0, 0, 0, 0, 0, 0]" "length addr = 6"
    and s: "rar_search hw (addr_low addr) (addr_high addr) 0 None = (r, fe)"
  shows "r < rar_highwater (mac hw) \<Longrightarrow> rar_holds hw (unat r) addr"
    and "i < unat (num_rar_entries (mac hw)) \<Longrightarrow> rar_holds hw i addr \<Longrightarrow> i = unat r"
    and "rar_holds hw i addr \<Longrightarrow> i < unat (num_rar_entries (mac hw)) \<Longrightarrow> r < rar_highwater (mac hw)"
proof -
  note spec = rar_search_spec [OF s]
  note inv = assms(1) [unfolded rar_inv_def Let_def]
  have nz: "(addr_low addr, addr_high addr) \<noteq> (0, 0)"
    using zero_image assms(2,3) by blast
  show held: "rar_holds hw (unat r) addr" if "r < rar_highwater (mac hw)"
  proof -
    have "rar_image hw (unat r) = (addr_low addr, addr_high addr)" using that spec by simp
    moreover have "unat r < unat (num_rar_entries (mac hw))" "unat r < unat (rar_highwater (mac hw))"
      using that inv by (simp_all add: word_less_nat_alt)
    ultimately show ?thesis using inv nz by (metis rar_holds_def not_le)
  qed
  have ge: "unat r \<le> i" and lt: "i < unat (rar_highwater (mac hw))"
    if "i < unat (num_rar_entries (mac hw))" "rar_holds hw i addr" for i
    using that spec inv by (auto simp: rar_holds_def not_le [symmetric])
  show "r < rar_highwater (mac hw)"
    if "rar_holds hw i addr" "i < unat (num_rar_entries (mac hw))"
    using ge [of i] lt [of i] that by (simp add: word_less_nat_alt)
  show "i = unat r" if i: "i < unat (num_rar_entries (mac hw))" "rar_holds hw i addr"
  proof -
    have "unat r < unat (rar_highwater (mac hw))"
      using ge [OF i] lt [OF i] by simp
    then have "rar_holds hw (unat r) addr" "unat r < unat (num_rar_entries (mac hw))"
      using held inv by (auto simp: word_less_nat_alt)
    then show ?thesis using i inv by (auto simp: rar_holds_def)
  qed
qed

lemma rar_room_search:
  assumes "rar_inv hw" "rar_room hw addr" "addr \<noteq> [0, 0, 0, 0, 0, 0]" "length addr = 6"
    and s: "rar_search hw (addr_low addr) (addr_high addr) 0 None = (r, None)"
    and "\<not> r < rar_highwater (mac hw)"
  shows "r = rar_highwater (mac hw)" "r < num_rar_entries (mac hw)"
proof -
  note spec = rar_search_spec [OF s]
  show r: "r = rar_highwater (mac hw)" using spec assms(6) by simp
  have "unat (rar_highwater (mac hw)) \<le> unat (num_rar_entries (mac hw))"
    using assms(1) by (simp add: rar_inv_def Let_def)
  then have "\<not> (\<exists>i < unat (rar_highwater (mac hw)). \<not> rar_valid hw i \<or> rar_holds hw i addr)"
    using spec r rar_search_unique(3) [OF assms(1,3,4) s] assms(6) by fastforce
  then show "r < num_rar_entries (mac hw)"
    using assms(2) r by (auto simp: rar_room_def)
qed

text \<open>
  C12. Inserting a nonzero address for a pool, when the table has an entry for it, returns the index
  of an entry that is inside the table, valid and holds that address; the entry delivers to the
  given pool and to the pools it had (RAR 0 never to pool 0); every other entry is untouched; and
  the table invariant (mark within the table, no address twice, nothing valid above the mark) is
  kept.
\<close>

lemma insert_mac_addr_ok:
  assumes "\<not> hw_removed hw" "rar_inv hw" "rar_room hw addr"
    and "length addr = 6" "addr \<noteq> [0, 0, 0, 0, 0, 0]" "vmdq < 64"
    and "ixgbe_insert_mac_addr_generic hw addr vmdq = (res, hw')"
  shows "\<exists>r. res = Inr r \<and> rar_inserted hw hw' r addr vmdq \<and> rar_inv hw'"
proof -
  obtain r fe where s: "rar_search hw (addr_low addr) (addr_high addr) 0 None = (r, fe)"
    by fastforce
  note spec = rar_search_spec [OF s]
  note uniq = rar_search_unique [OF assms(2,5,4) s]
  note res = insert_mac_addr_cases [OF s, of vmdq, unfolded assms(7) Let_def]
  have top: "unat (rar_highwater (mac hw)) \<le> unat (num_rar_entries (mac hw))"
    using assms(2) by (simp add: rar_inv_def Let_def)
  consider (found) "r < rar_highwater (mac hw)"
    | (empty) e where "\<not> r < rar_highwater (mac hw)" "fe = Some e"
    | (new) "\<not> r < rar_highwater (mac hw)" "fe = None"
    by (cases fe) auto
  then show ?thesis
  proof cases
    case found
    then have n: "r < num_rar_entries (mac hw)" using top by (simp add: word_less_nat_alt)
    have i: "rar_inserted hw hw' r addr vmdq" "mac hw' = mac hw"
      using insert_found [where hw' = hw', OF assms(1) n assms(6) uniq(1) [OF found] refl] res found by simp_all
    have "rar_inv hw'"
      by (rule rar_inv_inserted [OF assms(2) i(1)])
        (use uniq(2) i(2) found in \<open>auto simp: word_less_nat_alt\<close>)
    with i res found show ?thesis by auto
  next
    case (empty e)
    then have e: "e < r" "\<not> rar_valid hw (unat e)" "r = rar_highwater (mac hw)" using spec by auto
    then have n: "e < num_rar_entries (mac hw)" using top by (simp add: word_less_nat_alt)
    have i: "rar_inserted hw hw' e addr vmdq" "mac hw' = mac hw"
      using insert_into_entry [where addr = addr and grow = False and hw' = hw', OF assms(1) n assms(6) refl refl] res empty by (simp_all cong: if_cong)
    have "rar_inv hw'"
      by (rule rar_inv_inserted [OF assms(2) i(1)])
        (use uniq(3) i(2) e empty(1) in \<open>auto simp: word_less_nat_alt\<close>)
    with i res empty show ?thesis by auto
  next
    case new
    note r = rar_room_search [OF assms(2,3,5,4) s [unfolded new(2)] new(1)]
    have i: "rar_inserted hw hw' r addr vmdq"
       "mac hw' = (mac hw)\<lparr>rar_highwater := rar_highwater (mac hw) + 1\<rparr>"
      using insert_into_entry [where addr = addr and grow = True and hw' = hw', OF assms(1) r(2) assms(6) refl refl] res new by (simp_all cong: if_cong)
    have "unat (rar_highwater (mac hw) + 1) = Suc (unat r)"
      using unat_plus_1 [OF r(2)] r(1) by simp
    then have "rar_inv hw'"
      by (intro rar_inv_inserted [OF assms(2) i(1)])
        (use uniq(3) i(2) r new in \<open>auto simp: word_less_nat_alt\<close>)
    with i res new show ?thesis by auto
  qed
qed

section \<open>The list of secondary addresses\<close>

lemma set_rar_frame:
  assumes "r \<notin> {IXGBE_RAL (unat i), IXGBE_RAH (unat i), IXGBE_MPSAR_LO (unat i), IXGBE_MPSAR_HI (unat i)}"
  shows "IXGBE_READ_REG (snd (ixgbe_set_rar_generic hw i addr v en)) r = IXGBE_READ_REG hw r"
  using assms
  by (auto simp: ixgbe_set_rar_generic_def ixgbe_set_vmdq_generic_def Let_def)

lemma clear_rars_regs:
  assumes "\<not> hw_removed hw"
  shows "hw_removed (clear_rars m n hw) = hw_removed hw" "mac (clear_rars m n hw) = mac hw"
    and "addr_ctrl (clear_rars m n hw) = addr_ctrl hw"
    and "IXGBE_READ_REG (clear_rars m n hw) r =
      (if r \<in> IXGBE_RAL ` {m..<n} \<union> IXGBE_RAH ` {m..<n} then 0 else IXGBE_READ_REG hw r)"
proof -
  show f: "hw_removed (clear_rars m n hw) = hw_removed hw" "mac (clear_rars m n hw) = mac hw"
    "addr_ctrl (clear_rars m n hw) = addr_ctrl hw" for n
    unfolding clear_rars_def by (rule for_upto_frame; simp)+
  show "IXGBE_READ_REG (clear_rars m n hw) r =
      (if r \<in> IXGBE_RAL ` {m..<n} \<union> IXGBE_RAH ` {m..<n} then 0 else IXGBE_READ_REG hw r)"
    using assms f(1) by (induction n) (auto simp: clear_rars_def atLeastLessThanSuc)
qed

lemma clear_rars_effect:
  assumes "\<not> hw_removed hw"
  shows "rar_valid (clear_rars m n hw) j \<longleftrightarrow> rar_valid hw j \<and> \<not> (m \<le> j \<and> j < n)"
    and "rar_image (clear_rars m n hw) j = (if m \<le> j \<and> j < n then (0, 0) else rar_image hw j)"
    and "rar_pool (clear_rars m n hw) = rar_pool hw"
  using assms by (auto simp: rar_defs fun_eq_iff clear_rars_regs)

lemma add_uc_addr_effect:
  assumes "\<not> hw_removed hw" "v < 64" "hw' = ixgbe_add_uc_addr hw a v"
    and "unat (rar_used_count (addr_ctrl hw)) = u" "unat (num_rar_entries (mac hw)) = n"
  shows "hw_removed hw' = hw_removed hw" "mac hw' = mac hw"
    and "u < n \<Longrightarrow> unat (rar_used_count (addr_ctrl hw')) = Suc u \<and>
      overflow_promisc (addr_ctrl hw') = overflow_promisc (addr_ctrl hw)"
    and "n \<le> u \<Longrightarrow> hw' = hw\<lparr>addr_ctrl := (addr_ctrl hw)
      \<lparr>overflow_promisc := overflow_promisc (addr_ctrl hw) + 1\<rparr>\<rparr>"
    and "rar_valid hw' j \<longleftrightarrow> rar_valid hw j \<or> (j = u \<and> u < n)"
    and "rar_image hw' j = (if j = u \<and> u < n then (addr_low a, addr_high a) else rar_image hw j)"
    and "rar_pool hw' j p \<longleftrightarrow> rar_pool hw j p \<or> (j = u \<and> u < n \<and> p = unat v)"
    and "user_set_promisc (addr_ctrl hw') = user_set_promisc (addr_ctrl hw)"
    and "IXGBE_READ_REG hw' IXGBE_FCTRL = IXGBE_READ_REG hw IXGBE_FCTRL"
proof -
  let ?u = "rar_used_count (addr_ctrl hw)"
  obtain st hw1 where 1: "ixgbe_set_rar_generic hw ?u a v IXGBE_RAH_AV = (st, hw1)" by fastforce
  note e = set_rar_effect [OF assms(1) _ assms(2) 1]
  have c: "?u < num_rar_entries (mac hw) \<longleftrightarrow> u < n" using assms(4,5) by (simp add: word_less_nat_alt)
  have s: "u < n \<Longrightarrow> unat (?u + 1) = Suc u"
    using unat_plus_1 [of ?u "num_rar_entries (mac hw)"] assms(4) c by simp
  have f: "IXGBE_READ_REG hw1 IXGBE_FCTRL = IXGBE_READ_REG hw IXGBE_FCTRL"
    using set_rar_frame [of IXGBE_FCTRL ?u hw a v IXGBE_RAH_AV] 1 by simp
  have eq: "hw' = (if u < n then hw1\<lparr>addr_ctrl := (addr_ctrl hw1)
        \<lparr>rar_used_count := rar_used_count (addr_ctrl hw1) + 1\<rparr>\<rparr>
      else hw\<lparr>addr_ctrl := (addr_ctrl hw)\<lparr>overflow_promisc := overflow_promisc (addr_ctrl hw) + 1\<rparr>\<rparr>)"
    using assms(3) 1 c by (simp add: ixgbe_add_uc_addr_def Let_def)
  show "hw_removed hw' = hw_removed hw" "mac hw' = mac hw"
    and "u < n \<Longrightarrow> unat (rar_used_count (addr_ctrl hw')) = Suc u \<and>
      overflow_promisc (addr_ctrl hw') = overflow_promisc (addr_ctrl hw)"
    and "n \<le> u \<Longrightarrow> hw' = hw\<lparr>addr_ctrl := (addr_ctrl hw)
      \<lparr>overflow_promisc := overflow_promisc (addr_ctrl hw) + 1\<rparr>\<rparr>"
    and "rar_valid hw' j \<longleftrightarrow> rar_valid hw j \<or> (j = u \<and> u < n)"
    and "rar_image hw' j = (if j = u \<and> u < n then (addr_low a, addr_high a) else rar_image hw j)"
    and "rar_pool hw' j p \<longleftrightarrow> rar_pool hw j p \<or> (j = u \<and> u < n \<and> p = unat v)"
    and "user_set_promisc (addr_ctrl hw') = user_set_promisc (addr_ctrl hw)"
    and "IXGBE_READ_REG hw' IXGBE_FCTRL = IXGBE_READ_REG hw IXGBE_FCTRL"
    using e f s c assms(4) by (auto simp: eq READ_REG_update)
qed

lemma add_uc_addrs_effect:
  assumes "\<not> hw_removed hw" "\<forall>(a, v) \<in> set addrs. v < 64"
    and "hw' = fold (\<lambda>(addr, vmdq) hw. ixgbe_add_uc_addr hw addr vmdq) addrs hw"
    and "unat (rar_used_count (addr_ctrl hw)) = u" "unat (num_rar_entries (mac hw)) = n" "u \<le> n"
  shows "hw_removed hw' = hw_removed hw \<and> mac hw' = mac hw \<and>
    user_set_promisc (addr_ctrl hw') = user_set_promisc (addr_ctrl hw) \<and>
    IXGBE_READ_REG hw' IXGBE_FCTRL = IXGBE_READ_REG hw IXGBE_FCTRL \<and>
    unat (rar_used_count (addr_ctrl hw')) = min n (u + length addrs) \<and>
    overflow_promisc (addr_ctrl hw') = overflow_promisc (addr_ctrl hw) + of_nat (u + length addrs - n) \<and>
    (\<forall>j. if u \<le> j \<and> j < min n (u + length addrs)
       then rar_holds hw' j (fst (addrs ! (j - u)))
       else rar_valid hw' j = rar_valid hw j \<and> rar_image hw' j = rar_image hw j) \<and>
    (\<forall>j p. rar_pool hw' j p \<longleftrightarrow> rar_pool hw j p \<or>
       (u \<le> j \<and> j < min n (u + length addrs) \<and> p = unat (snd (addrs ! (j - u)))))"
  using assms
proof (induction addrs arbitrary: hw u)
  case Nil
  then show ?case by auto
next
  case (Cons av addrs)
  obtain a v where av: "av = (a, v)" by fastforce
  let ?h = "ixgbe_add_uc_addr hw a v"
  have v: "v < 64" using Cons.prems(2) av by simp
  note e = add_uc_addr_effect [where a = a, OF Cons.prems(1) v refl Cons.prems(4,5)]
  have nr: "\<not> hw_removed ?h" and n: "unat (num_rar_entries (mac ?h)) = n"
    using e(1,2) Cons.prems(1,5) by simp_all
  have fold: "hw' = fold (\<lambda>(addr, vmdq) hw. ixgbe_add_uc_addr hw addr vmdq) addrs ?h"
    using Cons.prems(3) av by simp
  show ?case
  proof (cases "u < n")
    case True
    have IH: "Suc u \<le> n" "unat (rar_used_count (addr_ctrl ?h)) = Suc u" using True e(3) by simp_all
    note ih = Cons.IH [OF nr _ fold IH(2) n IH(1)]
    have nth: "j \<noteq> u \<Longrightarrow> u \<le> j \<Longrightarrow> (av # addrs) ! (j - u) = addrs ! (j - Suc u)" for j
      by (simp add: nth_Cons')
    have entries: "if u \<le> j \<and> j < min n (u + length (av # addrs))
       then rar_holds hw' j (fst ((av # addrs) ! (j - u)))
       else rar_valid hw' j = rar_valid hw j \<and> rar_image hw' j = rar_image hw j" for j
      using ih Cons.prems(2) True e(5,6) [of j] nth [of j] av
      by (cases "j = u") (auto simp: rar_holds_def Suc_le_eq split: if_splits)
    have pools: "rar_pool hw' j p \<longleftrightarrow> rar_pool hw j p \<or>
       (u \<le> j \<and> j < min n (u + length (av # addrs)) \<and> p = unat (snd ((av # addrs) ! (j - u))))" for j p
      using ih Cons.prems(2) True e(7) [of j p] nth [of j] av
      by (cases "j = u") (auto simp: Suc_le_eq)
    show ?thesis using ih Cons.prems(2) entries pools True e by simp
  next
    case False
    then have u: "u = n" and eq: "?h = hw\<lparr>addr_ctrl := (addr_ctrl hw)
      \<lparr>overflow_promisc := overflow_promisc (addr_ctrl hw) + 1\<rparr>\<rparr>"
      using Cons.prems(6) e(4) by simp_all
    have "unat (rar_used_count (addr_ctrl ?h)) = u" using eq Cons.prems(4) by simp
    from Cons.IH [OF nr _ fold this n Cons.prems(6)] Cons.prems(2) show ?thesis
      using u eq by (simp add: algebra_simps) auto
  qed
qed

text \<open>What \<open>ixgbe_update_uc_addr_list_generic\<close> must leave behind: the primary entry, then the
  addresses of the list as far as they fit.\<close>

definition uc_fits :: "ixgbe_hw \<Rightarrow> (u8 list \<times> u32) list \<Rightarrow> nat" where
  "uc_fits hw addrs = min (unat (num_rar_entries (mac hw))) (1 + length addrs)"

lemma fctrl_upe_eq: "IXGBE_FCTRL_UPE = BIT 9"
  by (simp add: BIT_def)

lemma update_uc_addr_list_effect:
  assumes "\<not> hw_removed hw" "\<forall>(a, v) \<in> set addrs. v < 64"
    and "0 < rar_used_count (addr_ctrl hw)" "rar_used_count (addr_ctrl hw) \<le> num_rar_entries (mac hw)"
    and "length addrs < 2 ^ 32"
    and "ixgbe_update_uc_addr_list_generic hw addrs = (st, hw')"
  shows "st = IXGBE_SUCCESS"
    and "unat (rar_used_count (addr_ctrl hw')) = uc_fits hw addrs"
    and "overflow_promisc (addr_ctrl hw') = 0 \<longleftrightarrow> uc_fits hw addrs = 1 + length addrs"
    and "0 < j \<Longrightarrow> j < uc_fits hw addrs \<Longrightarrow> rar_holds hw' j (fst (addrs ! (j - 1)))"
    and "uc_fits hw addrs \<le> j \<Longrightarrow> j < unat (rar_used_count (addr_ctrl hw)) \<Longrightarrow> \<not> rar_valid hw' j"
    and "j = 0 \<or> uc_fits hw addrs \<le> j \<and> unat (rar_used_count (addr_ctrl hw)) \<le> j \<Longrightarrow>
      rar_valid hw' j = rar_valid hw j \<and> rar_image hw' j = rar_image hw j"
    and "rar_pool hw' j p \<longleftrightarrow> rar_pool hw j p \<or>
       (0 < j \<and> j < uc_fits hw addrs \<and> p = unat (snd (addrs ! (j - 1))))"
    and "user_set_promisc (addr_ctrl hw) \<Longrightarrow> IXGBE_READ_REG hw' IXGBE_FCTRL = IXGBE_READ_REG hw IXGBE_FCTRL"
    and "\<not> user_set_promisc (addr_ctrl hw) \<Longrightarrow>
      bit (IXGBE_READ_REG hw IXGBE_FCTRL) 9 = (overflow_promisc (addr_ctrl hw) \<noteq> 0) \<Longrightarrow>
      bit (IXGBE_READ_REG hw' IXGBE_FCTRL) 9 = (overflow_promisc (addr_ctrl hw') \<noteq> 0)"
proof -
  let ?u = "rar_used_count (addr_ctrl hw)"
  let ?n = "unat (num_rar_entries (mac hw))"
  define hw0 where "hw0 = hw\<lparr>addr_ctrl := (addr_ctrl hw)\<lparr>rar_used_count := ?u - (?u - 1), overflow_promisc := 0\<rparr>\<rparr>"
  define hw1 where "hw1 = clear_rars 1 (1 + unat (?u - 1)) hw0"
  define hw2 where "hw2 = fold (\<lambda>(addr, vmdq) hw. ixgbe_add_uc_addr hw addr vmdq) addrs hw1"
  have u: "1 + unat (?u - 1) = unat ?u" "0 < unat ?u" "unat ?u \<le> ?n"
    using assms(3,4) by (simp_all add: unat_minus_one word_gt_0 word_le_nat_alt unat_gt_0)
  have 0: "\<not> hw_removed hw0" using assms(1) by (simp add: hw0_def)
  note c = clear_rars_regs [OF 0, of 1 "1 + unat (?u - 1)"] clear_rars_effect [OF 0, of 1 "1 + unat (?u - 1)"]
  have 1: "\<not> hw_removed hw1" "unat (rar_used_count (addr_ctrl hw1)) = 1" "unat (num_rar_entries (mac hw1)) = ?n"
    "overflow_promisc (addr_ctrl hw1) = 0" "user_set_promisc (addr_ctrl hw1) = user_set_promisc (addr_ctrl hw)"
    "IXGBE_READ_REG hw1 IXGBE_FCTRL = IXGBE_READ_REG hw IXGBE_FCTRL"
    using c assms(1) by (auto simp: hw1_def hw0_def)
  have "1 \<le> ?n" using u by linarith
  note f = add_uc_addrs_effect [OF 1(1) assms(2) hw2_def 1(2,3) this]
  have mac2: "mac hw2 = mac hw" using f c(2) by (simp add: hw1_def hw0_def)
  have ovf: "overflow_promisc (addr_ctrl hw2) = 0 \<longleftrightarrow> uc_fits hw addrs = 1 + length addrs"
    using f 1(4) assms(5) u word_of_nat_0_small [of "1 + length addrs - ?n"]
    by (auto simp: uc_fits_def)
  define fctrl where "fctrl = IXGBE_READ_REG hw2 IXGBE_FCTRL"
  define hwx where "hwx = (if user_set_promisc (addr_ctrl hw2) then hw2
     else if overflow_promisc (addr_ctrl hw2) \<noteq> 0 \<and> overflow_promisc (addr_ctrl hw) = 0
     then IXGBE_WRITE_REG hw2 IXGBE_FCTRL (fctrl OR BIT 9)
     else if overflow_promisc (addr_ctrl hw2) = 0 \<and> overflow_promisc (addr_ctrl hw) \<noteq> 0
     then IXGBE_WRITE_REG hw2 IXGBE_FCTRL (fctrl AND NOT (BIT 9)) else hw2)"
  have eq: "st = IXGBE_SUCCESS" "hw' = hwx"
    using assms(6) unfolding ixgbe_update_uc_addr_list_generic_def Let_def hw0_def [symmetric]
      hw1_def [symmetric] hw2_def [symmetric] fctrl_def [symmetric] fctrl_upe_eq
    by (auto simp: hwx_def split: if_splits)
  have same: "addr_ctrl hwx = addr_ctrl hw2" "rar_valid hwx = rar_valid hw2" "rar_image hwx = rar_image hw2"
    "rar_pool hwx = rar_pool hw2"
    by (auto simp: hwx_def rar_defs fun_eq_iff)
  have fc: "IXGBE_READ_REG hwx IXGBE_FCTRL = (if user_set_promisc (addr_ctrl hw) then IXGBE_READ_REG hw IXGBE_FCTRL
     else if overflow_promisc (addr_ctrl hw2) \<noteq> 0 \<and> overflow_promisc (addr_ctrl hw) = 0 then fctrl OR BIT 9
     else if overflow_promisc (addr_ctrl hw2) = 0 \<and> overflow_promisc (addr_ctrl hw) \<noteq> 0
     then fctrl AND NOT (BIT 9) else fctrl)" "fctrl = IXGBE_READ_REG hw IXGBE_FCTRL"
    using f 1 by (auto simp: hwx_def fctrl_def)
  have at1: "rar_valid hw1 j \<longleftrightarrow> rar_valid hw j \<and> \<not> (1 \<le> j \<and> j < unat ?u)"
    "rar_image hw1 j = (if 1 \<le> j \<and> j < unat ?u then (0, 0) else rar_image hw j)"
    "rar_pool hw1 j p = rar_pool hw j p" for j p
    using c(5-7) u(1) by (simp_all add: hw1_def hw0_def)
  have at2: "if 1 \<le> j \<and> j < uc_fits hw addrs then rar_holds hw2 j (fst (addrs ! (j - 1)))
      else rar_valid hw2 j = rar_valid hw1 j \<and> rar_image hw2 j = rar_image hw1 j"
    "rar_pool hw2 j p \<longleftrightarrow> rar_pool hw1 j p \<or> (1 \<le> j \<and> j < uc_fits hw addrs \<and> p = unat (snd (addrs ! (j - 1))))"
    for j p
    using f unfolding uc_fits_def by blast+
  have pos: "1 \<le> uc_fits hw addrs" using u by (simp add: uc_fits_def)
  show "st = IXGBE_SUCCESS" by (rule eq)
  show "unat (rar_used_count (addr_ctrl hw')) = uc_fits hw addrs"
    using f by (simp add: eq same uc_fits_def)
  show "overflow_promisc (addr_ctrl hw') = 0 \<longleftrightarrow> uc_fits hw addrs = 1 + length addrs"
    using ovf by (simp add: eq same)
  show "0 < j \<Longrightarrow> j < uc_fits hw addrs \<Longrightarrow> rar_holds hw' j (fst (addrs ! (j - 1)))"
    using at2(1) [of j] by (simp add: eq same rar_holds_def)
  show "uc_fits hw addrs \<le> j \<Longrightarrow> j < unat ?u \<Longrightarrow> \<not> rar_valid hw' j"
    using at2(1) [of j] at1(1) [of j] pos by (auto simp: eq same)
  show "rar_valid hw' j = rar_valid hw j \<and> rar_image hw' j = rar_image hw j"
    if "j = 0 \<or> uc_fits hw addrs \<le> j \<and> unat ?u \<le> j"
  proof -
    have "rar_valid hw2 j = rar_valid hw1 j \<and> rar_image hw2 j = rar_image hw1 j"
      using at2(1) [of j] that by auto
    then show ?thesis using at1(1,2) [of j] that by (auto simp: eq same)
  qed
  show "rar_pool hw' j p \<longleftrightarrow> rar_pool hw j p \<or>
       (0 < j \<and> j < uc_fits hw addrs \<and> p = unat (snd (addrs ! (j - 1))))"
    using at2(2) [of j p] at1(3) [of j p] by (auto simp: eq same)
  show "user_set_promisc (addr_ctrl hw) \<Longrightarrow> IXGBE_READ_REG hw' IXGBE_FCTRL = IXGBE_READ_REG hw IXGBE_FCTRL"
    by (simp add: eq fc)
  show "\<not> user_set_promisc (addr_ctrl hw) \<Longrightarrow>
      bit (IXGBE_READ_REG hw IXGBE_FCTRL) 9 = (overflow_promisc (addr_ctrl hw) \<noteq> 0) \<Longrightarrow>
      bit (IXGBE_READ_REG hw' IXGBE_FCTRL) 9 = (overflow_promisc (addr_ctrl hw') \<noteq> 0)"
    by (auto simp: eq fc same bitw)
qed

lemma insert_mac_addr_ok_witness:
  "rar_inv hw_reset \<and> (\<exists>r. fst (ixgbe_insert_mac_addr_generic hw_reset [0x02, 0, 0, 0, 0, 7] 3) = Inr r \<and>
     rar_inserted hw_reset (snd (ixgbe_insert_mac_addr_generic hw_reset [0x02, 0, 0, 0, 0, 7] 3)) r
       [0x02, 0, 0, 0, 0, 7] 3 \<and>
     rar_inv (snd (ixgbe_insert_mac_addr_generic hw_reset [0x02, 0, 0, 0, 0, 7] 3)))"
proof -
  have inv: "rar_inv hw_reset" by (simp add: rar_inv_def Let_def rar_valid_def rar_image_def)
  have room: "rar_room hw_reset [0x02, 0, 0, 0, 0, 7]" by (simp add: rar_room_def)
  show ?thesis
    using inv insert_mac_addr_ok [OF hw_reset_simps(1) inv room, of 3] by simp
qed

text \<open>
  C36. With every entry taken by other addresses, insertion does not report an error: the address
  is written nowhere, the high-water mark moves past the end of the table, and the index one past
  the last entry is returned as if the address had been placed there.
\<close>

lemma insert_mac_addr_full:
  assumes "length addr = 6" "addr \<noteq> [0, 0, 0, 0, 0, 0]" "rar_inv hw"
    and "rar_highwater (mac hw) = num_rar_entries (mac hw)" "0 < num_rar_entries (mac hw)"
    and "\<forall>i < unat (num_rar_entries (mac hw)). rar_valid hw i \<and> \<not> rar_holds hw i addr"
  shows "ixgbe_insert_mac_addr_generic hw addr vmdq =
    (Inr (num_rar_entries (mac hw)),
     hw\<lparr>mac := (mac hw)\<lparr>rar_highwater := num_rar_entries (mac hw) + 1\<rparr>\<rparr>)"
proof -
  obtain r fe where s: "rar_search hw (addr_low addr) (addr_high addr) 0 None = (r, fe)" by fastforce
  note spec = rar_search_spec [OF s]
  have r: "\<not> r < rar_highwater (mac hw)"
    using rar_search_unique(1) [OF assms(3,2,1) s] assms(4,6) by (auto simp: word_less_nat_alt)
  then have top: "r = num_rar_entries (mac hw)" using spec assms(4) by simp
  have "fe = None"
    using spec assms(4,6) top by (cases fe) (auto simp: word_less_nat_alt)
  with r top assms(4,5) show ?thesis
    by (simp add: insert_mac_addr_cases [OF s] ixgbe_set_rar_generic_def word_gt_0)
qed

definition hw_full :: ixgbe_hw where
  "hw_full = hw_reset\<lparr>mac := (mac hw_reset)\<lparr>num_rar_entries := 2, rar_highwater := 2\<rparr>,
     regs := (\<lambda>r. if r = IXGBE_RAH 0 then 0x80000001 else if r = IXGBE_RAH 1 then 0x80000002 else 0)\<rparr>"

lemma less_two_cases: "(i :: nat) < 2 \<longleftrightarrow> i = 0 \<or> i = 1"
  by auto

lemma insert_mac_addr_full_witness:
  "ixgbe_insert_mac_addr_generic hw_full [0x02, 0, 0, 0, 0, 7] 3 =
     (Inr 2, hw_full\<lparr>mac := (mac hw_full)\<lparr>rar_highwater := 3\<rparr>\<rparr>)"
proof -
  have mac: "num_rar_entries (mac hw_full) = 2" "rar_highwater (mac hw_full) = 2" by (simp_all add: hw_full_def)
  have reads: "IXGBE_READ_REG hw_full r = (if r = IXGBE_RAH 0 then 0x80000001 else if r = IXGBE_RAH 1 then 0x80000002 else 0)" for r
    by (simp add: hw_full_def hw_reset_def IXGBE_READ_REG_def IXGBE_REMOVED_def)
  have "rar_inv hw_full"
    by (auto simp: rar_inv_def Let_def mac less_two_cases rar_valid_def rar_image_def reads)
  moreover have "\<forall>i < 2. rar_valid hw_full i \<and> \<not> rar_holds hw_full i [0x02, 0, 0, 0, 0, 7]"
    by (auto simp: less_two_cases rar_defs reads addr_low_def)
  ultimately show ?thesis
    using insert_mac_addr_full [of "[0x02, 0, 0, 0, 0, 7]" hw_full 3] by (simp add: mac)
qed

lemma list6_nth: "length a = 6 \<Longrightarrow> a = [a ! 0, a ! 1, a ! 2, a ! 3, a ! 4, a ! 5]"
  by (auto simp: numeral_eq_Suc length_Suc_conv)

text \<open>
  C40. Reading back RAR 0 after an address was stored there returns exactly the six bytes
  stored, whatever was in the register before and whether or not the entry was enabled.
\<close>

lemma get_set_rar_roundtrip:
  assumes "\<not> hw_removed hw" "0 < num_rar_entries (mac hw)" "vmdq < 64" "length addr = 6"
  shows "ixgbe_get_mac_addr_generic (snd (ixgbe_set_rar_generic hw 0 addr vmdq enable_addr)) = addr"
proof -
  obtain st hw' where 1: "ixgbe_set_rar_generic hw 0 addr vmdq enable_addr = (st, hw')" by fastforce
  have "rar_image hw' 0 = (addr_low addr, addr_high addr)"
    using set_rar_effect(4) [OF assms(1-3) 1, of 0] by simp
  then have ral: "IXGBE_READ_REG hw' (IXGBE_RAL 0) = addr_low addr"
    and rah: "IXGBE_READ_REG hw' (IXGBE_RAH 0) AND 0xFFFF = addr_high addr"
    by (simp_all add: rar_image_def)
  have rah_bits: "bit (addr_high addr) n \<longleftrightarrow> bit (IXGBE_READ_REG hw' (IXGBE_RAH 0)) n \<and> n < 16" for n
    unfolding rah [symmetric] by (rule bit_mask16)
  have hi: "ucast (drop_bit k (IXGBE_READ_REG hw' (IXGBE_RAH 0))) = (ucast (drop_bit k (addr_high addr)) :: u8)"
    if "k \<le> 8" for k
    using that by (intro bit_word_eqI) (auto simp: bit_ucast_iff bit_drop_bit_eq rah_bits)
  have "ixgbe_get_mac_addr_generic hw' = [addr ! 0, addr ! 1, addr ! 2, addr ! 3, addr ! 4, addr ! 5]"
    using hi [of 0] hi [of 8]
    by (simp add: ixgbe_get_mac_addr_generic_def ral addr_low_bytes addr_high_bytes upt_rec)
  then show ?thesis
    using 1 list6_nth [OF assms(4)] by simp
qed

lemma get_set_rar_roundtrip_witness:
  "ixgbe_get_mac_addr_generic
     (snd (ixgbe_set_rar_generic hw_reset 0 [0x02, 0, 0, 0, 0, 7] 3 IXGBE_RAH_AV)) = [0x02, 0, 0, 0, 0, 7]"
  using get_set_rar_roundtrip [of hw_reset 3 "[0x02, 0, 0, 0, 0, 7]" IXGBE_RAH_AV] by simp

text \<open>
  C13. The list of secondary addresses replaces the old one: entry \<open>1 + i\<close> holds the \<open>i\<close>-th address
  as far as the table reaches, the entries of a longer old list are invalid, RAR 0 keeps its address.
  Unicast promiscuous mode is on exactly when the list does not fit.  The pools of an entry are the
  new pool together with whatever pools the entry had before: the pool bits of the old list stay.
\<close>

lemma update_uc_addr_list_correct:
  assumes "\<not> hw_removed hw" "\<forall>(a, v) \<in> set addrs. v < 64" "length addrs < 2 ^ 32"
    and "0 < rar_used_count (addr_ctrl hw)" "rar_used_count (addr_ctrl hw) \<le> num_rar_entries (mac hw)"
    and "\<not> user_set_promisc (addr_ctrl hw)"
    and "bit (IXGBE_READ_REG hw IXGBE_FCTRL) 9 \<longleftrightarrow> overflow_promisc (addr_ctrl hw) \<noteq> 0"
    and "ixgbe_update_uc_addr_list_generic hw addrs = (st, hw')"
  shows "st = IXGBE_SUCCESS \<and>
    unat (rar_used_count (addr_ctrl hw')) = uc_fits hw addrs \<and>
    (\<forall>j. 0 < j \<and> j < uc_fits hw addrs \<longrightarrow> rar_holds hw' j (fst (addrs ! (j - 1)))) \<and>
    (\<forall>j. uc_fits hw addrs \<le> j \<and> j < unat (rar_used_count (addr_ctrl hw)) \<longrightarrow> \<not> rar_valid hw' j) \<and>
    rar_valid hw' 0 = rar_valid hw 0 \<and> rar_image hw' 0 = rar_image hw 0 \<and>
    (\<forall>j p. rar_pool hw' j p \<longleftrightarrow> rar_pool hw j p \<or>
       (0 < j \<and> j < uc_fits hw addrs \<and> p = unat (snd (addrs ! (j - 1))))) \<and>
    (bit (IXGBE_READ_REG hw' IXGBE_FCTRL) 9 \<longleftrightarrow> uc_fits hw addrs < 1 + length addrs)"
proof -
  note e = update_uc_addr_list_effect [OF assms(1,2,4,5,3,8)]
  have "bit (IXGBE_READ_REG hw' IXGBE_FCTRL) 9 \<longleftrightarrow> uc_fits hw addrs < 1 + length addrs"
    using e(9) [OF assms(6,7)] e(3) by (auto simp: uc_fits_def)
  moreover have "rar_valid hw' 0 = rar_valid hw 0 \<and> rar_image hw' 0 = rar_image hw 0"
    by (rule e(6)) simp
  ultimately show ?thesis using e(1,2,4,5,7) by blast
qed

lemma update_uc_addr_list_correct_witness:
  "rar_holds (snd (ixgbe_update_uc_addr_list_generic hw_reset [([0x02, 0, 0, 0, 0, 7], 1)])) 1 [0x02, 0, 0, 0, 0, 7]"
  using update_uc_addr_list_correct
    [of hw_reset "[([0x02, 0, 0, 0, 0, 7], 1)]"
        "fst (ixgbe_update_uc_addr_list_generic hw_reset [([0x02, 0, 0, 0, 0, 7], 1)])"
        "snd (ixgbe_update_uc_addr_list_generic hw_reset [([0x02, 0, 0, 0, 0, 7], 1)])"]
  by (simp add: uc_fits_def)

text \<open>
  C15. Taking a pool from an entry removes exactly that pool, and invalidates the entry exactly when
  it was its last pool and the entry is neither RAR 0 nor the one of the SAN address.
\<close>

lemma clear_vmdq_correct:
  assumes "\<not> hw_removed hw" "rar < num_rar_entries (mac hw)" "vmdq < 64"
    and "ixgbe_clear_vmdq_generic hw rar vmdq = (st, hw')"
  shows "st = IXGBE_SUCCESS \<and>
    (\<forall>j p. p < 64 \<longrightarrow> (rar_pool hw' j p \<longleftrightarrow> rar_pool hw j p \<and> \<not> (j = unat rar \<and> p = unat vmdq))) \<and>
    (\<forall>j. rar_valid hw' j \<longleftrightarrow> rar_valid hw j \<and>
       \<not> (j = unat rar \<and> rar \<noteq> 0 \<and> rar \<noteq> ucast (san_mac_rar_index (mac hw)) \<and>
          (\<exists>p < 64. rar_pool hw j p) \<and> (\<forall>p < 64. rar_pool hw j p \<longrightarrow> p = unat vmdq)))"
proof -
  have v: "vmdq \<noteq> IXGBE_CLEAR_VMDQ_ALL" using assms(3) by auto
  note e = clear_vmdq_effect [OF assms(1,2) _ assms(4)]
  show ?thesis
    using e(1,2,3) assms(3) v by (auto simp: pool_left_def rar_given_up_def split: if_splits)
qed

lemma clear_vmdq_correct_witness:
  "rar_pool (snd (ixgbe_set_vmdq_generic hw_reset 5 3)) 5 3 \<and>
   \<not> rar_pool (snd (ixgbe_clear_vmdq_generic (snd (ixgbe_set_vmdq_generic hw_reset 5 3)) 5 3)) 5 3"
proof -
  let ?h = "snd (ixgbe_set_vmdq_generic hw_reset 5 3)"
  have h: "\<not> hw_removed ?h" "num_rar_entries (mac ?h) = 128" "rar_pool ?h 5 3"
    by (simp_all add: ixgbe_set_vmdq_generic_def Let_def rar_pool_def bitw)
  show ?thesis
    using h clear_vmdq_correct [of ?h 5 3 "fst (ixgbe_clear_vmdq_generic ?h 5 3)"
        "snd (ixgbe_clear_vmdq_generic ?h 5 3)"] by simp
qed

section \<open>Initialisation\<close>

lemma rar_views_write:
  assumes "\<forall>i. r \<noteq> IXGBE_RAL i \<and> r \<noteq> IXGBE_RAH i \<and> r \<noteq> IXGBE_MPSAR_LO i \<and> r \<noteq> IXGBE_MPSAR_HI i"
  shows "rar_valid (IXGBE_WRITE_REG hw r v) = rar_valid hw" "rar_image (IXGBE_WRITE_REG hw r v) = rar_image hw"
    "rar_pool (IXGBE_WRITE_REG hw r v) = rar_pool hw"
  using assms by (auto simp: rar_defs fun_eq_iff READ_WRITE_REG_other [OF not_sym])

text \<open>The part of the initialisation that follows the setup of RAR 0.\<close>

definition init_rx_tables :: "ixgbe_hw \<Rightarrow> ixgbe_hw" where
  "init_rx_tables hw =
     (let hw = hw\<lparr>addr_ctrl := (addr_ctrl hw)\<lparr>overflow_promisc := 0, rar_used_count := 1\<rparr>\<rparr>;
          hw = clear_rars 1 (unat (num_rar_entries (mac hw))) hw;
          hw = hw\<lparr>addr_ctrl := (addr_ctrl hw)\<lparr>mta_in_use := 0\<rparr>\<rparr>;
          hw = IXGBE_WRITE_REG hw IXGBE_MCSTCTRL (word_of_int (mc_filter_type (mac hw)));
          hw = for_upto 0 (unat (mcft_size (mac hw)))
                 (\<lambda>i hw. IXGBE_WRITE_REG hw (IXGBE_MTA i) 0) hw
      in snd (ixgbe_init_uta_tables_generic hw))"

lemma init_rx_tables_effect:
  assumes "\<not> hw_removed hw"
  shows "rar_valid (init_rx_tables hw) j \<longleftrightarrow> rar_valid hw j \<and> \<not> (0 < j \<and> j < unat (num_rar_entries (mac hw)))"
    and "rar_image (init_rx_tables hw) j =
      (if 0 < j \<and> j < unat (num_rar_entries (mac hw)) then (0, 0) else rar_image hw j)"
    and "rar_pool (init_rx_tables hw) j p = rar_pool hw j p"
    and "mac (init_rx_tables hw) = mac hw" "hw_removed (init_rx_tables hw) = hw_removed hw"
    and "addr_ctrl (init_rx_tables hw) = (addr_ctrl hw)\<lparr>overflow_promisc := 0, rar_used_count := 1, mta_in_use := 0\<rparr>"
    and "i < unat (mcft_size (mac hw)) \<Longrightarrow> IXGBE_READ_REG (init_rx_tables hw) (IXGBE_MTA i) = 0"
    and "i < 128 \<Longrightarrow> IXGBE_READ_REG (init_rx_tables hw) (IXGBE_UTA i) = 0"
  using assms
  by (auto simp: init_rx_tables_def ixgbe_init_uta_tables_generic_def Let_def rar_defs
      clear_rars_regs write_loop_read image_iff)

lemma init_rx_addrs_unfold:
  "ixgbe_init_rx_addrs_generic hw =
     (IXGBE_SUCCESS, init_rx_tables (snd (ixgbe_clear_vmdq_generic
        (if ixgbe_validate_mac_addr (mac_addr (mac hw)) = IXGBE_ERR_INVALID_MAC_ADDR
         then hw\<lparr>mac := (mac hw)\<lparr>mac_addr := ixgbe_get_mac_addr_generic hw\<rparr>\<rparr>
         else snd (ixgbe_set_rar_generic hw 0 (mac_addr (mac hw)) 0 IXGBE_RAH_AV))
        0 IXGBE_CLEAR_VMDQ_ALL)))"
  by (simp add: ixgbe_init_rx_addrs_generic_def init_rx_tables_def Let_def)

text \<open>
  C14. After the receive addresses are initialised, RAR 0 holds the software address when that is
  a valid unicast address and otherwise keeps the address it had, which becomes the software address.
  RAR 0 belongs to no pool, every other entry is invalid and zero, the multicast and unicast hash
  tables are empty, and the use counts start over.
\<close>

lemma init_rx_addrs_correct:
  assumes "\<not> hw_removed hw" "0 < num_rar_entries (mac hw)"
    and "ixgbe_init_rx_addrs_generic hw = (st, hw')"
  shows "st = IXGBE_SUCCESS \<and>
    (if ixgbe_validate_mac_addr (mac_addr (mac hw)) = IXGBE_SUCCESS
     then rar_holds hw' 0 (mac_addr (mac hw)) \<and> mac hw' = mac hw
     else rar_valid hw' 0 = rar_valid hw 0 \<and> rar_image hw' 0 = rar_image hw 0 \<and>
       mac_addr (mac hw') = ixgbe_get_mac_addr_generic hw) \<and>
    (\<forall>p < 64. \<not> rar_pool hw' 0 p) \<and>
    (\<forall>j. 0 < j \<and> j < unat (num_rar_entries (mac hw)) \<longrightarrow> \<not> rar_valid hw' j \<and> rar_image hw' j = (0, 0)) \<and>
    (\<forall>i < unat (mcft_size (mac hw)). IXGBE_READ_REG hw' (IXGBE_MTA i) = 0) \<and>
    (\<forall>i < 128. IXGBE_READ_REG hw' (IXGBE_UTA i) = 0) \<and>
    rar_used_count (addr_ctrl hw') = 1 \<and> overflow_promisc (addr_ctrl hw') = 0 \<and> mta_in_use (addr_ctrl hw') = 0"
proof -
  let ?ok = "ixgbe_validate_mac_addr (mac_addr (mac hw)) = IXGBE_SUCCESS"
  have ok: "ixgbe_validate_mac_addr (mac_addr (mac hw)) = IXGBE_ERR_INVALID_MAC_ADDR \<longleftrightarrow> \<not> ?ok"
    by (auto simp: ixgbe_validate_mac_addr_def)
  define hw1 where "hw1 = (if \<not> ?ok then hw\<lparr>mac := (mac hw)\<lparr>mac_addr := ixgbe_get_mac_addr_generic hw\<rparr>\<rparr>
         else snd (ixgbe_set_rar_generic hw 0 (mac_addr (mac hw)) 0 IXGBE_RAH_AV))"
  obtain st2 hw2 where 2: "ixgbe_clear_vmdq_generic hw1 0 IXGBE_CLEAR_VMDQ_ALL = (st2, hw2)" by fastforce
  have hw': "st = IXGBE_SUCCESS" "hw' = init_rx_tables hw2"
    using assms(3) 2 unfolding init_rx_addrs_unfold ok hw1_def [symmetric] by simp_all
  obtain st1 hws where 1: "ixgbe_set_rar_generic hw 0 (mac_addr (mac hw)) 0 IXGBE_RAH_AV = (st1, hws)" by fastforce
  note s = set_rar_effect [OF assms(1,2) _ 1]
  have m1: "\<not> hw_removed hw1" "mac hw1 = (if ?ok then mac hw else (mac hw)\<lparr>mac_addr := ixgbe_get_mac_addr_generic hw\<rparr>)"
    using s assms(1) 1 by (auto simp: hw1_def)
  have r1: "?ok \<Longrightarrow> rar_holds hw1 0 (mac_addr (mac hw))"
    "\<not> ?ok \<Longrightarrow> rar_valid hw1 0 = rar_valid hw 0 \<and> rar_image hw1 0 = rar_image hw 0"
    using s(3,4) [of 0] 1 by (auto simp: hw1_def rar_holds_def)
  have n1: "0 < num_rar_entries (mac hw1)" using m1 assms(2) by simp
  note c = clear_vmdq_effect [OF m1(1) n1 _ 2]
  have g: "\<not> rar_given_up hw1 0 v" for v by (simp add: rar_given_up_def)
  have 3: "\<not> hw_removed hw2" using c(5) m1 by simp
  note t = init_rx_tables_effect [OF 3]
  have p: "\<not> rar_pool hw2 0 p" if "p < 64" for p
    using c(2) [of p 0] that by (simp add: pool_left_def)
  have r2: "rar_valid hw2 0 = rar_valid hw1 0" "rar_image hw2 0 = rar_image hw1 0" "mac hw2 = mac hw1"
    using c(3,4,6) g by simp_all
  show ?thesis
    using hw' t r1 r2 p m1(2) by (auto simp: rar_holds_def)
qed

lemma init_rx_addrs_correct_witness:
  "rar_holds (snd (ixgbe_init_rx_addrs_generic hw_reset)) 0 [0x02, 0x1B, 0x21, 0x0A, 0x0B, 0x0C]"
proof -
  have a: "mac_addr (mac hw_reset) = [0x02, 0x1B, 0x21, 0x0A, 0x0B, 0x0C]"
    by (simp add: hw_reset_def)
  show ?thesis
    using init_rx_addrs_correct [of hw_reset "fst (ixgbe_init_rx_addrs_generic hw_reset)"
        "snd (ixgbe_init_rx_addrs_generic hw_reset)"]
    by (simp add: a ixgbe_validate_mac_addr_def IXGBE_IS_MULTICAST_def IXGBE_IS_BROADCAST_def)
qed

end
