(* ===== verification/Ixgbe_Vlan.thy ===== *)
theory Ixgbe_Vlan
  imports Ixgbe_Hw
begin

text \<open>
  The VLAN filters (\<open>ixgbe_common.c\<close>): the bit table VFTA that admits a VLAN, and, in
  virtualisation mode, the 64 slots of VLVF with the pool bitmaps VLVFB that say which pools
  receive it.  Also the per-VF anti-spoofing bits and the toggling of a VF's queues.
  The lemmas relate the registers to a set of (VLAN, pool) pairs.
\<close>

unbundle bit_operations_syntax

abbreviation IXGBE_VLVF_VIEN :: u32 where
  "IXGBE_VLVF_VIEN \<equiv> 0x80000000"

abbreviation IXGBE_VLVF_ENTRIES :: nat where
  "IXGBE_VLVF_ENTRIES \<equiv> 64"

abbreviation IXGBE_VT_CTL_VT_ENABLE :: u32 where
  "IXGBE_VT_CTL_VT_ENABLE \<equiv> 0x00000001"

abbreviation IXGBE_GCR_EXT_VT_MODE_MASK :: u32 where
  "IXGBE_GCR_EXT_VT_MODE_MASK \<equiv> 0x00000003"

abbreviation IXGBE_TXDCTL_ENABLE :: u32 where
  "IXGBE_TXDCTL_ENABLE \<equiv> 0x02000000"

section \<open>Operations\<close>

text \<open>
  The loop of \<open>ixgbe_find_vlvf_slot\<close>: from slot \<open>n\<close> down to 1.  The variable
  \<open>first_empty_slot\<close> is \<open>Inr 0\<close> while there is none, \<open>Inr i\<close> for slot \<open>i\<close>, and
  the error code when the caller asked for a bypass.  The result is the slot that holds the VLAN
  on the left, or the final value of \<open>first_empty_slot\<close> on the right.
\<close>

fun vlvf_search ::
  "ixgbe_hw \<Rightarrow> u32 \<Rightarrow> nat \<Rightarrow> ixgbe_status + nat \<Rightarrow> nat + (ixgbe_status + nat)" where
  "vlvf_search hw vlan 0 first_empty_slot = Inr first_empty_slot"
| "vlvf_search hw vlan (Suc n) first_empty_slot =
     (let bits = IXGBE_READ_REG hw (IXGBE_VLVF (Suc n)) in
      if bits = vlan then Inl (Suc n)
      else vlvf_search hw vlan n
        (if first_empty_slot = Inr 0 \<and> bits = 0 then Inr (Suc n) else first_empty_slot))"

definition ixgbe_find_vlvf_slot :: "ixgbe_hw \<Rightarrow> u32 \<Rightarrow> bool \<Rightarrow> ixgbe_status + nat" where
  "ixgbe_find_vlvf_slot hw vlan vlvf_bypass =
     (if vlan = 0 then Inr 0
      else
        let first_empty_slot = (if vlvf_bypass then Inl IXGBE_ERR_NO_SPACE else Inr 0) in
        case vlvf_search hw (vlan OR IXGBE_VLVF_VIEN) (IXGBE_VLVF_ENTRIES - 1) first_empty_slot of
          Inl regindex \<Rightarrow> Inr regindex
        | Inr first_empty_slot \<Rightarrow>
            if first_empty_slot \<noteq> Inr 0 then first_empty_slot else Inl IXGBE_ERR_NO_SPACE)"

text \<open>
  \<open>ixgbe_set_vlvf_generic\<close> updates \<open>*vfta_delta\<close>; the model returns it.
\<close>

definition ixgbe_set_vlvf_generic ::
  "ixgbe_hw \<Rightarrow> u32 \<Rightarrow> u32 \<Rightarrow> bool \<Rightarrow> u32 \<Rightarrow> u32 \<Rightarrow> bool \<Rightarrow> ixgbe_status \<times> u32 \<times> ixgbe_hw" where
  "ixgbe_set_vlvf_generic hw vlan vind vlan_on vfta_delta vfta vlvf_bypass =
     (if vlan > 4095 \<or> vind > 63 then (IXGBE_ERR_PARAM, vfta_delta, hw)
      else if IXGBE_READ_REG hw IXGBE_VT_CTL AND IXGBE_VT_CTL_VT_ENABLE = 0
      then (IXGBE_SUCCESS, vfta_delta, hw)
      else case ixgbe_find_vlvf_slot hw vlan vlvf_bypass of
          Inl err \<Rightarrow> (err, vfta_delta, hw)
        | Inr vlvf_index \<Rightarrow>
            let this_half = IXGBE_VLVFB (vlvf_index * 2 + unat (vind div 32));
                other_half = IXGBE_VLVFB (vlvf_index * 2 + 1 - unat (vind div 32));
                vlvf_update = (\<lambda>bits vfta_delta.
                  (IXGBE_SUCCESS, vfta_delta,
                   IXGBE_WRITE_REG (IXGBE_WRITE_REG hw this_half bits)
                     (IXGBE_VLVF vlvf_index) (IXGBE_VLVF_VIEN OR vlan)));
                bits = IXGBE_READ_REG hw this_half OR BIT (unat (vind mod 32))
            in if vlan_on then vlvf_update bits vfta_delta
               else
                 let bits = bits XOR BIT (unat (vind mod 32)) in
                 if bits = 0 \<and> IXGBE_READ_REG hw other_half = 0 then
                   let hw = (if vfta_delta \<noteq> 0
                             then IXGBE_WRITE_REG hw (IXGBE_VFTA (unat (vlan div 32))) vfta else hw);
                       hw = IXGBE_WRITE_REG hw (IXGBE_VLVF vlvf_index) 0
                   in (IXGBE_SUCCESS, vfta_delta, IXGBE_WRITE_REG hw this_half 0)
                 else vlvf_update bits 0)"

definition ixgbe_set_vfta_generic ::
  "ixgbe_hw \<Rightarrow> u32 \<Rightarrow> u32 \<Rightarrow> bool \<Rightarrow> bool \<Rightarrow> ixgbe_status \<times> ixgbe_hw" where
  "ixgbe_set_vfta_generic hw vlan vind vlan_on vlvf_bypass =
     (if vlan > 4095 \<or> vind > 63 then (IXGBE_ERR_PARAM, hw)
      else
        let regidx = vlan div 32;
            vfta_delta = BIT (unat (vlan mod 32));
            vfta = IXGBE_READ_REG hw (IXGBE_VFTA (unat regidx));
            vfta_delta = vfta_delta AND (if vlan_on then NOT vfta else vfta);
            vfta = vfta XOR vfta_delta;
            (ret_val, vfta_delta, hw) =
              ixgbe_set_vlvf_generic hw vlan vind vlan_on vfta_delta vfta vlvf_bypass
        in if ret_val \<noteq> IXGBE_SUCCESS \<and> \<not> vlvf_bypass then (ret_val, hw)
           else (IXGBE_SUCCESS,
             if vfta_delta \<noteq> 0 then IXGBE_WRITE_REG hw (IXGBE_VFTA (unat regidx)) vfta else hw))"

definition ixgbe_clear_vfta_generic :: "ixgbe_hw \<Rightarrow> ixgbe_status \<times> ixgbe_hw" where
  "ixgbe_clear_vfta_generic hw =
     (let hw = for_upto 0 (unat (vft_size (mac hw)))
                 (\<lambda>offset hw. IXGBE_WRITE_REG hw (IXGBE_VFTA offset) 0) hw;
          hw = for_upto 0 IXGBE_VLVF_ENTRIES (\<lambda>offset hw.
                 let hw = IXGBE_WRITE_REG hw (IXGBE_VLVF offset) 0;
                     hw = IXGBE_WRITE_REG hw (IXGBE_VLVFB (offset * 2)) 0
                 in IXGBE_WRITE_REG hw (IXGBE_VLVFB (offset * 2 + 1)) 0) hw
      in (IXGBE_SUCCESS, hw))"

definition txdctl_queue_count :: "u32 \<Rightarrow> nat option" where
  "txdctl_queue_count reg =
     (let mode = reg AND IXGBE_GCR_EXT_VT_MODE_MASK in
      if mode = 3 then Some 2 else if mode = 2 then Some 4 else if mode = 1 then Some 8 else None)"

definition ixgbe_toggle_txdctl_generic :: "ixgbe_hw \<Rightarrow> u32 \<Rightarrow> ixgbe_status \<times> ixgbe_hw" where
  "ixgbe_toggle_txdctl_generic hw vf_number =
     (if vf_number > 63 then (IXGBE_ERR_PARAM, hw)
      else case txdctl_queue_count (IXGBE_READ_REG hw IXGBE_GCR_EXT) of
          None \<Rightarrow> (IXGBE_ERR_CONFIG, hw)
        | Some queue_count \<Rightarrow>
            (IXGBE_SUCCESS, for_upto 0 queue_count (\<lambda>i hw.
               let offset = queue_count * unat vf_number + i;
                   hw = IXGBE_WRITE_REG hw (IXGBE_PVFTXDCTL offset)
                          (IXGBE_READ_REG hw (IXGBE_PVFTXDCTL offset) OR IXGBE_TXDCTL_ENABLE)
               in IXGBE_WRITE_REG hw (IXGBE_PVFTXDCTL offset)
                    (IXGBE_READ_REG hw (IXGBE_PVFTXDCTL offset) AND NOT IXGBE_TXDCTL_ENABLE)) hw))"

text \<open>The source takes the VF number as an \<open>int\<close>; its callers pass 0 to 63.\<close>

definition ixgbe_set_mac_anti_spoofing :: "ixgbe_hw \<Rightarrow> bool \<Rightarrow> nat \<Rightarrow> ixgbe_hw" where
  "ixgbe_set_mac_anti_spoofing hw enable vf =
     (if mac_type (mac hw) = ixgbe_mac_82598EB then hw
      else
        let vf_target_reg = vf div 8;
            vf_target_shift = vf mod 8;
            pfvfspoof = IXGBE_READ_REG hw (IXGBE_PFVFSPOOF vf_target_reg)
        in IXGBE_WRITE_REG hw (IXGBE_PFVFSPOOF vf_target_reg)
             (if enable then pfvfspoof OR BIT vf_target_shift
              else pfvfspoof AND NOT (BIT vf_target_shift)))"

definition ixgbe_set_vlan_anti_spoofing :: "ixgbe_hw \<Rightarrow> bool \<Rightarrow> nat \<Rightarrow> ixgbe_hw" where
  "ixgbe_set_vlan_anti_spoofing hw enable vf =
     (if mac_type (mac hw) = ixgbe_mac_82598EB then hw
      else
        let vf_target_reg = vf div 8;
            vf_target_shift = vf mod 8 + 8;
            pfvfspoof = IXGBE_READ_REG hw (IXGBE_PFVFSPOOF vf_target_reg)
        in IXGBE_WRITE_REG hw (IXGBE_PFVFSPOOF vf_target_reg)
             (if enable then pfvfspoof OR BIT vf_target_shift
              else pfvfspoof AND NOT (BIT vf_target_shift)))"

section \<open>Abstract view\<close>

text \<open>
  A slot holds a VLAN (VLAN 0 always lives in slot 0), a slot has pools, a VLAN reaches a pool,
  and a VLAN is admitted by the bit table.
\<close>

definition slot_has :: "ixgbe_hw \<Rightarrow> u32 \<Rightarrow> nat \<Rightarrow> bool" where
  "slot_has hw vlan s \<longleftrightarrow>
     (if vlan = 0 then s = 0
      else 0 < s \<and> s < 64 \<and> IXGBE_READ_REG hw (IXGBE_VLVF s) = vlan OR IXGBE_VLVF_VIEN)"

definition slot_pool :: "ixgbe_hw \<Rightarrow> nat \<Rightarrow> nat \<Rightarrow> bool" where
  "slot_pool hw s p \<longleftrightarrow> bit (IXGBE_READ_REG hw (IXGBE_VLVFB (s * 2 + p div 32))) (p mod 32)"

definition vlan_pool :: "ixgbe_hw \<Rightarrow> u32 \<Rightarrow> nat \<Rightarrow> bool" where
  "vlan_pool hw vlan p \<longleftrightarrow> (\<exists>s < 64. slot_has hw vlan s \<and> slot_pool hw s p)"

definition vfta_on :: "ixgbe_hw \<Rightarrow> u32 \<Rightarrow> bool" where
  "vfta_on hw vlan \<longleftrightarrow>
     bit (IXGBE_READ_REG hw (IXGBE_VFTA (unat vlan div 32))) (unat vlan mod 32)"

definition vt_enabled :: "ixgbe_hw \<Rightarrow> bool" where
  "vt_enabled hw \<longleftrightarrow> IXGBE_READ_REG hw IXGBE_VT_CTL AND IXGBE_VT_CTL_VT_ENABLE \<noteq> 0"

text \<open>
  The invariant of the filters: an empty slot has no pools, no VLAN has two slots, and the bit
  table admits every VLAN that some pool uses.  The driver keeps it for all pools as long as it only
  uses the functions of this theory, and for a subset of them otherwise.
\<close>

definition vlan_inv_on :: "nat set \<Rightarrow> ixgbe_hw \<Rightarrow> bool" where
  "vlan_inv_on P hw \<longleftrightarrow>
     (\<forall>s < 64. IXGBE_READ_REG hw (IXGBE_VLVF s) = 0 \<longrightarrow> (\<forall>p \<in> P. \<not> slot_pool hw s p)) \<and>
     (\<forall>s < 64. \<forall>t < 64. 0 < s \<and> 0 < t \<and> IXGBE_READ_REG hw (IXGBE_VLVF s) \<noteq> 0 \<and>
        IXGBE_READ_REG hw (IXGBE_VLVF s) = IXGBE_READ_REG hw (IXGBE_VLVF t) \<longrightarrow> s = t) \<and>
     (\<forall>vlan \<le> 4095. \<forall>p \<in> P. vlan_pool hw vlan p \<longrightarrow> vfta_on hw vlan)"

abbreviation vlan_inv :: "ixgbe_hw \<Rightarrow> bool" where
  "vlan_inv \<equiv> vlan_inv_on {..<64}"

text \<open>There is a slot for the VLAN: its own or an empty one.\<close>

definition vlvf_room :: "ixgbe_hw \<Rightarrow> u32 \<Rightarrow> bool" where
  "vlvf_room hw vlan \<longleftrightarrow>
     vlan = 0 \<or> (\<exists>s < 64. 0 < s \<and>
       (IXGBE_READ_REG hw (IXGBE_VLVF s) = vlan OR IXGBE_VLVF_VIEN \<or> IXGBE_READ_REG hw (IXGBE_VLVF s) = 0))"

section \<open>Arithmetic of VLAN ids, slots and pools\<close>

lemma bit_small:
  assumes "(v :: u32) \<le> 4095" "bit v n"
  shows "n < 12"
proof (rule ccontr)
  assume "\<not> n < 12"
  then have "2 ^ 12 \<le> (2::nat) ^ n" by (intro power_increasing) auto
  moreover have "unat v \<le> 4095" using assms(1) by (simp add: word_le_nat_alt)
  ultimately have "unat v div 2 ^ n = 0" by (intro div_less) simp
  moreover have "bit (unat v) n" using assms(2) by (simp add: bit_unsigned_iff)
  ultimately show False by (simp add: bit_iff_odd)
qed

lemma bit_or_VIEN: "bit (v OR IXGBE_VLVF_VIEN) n \<longleftrightarrow> bit v n \<or> n = 31"
  unfolding bit_31_eq by (simp add: bit_or_BIT)

lemma vien_neq_0: "v OR IXGBE_VLVF_VIEN \<noteq> 0"
  using bit_or_VIEN [of v 31] by (metis bit_0_eq bot_apply bot_bool_def)

lemma vien_inject:
  assumes "(v :: u32) \<le> 4095" "w \<le> 4095" "v OR IXGBE_VLVF_VIEN = w OR IXGBE_VLVF_VIEN"
  shows "v = w"
proof (rule bit_word_eqI)
  fix n :: nat assume "n < LENGTH(32)"
  have "bit v n \<or> n = 31 \<longleftrightarrow> bit w n \<or> n = 31"
    using assms(3) bit_or_VIEN by metis
  then show "bit v n = bit w n"
    using bit_small [OF assms(1), of n] bit_small [OF assms(2), of n] by auto
qed

lemma vlan_index_inject:
  "unat (v :: u32) div 32 = unat w div 32 \<Longrightarrow> unat v mod 32 = unat w mod 32 \<Longrightarrow> v = w"
  by (metis div_mult_mod_eq word_unat_eq_iff)

lemma half_index: "p < 64 \<Longrightarrow> q < 64 \<Longrightarrow>
    s * 2 + p div 32 = t * 2 + q div 32 \<longleftrightarrow> s = t \<and> p div 32 = q div (32 :: nat)"
proof -
  assume "p < 64" "q < 64"
  then have "p div 32 < 2" "q div 32 < 2" by (simp_all add: div_less_iff_less_mult)
  moreover have "a < 2 \<Longrightarrow> b < 2 \<Longrightarrow> s * 2 + a = t * 2 + b \<longleftrightarrow> s = t \<and> a = b" for a b :: nat
    by presburger
  ultimately show ?thesis by blast
qed

lemma unat_div_mod_32: "unat ((v :: u32) div 32) = unat v div 32" "unat ((v :: u32) mod 32) = unat v mod 32"
  by (simp_all add: unat_div unat_mod)

lemma slot_empty_iff:
  "(\<forall>p < 64. \<not> slot_pool hw s p) \<longleftrightarrow>
     IXGBE_READ_REG hw (IXGBE_VLVFB (s * 2)) = 0 \<and> IXGBE_READ_REG hw (IXGBE_VLVFB (s * 2 + 1)) = 0"
proof -
  have "(\<forall>p < 64. \<not> slot_pool hw s p) \<longleftrightarrow> (\<forall>p < 32. \<not> slot_pool hw s p) \<and> (\<forall>p < 32. \<not> slot_pool hw s (p + 32))"
    (is "?l \<longleftrightarrow> ?r")
  proof
    assume r: ?r
    show ?l
    proof (intro allI impI)
      fix p :: nat assume "p < 64"
      with r show "\<not> slot_pool hw s p"
        by (cases "p < 32") (auto dest: spec [of _ "p - 32"])
    qed
  qed auto
  also have "(\<forall>p < 32. \<not> slot_pool hw s p) \<longleftrightarrow> IXGBE_READ_REG hw (IXGBE_VLVFB (s * 2)) = 0"
    by (simp add: slot_pool_def word_eq_0_iff_bits)
  also have "(\<forall>p < 32. \<not> slot_pool hw s (p + 32)) \<longleftrightarrow> IXGBE_READ_REG hw (IXGBE_VLVFB (s * 2 + 1)) = 0"
    by (simp add: slot_pool_def word_eq_0_iff_bits div_add_self2)
  finally show ?thesis .
qed

section \<open>Search\<close>

lemma vlvf_search_found:
  "vlvf_search hw vlan n fe = Inl s \<Longrightarrow> 0 < s \<and> s \<le> n \<and> IXGBE_READ_REG hw (IXGBE_VLVF s) = vlan"
  by (induction n arbitrary: fe) (fastforce simp: Let_def split: if_splits)+

lemma vlvf_search_none:
  "vlvf_search hw vlan n fe = Inr fe' \<Longrightarrow> 0 < s \<Longrightarrow> s \<le> n \<Longrightarrow> IXGBE_READ_REG hw (IXGBE_VLVF s) \<noteq> vlan"
  by (induction n arbitrary: fe) (auto simp: Let_def le_Suc_eq split: if_splits)

lemma vlvf_search_keeps:
  "vlvf_search hw vlan n fe = Inr fe' \<Longrightarrow> fe \<noteq> Inr 0 \<Longrightarrow> fe' = fe"
  by (induction n arbitrary: fe) (auto simp: Let_def split: if_splits)

lemma vlvf_search_empty:
  assumes "vlvf_search hw vlan n (Inr 0) = Inr fe'"
  shows "if fe' = Inr 0 then \<forall>s. 0 < s \<and> s \<le> n \<longrightarrow> IXGBE_READ_REG hw (IXGBE_VLVF s) \<noteq> 0
     else \<exists>s. fe' = Inr s \<and> 0 < s \<and> s \<le> n \<and> IXGBE_READ_REG hw (IXGBE_VLVF s) = 0"
  using assms
proof (induction n)
  case (Suc n)
  have ne: "IXGBE_READ_REG hw (IXGBE_VLVF (Suc n)) \<noteq> vlan"
    using Suc.prems by (auto simp: Let_def)
  show ?case
  proof (cases "IXGBE_READ_REG hw (IXGBE_VLVF (Suc n)) = 0")
    case True
    with Suc.prems ne have "vlvf_search hw vlan n (Inr (Suc n)) = Inr fe'" by (simp add: Let_def)
    from vlvf_search_keeps [OF this] True show ?thesis by simp
  next
    case False
    with Suc.prems ne have "vlvf_search hw vlan n (Inr 0) = Inr fe'" by (simp add: Let_def)
    from Suc.IH [OF this] False show ?thesis by (cases "fe' = Inr 0") (auto simp: le_Suc_eq)
  qed
qed simp

lemma find_vlvf_slot_ok:
  assumes "ixgbe_find_vlvf_slot hw vlan bypass = Inr s"
  shows "s < 64 \<and> (slot_has hw vlan s \<or> \<not> bypass \<and> vlan \<noteq> 0 \<and> 0 < s \<and>
     IXGBE_READ_REG hw (IXGBE_VLVF s) = 0 \<and> (\<forall>t. \<not> slot_has hw vlan t))"
proof (cases "vlan = 0")
  case True
  then show ?thesis using assms by (simp add: ixgbe_find_vlvf_slot_def slot_has_def)
next
  case False
  let ?fe = "if bypass then Inl IXGBE_ERR_NO_SPACE else Inr 0"
  show ?thesis
  proof (cases "vlvf_search hw (vlan OR IXGBE_VLVF_VIEN) 63 ?fe")
    case (Inl t)
    then have "s = t" using assms False by (simp add: ixgbe_find_vlvf_slot_def)
    with vlvf_search_found [OF Inl] False show ?thesis by (simp add: slot_has_def)
  next
    case (Inr fe')
    then have fe': "fe' = Inr s" "s \<noteq> 0" using assms False
      by (auto simp: ixgbe_find_vlvf_slot_def split: if_splits)
    then have "\<not> bypass" using vlvf_search_keeps [OF Inr] by auto
    moreover have "\<forall>t. \<not> slot_has hw vlan t"
      using vlvf_search_none [OF Inr] False by (auto simp: slot_has_def)
    ultimately show ?thesis
      using vlvf_search_empty [of hw "vlan OR IXGBE_VLVF_VIEN" 63 fe'] Inr fe' False by simp
  qed
qed

lemma find_vlvf_slot_error:
  assumes "ixgbe_find_vlvf_slot hw vlan bypass = Inl e"
  shows "e = IXGBE_ERR_NO_SPACE \<and> vlan \<noteq> 0 \<and> (\<forall>t. \<not> slot_has hw vlan t) \<and> (bypass \<or> \<not> vlvf_room hw vlan)"
proof -
  let ?fe = "if bypass then Inl IXGBE_ERR_NO_SPACE else Inr 0"
  have v: "vlan \<noteq> 0" using assms by (auto simp: ixgbe_find_vlvf_slot_def)
  obtain fe' where Inr: "vlvf_search hw (vlan OR IXGBE_VLVF_VIEN) 63 ?fe = Inr fe'"
    using assms v by (auto simp: ixgbe_find_vlvf_slot_def Let_def split: sum.splits)
  have none: "0 < s \<Longrightarrow> s < 64 \<Longrightarrow> IXGBE_READ_REG hw (IXGBE_VLVF s) \<noteq> vlan OR IXGBE_VLVF_VIEN" for s
    using vlvf_search_none [OF Inr, of s] by simp
  have e: "e = (case fe' of Inl x \<Rightarrow> x | Inr _ \<Rightarrow> IXGBE_ERR_NO_SPACE)"
    using assms v Inr by (auto simp: ixgbe_find_vlvf_slot_def split: if_splits sum.splits)
  show ?thesis
  proof (cases bypass)
    case True
    then have "fe' = Inl IXGBE_ERR_NO_SPACE" using vlvf_search_keeps [OF Inr] by simp
    with e v none True show ?thesis by (auto simp: slot_has_def)
  next
    case False
    note emp = vlvf_search_empty [of hw "vlan OR IXGBE_VLVF_VIEN" 63 fe']
    have fe': "fe' = Inr 0"
    proof (rule ccontr)
      assume "fe' \<noteq> Inr 0"
      with assms v Inr False emp show False
        by (auto simp: ixgbe_find_vlvf_slot_def)
    qed
    then have "\<forall>s. 0 < s \<and> s \<le> 63 \<longrightarrow> IXGBE_READ_REG hw (IXGBE_VLVF s) \<noteq> 0"
      using emp Inr False by simp
    with none v e fe' show ?thesis by (auto simp: slot_has_def vlvf_room_def less_Suc_eq_le)
  qed
qed

section \<open>Effect of the updates\<close>

lemma slot_pool_write:
  assumes "\<not> hw_removed hw" "p < 64" "q < 64"
  shows "slot_pool (IXGBE_WRITE_REG hw (IXGBE_VLVFB (s * 2 + q div 32)) b) t p \<longleftrightarrow>
    (if t = s \<and> p div 32 = q div 32 then bit b (p mod 32) else slot_pool hw t p)"
  using assms by (simp add: slot_pool_def half_index)

lemma slot_pool_other [simp]:
  "slot_pool (IXGBE_WRITE_REG hw (IXGBE_VLVF i) v) = slot_pool hw"
  "slot_pool (IXGBE_WRITE_REG hw (IXGBE_VFTA i) v) = slot_pool hw"
  by (simp_all add: slot_pool_def fun_eq_iff)

text \<open>The pool bitmap of slot \<open>s\<close> with the bit of pool \<open>q\<close> set or cleared.\<close>

definition pool_bits :: "ixgbe_hw \<Rightarrow> nat \<Rightarrow> nat \<Rightarrow> bool \<Rightarrow> u32" where
  "pool_bits hw s q on =
     (let b = IXGBE_READ_REG hw (IXGBE_VLVFB (s * 2 + q div 32)) in
      if on then b OR BIT (q mod 32) else b AND NOT (BIT (q mod 32)))"

definition write_pool :: "ixgbe_hw \<Rightarrow> nat \<Rightarrow> nat \<Rightarrow> bool \<Rightarrow> ixgbe_hw" where
  "write_pool hw s q on = IXGBE_WRITE_REG hw (IXGBE_VLVFB (s * 2 + q div 32)) (pool_bits hw s q on)"

lemma write_pool_effect:
  assumes "\<not> hw_removed hw" "p < 64" "q < 64"
  shows "slot_pool (write_pool hw s q on) t p = (if t = s \<and> p = q then on else slot_pool hw t p)"
proof -
  have "p = q \<longleftrightarrow> p div 32 = q div 32 \<and> p mod 32 = q mod 32"
    by (metis div_mult_mod_eq)
  then show ?thesis
    using assms
    by (auto simp: write_pool_def slot_pool_write pool_bits_def Let_def bitw slot_pool_def half_index)
qed

lemma last_pool_iff:
  assumes "\<not> hw_removed hw" "q < 64"
  shows "pool_bits hw s q False = 0 \<and> IXGBE_READ_REG hw (IXGBE_VLVFB (s * 2 + 1 - q div 32)) = 0 \<longleftrightarrow>
    (\<forall>p < 64. \<not> slot_pool (write_pool hw s q False) s p)"
proof -
  consider "q div 32 = 0" | "q div 32 = 1" using assms(2) by linarith
  then show ?thesis
    unfolding slot_empty_iff using assms(1) by cases (simp_all add: write_pool_def conj_commute)
qed

lemma set_vlvf_cases:
  assumes "\<not> hw_removed hw" "vlan \<le> 4095" "vind < 64" "vt_enabled hw"
    and "ixgbe_find_vlvf_slot hw vlan bypass = Inr s"
  shows "ixgbe_set_vlvf_generic hw vlan vind on delta vfta bypass =
    (let hw1 = write_pool hw s (unat vind) on in
     if on then (IXGBE_SUCCESS, delta, IXGBE_WRITE_REG hw1 (IXGBE_VLVF s) (vlan OR IXGBE_VLVF_VIEN))
     else if \<forall>p < 64. \<not> slot_pool hw1 s p then
       (IXGBE_SUCCESS, delta, IXGBE_WRITE_REG (IXGBE_WRITE_REG
          (if delta \<noteq> 0 then IXGBE_WRITE_REG hw (IXGBE_VFTA (unat vlan div 32)) vfta else hw)
          (IXGBE_VLVF s) 0) (IXGBE_VLVFB (s * 2 + unat vind div 32)) 0)
     else (IXGBE_SUCCESS, 0, IXGBE_WRITE_REG hw1 (IXGBE_VLVF s) (vlan OR IXGBE_VLVF_VIEN)))"
proof -
  have v: "\<not> 4095 < vlan" "\<not> 63 < vind" "unat vind < 64"
    using assms(2,3) by (auto simp: word_less_nat_alt word_le_nat_alt)
  show ?thesis
    using assms(1,4,5) v last_pool_iff [OF assms(1) v(3), of s]
    by (simp add: ixgbe_set_vlvf_generic_def Let_def vt_enabled_def write_pool_def pool_bits_def
        unat_div_mod_32 or_xor_BIT or.commute [of IXGBE_VLVF_VIEN vlan] del: not_less) blast
qed

lemma vfta_toggle:
  assumes "n < 32"
  shows "bit (x XOR (BIT n AND (if on then NOT x else x))) m \<longleftrightarrow> (if m = n then on else bit x m)"
    and "BIT n AND (if on then NOT x else x) = 0 \<longleftrightarrow> bit x n = on"
proof -
  show "bit (x XOR (BIT n AND (if on then NOT x else x))) m \<longleftrightarrow> (if m = n then on else bit x m)"
    using assms by (auto simp: bit_xor_iff bit_and_iff bit_not_iff bit_BIT)
  show "BIT n AND (if on then NOT x else x) = 0 \<longleftrightarrow> bit x n = on"
    using assms by (auto simp: word_eq_0_iff_bits bit_and_iff bit_not_iff bit_BIT)
qed

lemma vfta_on_write:
  assumes "\<not> hw_removed hw" "\<And>m. bit v m \<longleftrightarrow> (if m = unat vlan mod 32 then on
      else bit (IXGBE_READ_REG hw (IXGBE_VFTA (unat vlan div 32))) m)"
  shows "vfta_on (IXGBE_WRITE_REG hw (IXGBE_VFTA (unat vlan div 32)) v) w \<longleftrightarrow>
    (if w = vlan then on else vfta_on hw w)"
  using assms vlan_index_inject [of w vlan] by (auto simp: vfta_on_def)

lemma vfta_on_other [simp]:
  "vfta_on (IXGBE_WRITE_REG hw (IXGBE_VLVF i) v) = vfta_on hw"
  "vfta_on (IXGBE_WRITE_REG hw (IXGBE_VLVFB i) v) = vfta_on hw"
  by (simp_all add: vfta_on_def fun_eq_iff)

lemma write_pool_frame [simp]:
  "vfta_on (write_pool hw s q on) = vfta_on hw" "hw_removed (write_pool hw s q on) = hw_removed hw"
  "IXGBE_READ_REG (write_pool hw s q on) (IXGBE_VLVF t) = IXGBE_READ_REG hw (IXGBE_VLVF t)"
  "IXGBE_READ_REG (write_pool hw s q on) (IXGBE_VFTA r) = IXGBE_READ_REG hw (IXGBE_VFTA r)"
  "IXGBE_READ_REG (write_pool hw s q on) IXGBE_VT_CTL = IXGBE_READ_REG hw IXGBE_VT_CTL"
  by (simp_all add: write_pool_def)

text \<open>What turning a VLAN on or off for a pool does to slot \<open>s\<close> and to the bit table.\<close>

definition vlan_updated :: "ixgbe_hw \<Rightarrow> ixgbe_hw \<Rightarrow> nat \<Rightarrow> u32 \<Rightarrow> nat \<Rightarrow> bool \<Rightarrow> bool" where
  "vlan_updated hw hw' s vlan q on \<longleftrightarrow>
     (\<forall>t p. p < 64 \<longrightarrow> slot_pool hw' t p = (if t = s \<and> p = q then on else slot_pool hw t p)) \<and>
     (\<forall>t. IXGBE_READ_REG hw' (IXGBE_VLVF t) =
        (if t = s then if \<exists>p < 64. slot_pool hw' s p then vlan OR IXGBE_VLVF_VIEN else 0
         else IXGBE_READ_REG hw (IXGBE_VLVF t))) \<and>
     (\<forall>w. vfta_on hw' w =
        (if w = vlan \<and> (on \<or> (\<forall>p < 64. \<not> slot_pool hw' s p)) then on else vfta_on hw w)) \<and>
     IXGBE_READ_REG hw' IXGBE_VT_CTL = IXGBE_READ_REG hw IXGBE_VT_CTL \<and>
     hw_removed hw' = hw_removed hw"

lemma set_vfta_slot:
  assumes "\<not> hw_removed hw" "vlan \<le> 4095" "vind < 64" "vt_enabled hw"
    and "ixgbe_find_vlvf_slot hw vlan bypass = Inr s"
    and "ixgbe_set_vfta_generic hw vlan vind on bypass = (st, hw')"
  shows "st = IXGBE_SUCCESS \<and> vlan_updated hw hw' s vlan (unat vind) on"
proof -
  let ?q = "unat vind" and ?r = "unat vlan div 32" and ?n = "unat vlan mod 32"
  define old where "old = IXGBE_READ_REG hw (IXGBE_VFTA ?r)"
  define delta where "delta = BIT ?n AND (if on then NOT old else old)"
  define hw1 where "hw1 = write_pool hw s ?q on"
  have q: "?q < 64" and v: "\<not> 4095 < vlan" "\<not> 63 < vind"
    using assms(2,3) by (auto simp: word_less_nat_alt word_le_nat_alt)
  have pools1: "slot_pool hw1 t p = (if t = s \<and> p = ?q then on else slot_pool hw t p)" if "p < 64" for t p
    unfolding hw1_def by (rule write_pool_effect [OF assms(1) that q])
  have vfta: "bit (old XOR delta) m \<longleftrightarrow> (if m = ?n then on else bit old m)" "delta = 0 \<longleftrightarrow> bit old ?n = on" for m
    unfolding delta_def by (simp_all add: vfta_toggle)
  have on_old: "vfta_on hw vlan = bit old ?n" by (simp add: vfta_on_def old_def)
  have on_w: "vfta_on (IXGBE_WRITE_REG h (IXGBE_VFTA ?r) (old XOR delta)) w = (if w = vlan then on else vfta_on hw w)"
    if "\<not> hw_removed h" "IXGBE_READ_REG h (IXGBE_VFTA ?r) = old" "vfta_on h = vfta_on hw" for h w
    using vfta_on_write [OF that(1), where vlan = vlan and w = w and on = on] that vfta by simp
  have eq: "ixgbe_set_vfta_generic hw vlan vind on bypass =
     (case ixgbe_set_vlvf_generic hw vlan vind on delta (old XOR delta) bypass of (ret, d, h) \<Rightarrow>
        if ret \<noteq> IXGBE_SUCCESS \<and> \<not> bypass then (ret, h)
        else (IXGBE_SUCCESS, if d \<noteq> 0 then IXGBE_WRITE_REG h (IXGBE_VFTA ?r) (old XOR delta) else h))"
    unfolding ixgbe_set_vfta_generic_def unat_div_mod_32 Let_def old_def [symmetric] delta_def [symmetric]
    using v by simp
  note r = assms(6) [unfolded eq set_vlvf_cases [OF assms(1-5)] hw1_def [symmetric] Let_def]
  have nr: "\<not> hw_removed hw1" and old1: "IXGBE_READ_REG hw1 (IXGBE_VFTA ?r) = old"
    using assms(1) by (simp_all add: hw1_def old_def)
  consider (keep) "on \<or> (\<exists>p < 64. slot_pool hw1 s p)" | (last) "\<not> on" "\<forall>p < 64. \<not> slot_pool hw1 s p"
    by blast
  then show ?thesis
  proof cases
    case keep
    define hw2 where "hw2 = IXGBE_WRITE_REG hw1 (IXGBE_VLVF s) (vlan OR IXGBE_VLVF_VIEN)"
    have p1: "\<exists>p < 64. slot_pool hw1 s p" using keep pools1 q by metis
    have hw': "st = IXGBE_SUCCESS" "hw' = (if on \<and> delta \<noteq> 0
        then IXGBE_WRITE_REG hw2 (IXGBE_VFTA ?r) (old XOR delta) else hw2)"
      using r p1 by (auto simp: hw2_def split: if_splits)
    have h2: "\<not> hw_removed hw2" "IXGBE_READ_REG hw2 (IXGBE_VFTA ?r) = old" "vfta_on hw2 = vfta_on hw"
      "slot_pool hw2 = slot_pool hw1"
      using nr old1 by (simp_all add: hw2_def hw1_def)
    have pools: "slot_pool hw' = slot_pool hw1" using h2(4) hw' by simp
    have vf: "vfta_on hw' w = (if w = vlan \<and> on then on else vfta_on hw w)" for w
      using on_w [OF h2(1-3), of w] h2(3) vfta(2) on_old by (auto simp: hw')
    have vl: "IXGBE_READ_REG hw' (IXGBE_VLVF t) =
        (if t = s then vlan OR IXGBE_VLVF_VIEN else IXGBE_READ_REG hw (IXGBE_VLVF t))" for t
      using nr by (simp add: hw' hw2_def hw1_def)
    have "IXGBE_READ_REG hw' IXGBE_VT_CTL = IXGBE_READ_REG hw IXGBE_VT_CTL" "hw_removed hw' = hw_removed hw"
      using assms(1) by (simp_all add: hw' hw2_def hw1_def)
    then show ?thesis
      unfolding vlan_updated_def pools vf vl using hw'(1) p1 pools1 by (auto split: if_splits)
  next
    case last
    define hw2 where "hw2 = IXGBE_WRITE_REG (IXGBE_WRITE_REG
      (if delta \<noteq> 0 then IXGBE_WRITE_REG hw (IXGBE_VFTA ?r) (old XOR delta) else hw)
      (IXGBE_VLVF s) 0) (IXGBE_VLVFB (s * 2 + ?q div 32)) 0"
    have hw': "st = IXGBE_SUCCESS" "hw' = (if delta \<noteq> 0
        then IXGBE_WRITE_REG hw2 (IXGBE_VFTA ?r) (old XOR delta) else hw2)"
      using r last by (auto simp: hw2_def split: if_splits)
    have pools: "slot_pool hw' t p = slot_pool hw1 t p" if "p < 64" for t p
      using assms(1) last pools1 [OF that, of t] that slot_pool_write [OF _ that q] by (auto simp: hw' hw2_def)
    have vf: "vfta_on hw' w = (if w = vlan then on else vfta_on hw w)" for w
      using on_w [of hw w] assms(1) vfta(2) on_old by (auto simp: hw' hw2_def old_def [symmetric] vfta_on_def)
    have vl: "IXGBE_READ_REG hw' (IXGBE_VLVF t) = (if t = s then 0 else IXGBE_READ_REG hw (IXGBE_VLVF t))" for t
      using assms(1) by (simp add: hw' hw2_def)
    have "IXGBE_READ_REG hw' IXGBE_VT_CTL = IXGBE_READ_REG hw IXGBE_VT_CTL" "hw_removed hw' = hw_removed hw"
      using assms(1) by (simp_all add: hw' hw2_def)
    then show ?thesis
      unfolding vlan_updated_def vf vl using hw'(1) last pools pools1 by auto
  qed
qed

section \<open>Refinement to the set of VLAN and pool pairs\<close>

text \<open>Slot \<open>s\<close> is where the VLAN lives or may be put.\<close>

definition slot_for :: "ixgbe_hw \<Rightarrow> u32 \<Rightarrow> nat \<Rightarrow> bool" where
  "slot_for hw vlan s \<longleftrightarrow> s < 64 \<and> (slot_has hw vlan s \<or>
     vlan \<noteq> 0 \<and> 0 < s \<and> IXGBE_READ_REG hw (IXGBE_VLVF s) = 0 \<and> (\<forall>t. \<not> slot_has hw vlan t))"

lemma vlan_inv_dest:
  assumes "vlan_inv_on P hw"
  shows "s < 64 \<Longrightarrow> p \<in> P \<Longrightarrow> IXGBE_READ_REG hw (IXGBE_VLVF s) = 0 \<Longrightarrow> \<not> slot_pool hw s p"
    and "s < 64 \<Longrightarrow> t < 64 \<Longrightarrow> 0 < s \<Longrightarrow> 0 < t \<Longrightarrow> IXGBE_READ_REG hw (IXGBE_VLVF s) \<noteq> 0 \<Longrightarrow>
      IXGBE_READ_REG hw (IXGBE_VLVF s) = IXGBE_READ_REG hw (IXGBE_VLVF t) \<Longrightarrow> s = t"
    and "vlan \<le> 4095 \<Longrightarrow> p \<in> P \<Longrightarrow> vlan_pool hw vlan p \<Longrightarrow> vfta_on hw vlan"
  using assms unfolding vlan_inv_on_def by blast+

lemma slot_unique:
  assumes "vlan_inv_on P hw" "slot_for hw vlan s" "slot_has hw vlan t"
  shows "t = s"
proof -
  have s: "slot_has hw vlan s" using assms(2,3) by (auto simp: slot_for_def)
  show ?thesis
  proof (cases "vlan = 0")
    case True
    with s assms(3) show ?thesis by (simp add: slot_has_def)
  next
    case False
    with s assms(3) vlan_inv_dest(2) [OF assms(1), of t s] vien_neq_0 [of vlan] show ?thesis
      by (simp add: slot_has_def)
  qed
qed

lemma slot_for_other:
  assumes "slot_for hw vlan s" "vlan \<le> 4095" "w \<le> 4095" "w \<noteq> vlan"
  shows "\<not> slot_has hw w s"
proof
  assume h: "slot_has hw w s"
  show False
  proof (cases "w = 0")
    case True
    with h assms show False by (simp add: slot_for_def slot_has_def)
  next
    case False
    with h have "IXGBE_READ_REG hw (IXGBE_VLVF s) = w OR IXGBE_VLVF_VIEN" "0 < s" by (simp_all add: slot_has_def)
    with assms vien_inject [of w vlan] vien_neq_0 [of w] show False
      by (cases "vlan = 0") (auto simp: slot_for_def slot_has_def)
  qed
qed

lemma vlan_pool_slot:
  assumes "vlan_inv_on P hw" "slot_for hw vlan s" "p \<in> P"
  shows "vlan_pool hw vlan p = slot_pool hw s p"
proof (cases "slot_has hw vlan s")
  case True
  have "s < 64" using assms(2) by (simp add: slot_for_def)
  with True slot_unique [OF assms(1,2)] show ?thesis unfolding vlan_pool_def by blast
next
  case False
  then have "s < 64" "IXGBE_READ_REG hw (IXGBE_VLVF s) = 0" "\<forall>t. \<not> slot_has hw vlan t"
    using assms(2) by (simp_all add: slot_for_def)
  with vlan_inv_dest(1) [OF assms(1), of s p] assms(3) show ?thesis by (simp add: vlan_pool_def)
qed

lemma slot_has_updated:
  assumes "vlan_updated hw hw' s vlan q on" "vlan \<le> 4095" "w \<le> 4095" "slot_for hw vlan s"
  shows "slot_has hw' w t \<longleftrightarrow>
    (if t = s then w = vlan \<and> (vlan = 0 \<or> (\<exists>p < 64. slot_pool hw' s p)) else slot_has hw w t)"
proof -
  have uV: "IXGBE_READ_REG hw' (IXGBE_VLVF t) =
        (if t = s then if \<exists>p < 64. slot_pool hw' s p then vlan OR IXGBE_VLVF_VIEN else 0
         else IXGBE_READ_REG hw (IXGBE_VLVF t))"
    using assms(1) by (simp add: vlan_updated_def)
  have s: "s < 64" "s = 0 \<longleftrightarrow> vlan = 0"
    using assms(4) by (auto simp: slot_for_def slot_has_def split: if_splits)
  show ?thesis
  proof (cases "t = s")
    case True
    have "IXGBE_READ_REG hw' (IXGBE_VLVF s) = w OR IXGBE_VLVF_VIEN \<longleftrightarrow> (\<exists>p < 64. slot_pool hw' s p) \<and> w = vlan"
      using uV True vien_inject [OF assms(3,2)] vien_neq_0 [of w] by metis
    with True s show ?thesis by (auto simp: slot_has_def)
  next
    case False
    with uV show ?thesis by (simp add: slot_has_def)
  qed
qed

lemma vlan_updated_pools:
  assumes "vlan_inv_on P hw" "slot_for hw vlan s" "vlan_updated hw hw' s vlan q on"
    and "vlan \<le> 4095" "w \<le> 4095" "p \<in> P" "p < 64"
  shows "vlan_pool hw' w p = (if w = vlan \<and> p = q then on else vlan_pool hw w p)"
proof -
  have s: "s < 64" using assms(2) by (simp add: slot_for_def)
  have pools: "slot_pool hw' t p = (if t = s \<and> p = q then on else slot_pool hw t p)" for t
    using assms(3,7) by (simp add: vlan_updated_def)
  note has = slot_has_updated [OF assms(3,4,5,2)]
  show ?thesis
  proof (cases "w = vlan")
    case True
    have "vlan_pool hw' vlan p = slot_pool hw' s p"
      using has slot_unique [OF assms(1,2)] True s assms(7) by (auto simp: vlan_pool_def)
    with True pools vlan_pool_slot [OF assms(1,2,6)] show ?thesis by simp
  next
    case False
    have "slot_has hw' w t \<and> slot_pool hw' t p \<longleftrightarrow> slot_has hw w t \<and> slot_pool hw t p" for t
      using has [of t] slot_for_other [OF assms(2,4,5) False] pools [of t] False by (cases "t = s") auto
    with False show ?thesis by (simp add: vlan_pool_def)
  qed
qed

lemma vlan_updated_inv:
  assumes "vlan_inv_on P hw" "slot_for hw vlan s" "vlan_updated hw hw' s vlan q on" "vlan \<le> 4095" "P \<subseteq> {..<64}"
  shows "vlan_inv_on P hw'"
proof -
  have s: "s < 64" using assms(2) by (simp add: slot_for_def)
  have uP: "slot_pool hw' t p = (if t = s \<and> p = q then on else slot_pool hw t p)" if "p < 64" for t p
    using assms(3) that by (simp add: vlan_updated_def)
  have uV: "IXGBE_READ_REG hw' (IXGBE_VLVF t) =
        (if t = s then if \<exists>p < 64. slot_pool hw' s p then vlan OR IXGBE_VLVF_VIEN else 0
         else IXGBE_READ_REG hw (IXGBE_VLVF t))" for t
    using assms(3) by (simp add: vlan_updated_def)
  have uF: "vfta_on hw' w =
        (if w = vlan \<and> (on \<or> (\<forall>p < 64. \<not> slot_pool hw' s p)) then on else vfta_on hw w)" for w
    using assms(3) by (simp add: vlan_updated_def)
  have lt: "p < 64" if "p \<in> P" for p using assms(5) that by auto
  have 1: "\<not> slot_pool hw' t p" if "t < 64" "IXGBE_READ_REG hw' (IXGBE_VLVF t) = 0" "p \<in> P" for t p
  proof (cases "t = s")
    case True
    then have "\<not> (\<exists>p < 64. slot_pool hw' s p)" using uV [of t] that(2) vien_neq_0 [of vlan] by metis
    with True that lt show ?thesis by blast
  next
    case False
    then show ?thesis using uV [of t] uP [OF lt [OF that(3)], of t] vlan_inv_dest(1) [OF assms(1)] that by simp
  qed
  have no: "r = s" if "0 < s" "0 < r" "r < 64" "IXGBE_READ_REG hw (IXGBE_VLVF r) = vlan OR IXGBE_VLVF_VIEN" for r
    using slot_unique [OF assms(1,2), of r] that assms(2) by (cases "vlan = 0") (auto simp: slot_has_def slot_for_def)
  have 2: "t = t'" if "t < 64" "t' < 64" "0 < t" "0 < t'" "IXGBE_READ_REG hw' (IXGBE_VLVF t) \<noteq> 0"
    "IXGBE_READ_REG hw' (IXGBE_VLVF t) = IXGBE_READ_REG hw' (IXGBE_VLVF t')" for t t'
  proof (cases "t = s \<or> t' = s")
    case True
    then show ?thesis using that uV [of t] uV [of t'] no [of t] no [of t'] by metis
  next
    case False
    then show ?thesis using that uV [of t] uV [of t'] vlan_inv_dest(2) [OF assms(1), of t t'] by simp
  qed
  have 3: "vfta_on hw' w" if "w \<le> 4095" "p \<in> P" "vlan_pool hw' w p" for w p
  proof -
    note pool = vlan_updated_pools [OF assms(1-4) that(1,2) lt [OF that(2)]]
    have old: "vlan_pool hw w p \<Longrightarrow> vfta_on hw w" by (rule vlan_inv_dest(3) [OF assms(1) that(1,2)])
    show ?thesis
    proof (cases "w = vlan")
      case True
      have "slot_pool hw' s p"
        using pool True vlan_pool_slot [OF assms(1,2) that(2)] uP [OF lt [OF that(2)], of s] that(3)
        by (simp split: if_splits)
      then show ?thesis using uF [of w] old pool lt [OF that(2)] that(3) True by (auto split: if_splits)
    next
      case False
      then show ?thesis using uF [of w] old pool that(3) by simp
    qed
  qed
  show ?thesis unfolding vlan_inv_on_def using 1 2 3 by blast
qed

section \<open>Properties of the VLAN filter\<close>

lemma find_slot_for:
  "ixgbe_find_vlvf_slot hw vlan bypass = Inr s \<Longrightarrow> slot_for hw vlan s"
  using find_vlvf_slot_ok [of hw vlan bypass s] by (auto simp: slot_for_def)

lemma room_find:
  assumes "vlvf_room hw vlan"
  obtains s where "ixgbe_find_vlvf_slot hw vlan False = Inr s"
  using assms find_vlvf_slot_error [of hw vlan False] by (cases "ixgbe_find_vlvf_slot hw vlan False") auto

text \<open>
  C4. In virtualisation mode, turning a VLAN on or off for a pool succeeds when the VLAN has a slot or
  an empty slot exists.  It changes the set of (VLAN, pool) pairs by exactly that pair and keeps the
  invariant; the bit table admits the VLAN after turning it on, and after turning it off exactly as
  long as another pool still uses it.  No other VLAN is affected.
\<close>

lemma set_vfta_correct:
  assumes "\<not> hw_removed hw" "vlan_inv hw" "vt_enabled hw" "vlan \<le> 4095" "vind < 64"
    and "vlvf_room hw vlan" "ixgbe_set_vfta_generic hw vlan vind on False = (st, hw')"
  shows "st = IXGBE_SUCCESS \<and> vlan_inv hw' \<and>
    (\<forall>w p. w \<le> 4095 \<and> p < 64 \<longrightarrow>
       vlan_pool hw' w p = (if w = vlan \<and> p = unat vind then on else vlan_pool hw w p)) \<and>
    (\<forall>w. vfta_on hw' w =
       (if w = vlan then on \<or> vfta_on hw vlan \<and> (\<exists>p < 64. vlan_pool hw' vlan p) else vfta_on hw w))"
proof -
  obtain s where s: "ixgbe_find_vlvf_slot hw vlan False = Inr s"
    using room_find [OF assms(6)] .
  have u: "st = IXGBE_SUCCESS" "vlan_updated hw hw' s vlan (unat vind) on"
    using set_vfta_slot [OF assms(1,4,5,3) s assms(7)] by simp_all
  note f = find_slot_for [OF s]
  have pools: "w \<le> 4095 \<Longrightarrow> p < 64 \<Longrightarrow>
       vlan_pool hw' w p = (if w = vlan \<and> p = unat vind then on else vlan_pool hw w p)" for w p
    by (rule vlan_updated_pools [OF assms(2) f u(2) assms(4)]) simp_all
  have "vlan_pool hw' vlan p = slot_pool hw' s p" if "p < 64" for p
    using pools [OF assms(4) that] vlan_pool_slot [OF assms(2) f, of p] u(2) that by (simp add: vlan_updated_def)
  then have "vfta_on hw' w = (if w = vlan then on \<or> vfta_on hw vlan \<and> (\<exists>p < 64. vlan_pool hw' vlan p)
      else vfta_on hw w)" for w
    using u(2) by (auto simp: vlan_updated_def split: if_splits)
  then show ?thesis
    using u(1) pools vlan_updated_inv [OF assms(2) f u(2) assms(4)] by blast
qed

lemma set_vfta_no_slot:
  assumes "vlan \<le> 4095" "vind < 64" "vt_enabled hw" "ixgbe_find_vlvf_slot hw vlan bypass = Inl e"
  shows "ixgbe_set_vfta_generic hw vlan vind on bypass =
    (if \<not> bypass then (IXGBE_ERR_NO_SPACE, hw)
     else (IXGBE_SUCCESS, if vfta_on hw vlan = on then hw else IXGBE_WRITE_REG hw (IXGBE_VFTA (unat vlan div 32))
        (IXGBE_READ_REG hw (IXGBE_VFTA (unat vlan div 32)) XOR BIT (unat vlan mod 32))))"
proof -
  have v: "\<not> 4095 < vlan" "\<not> 63 < vind" 
    using assms(1,2) by (auto simp: word_less_nat_alt word_le_nat_alt)
  let ?old = "IXGBE_READ_REG hw (IXGBE_VFTA (unat vlan div 32))"
  let ?n = "unat vlan mod 32"
  have e: "e = IXGBE_ERR_NO_SPACE" using find_vlvf_slot_error [OF assms(4)] by simp
  have d: "BIT ?n AND (if on then NOT ?old else ?old) = (if vfta_on hw vlan = on then 0 else BIT ?n)"
  proof (cases "vfta_on hw vlan = on")
    case True
    then show ?thesis using vfta_toggle(2) [of ?n on ?old] by (simp add: vfta_on_def)
  next
    case False
    then show ?thesis
      by (auto intro!: bit_word_eqI simp: bit_and_iff bit_not_iff bit_BIT vfta_on_def)
  qed
  show ?thesis
    unfolding ixgbe_set_vfta_generic_def Let_def unat_div_mod_32 d
    using v assms(3,4) e BIT_neq_0 [of ?n]
    by (simp add: ixgbe_set_vlvf_generic_def vt_enabled_def del: not_less)
qed

lemma vlan_views_vfta_write:
  "vlan_pool (IXGBE_WRITE_REG hw (IXGBE_VFTA i) v) = vlan_pool hw"
  "vt_enabled (IXGBE_WRITE_REG hw (IXGBE_VFTA i) v) = vt_enabled hw"
  by (simp_all add: vlan_pool_def slot_has_def vt_enabled_def fun_eq_iff)

lemma set_vfta_bypass_effect:
  assumes "\<not> hw_removed hw" "vlan \<le> 4095" "vind < 64" "vt_enabled hw" "\<forall>s < 64. \<not> slot_has hw vlan s"
    and "ixgbe_set_vfta_generic hw vlan vind on True = (st, hw')"
  shows "st = IXGBE_SUCCESS \<and> vlan_pool hw' = vlan_pool hw \<and> 
     (\<forall>w. vfta_on hw' w = (if w = vlan then on else vfta_on hw w))"
proof -
  obtain e where e: "ixgbe_find_vlvf_slot hw vlan True = Inl e"
    using find_vlvf_slot_ok [of hw vlan True] assms(5) by (cases "ixgbe_find_vlvf_slot hw vlan True") auto
  have w: "vfta_on (IXGBE_WRITE_REG hw (IXGBE_VFTA (unat vlan div 32))
        (IXGBE_READ_REG hw (IXGBE_VFTA (unat vlan div 32)) XOR BIT (unat vlan mod 32))) w \<longleftrightarrow>
      (if w = vlan then on else vfta_on hw w)" if "vfta_on hw vlan \<noteq> on" for w
    using that by (intro vfta_on_write [OF assms(1)]) (auto simp: bit_xor_iff bit_BIT vfta_on_def)
  have "vfta_on hw vlan \<noteq> on \<Longrightarrow> hw' = IXGBE_WRITE_REG hw (IXGBE_VFTA (unat vlan div 32))
        (IXGBE_READ_REG hw (IXGBE_VFTA (unat vlan div 32)) XOR BIT (unat vlan mod 32))"
    and "vfta_on hw vlan = on \<Longrightarrow> hw' = hw" and "st = IXGBE_SUCCESS"
    using assms(6) unfolding set_vfta_no_slot [OF assms(2,3,4) e] by auto
  then show ?thesis
    using w by (cases "vfta_on hw vlan = on") (auto simp: vlan_views_vfta_write)
qed

text \<open>Every call keeps the invariant, whatever its arguments and its outcome.\<close>

definition vlan_ok :: "ixgbe_hw \<Rightarrow> bool" where
  "vlan_ok hw \<longleftrightarrow> \<not> hw_removed hw \<and> vt_enabled hw \<and> vlan_inv hw"

lemma vlan_inv_vfta_only:
  assumes "vlan_inv hw" "vlan_pool hw' = vlan_pool hw" "slot_pool hw' = slot_pool hw"
    and "\<And>s. IXGBE_READ_REG hw' (IXGBE_VLVF s) = IXGBE_READ_REG hw (IXGBE_VLVF s)"
    and "\<And>w p. w \<le> 4095 \<Longrightarrow> p < 64 \<Longrightarrow> vlan_pool hw w p \<Longrightarrow> vfta_on hw' w"
  shows "vlan_inv hw'"
  unfolding vlan_inv_on_def assms(2,3,4) using assms(1,5) unfolding vlan_inv_on_def lessThan_iff Ball_def by blast

lemma set_vfta_keeps:
  assumes "vlan_ok hw"
  shows "vlan_ok (snd (ixgbe_set_vfta_generic hw vlan vind on bypass))"
proof (cases "vlan \<le> 4095 \<and> vind < 64")
  case False
  then have "4095 < vlan \<or> 63 < vind" by (auto simp: word_less_nat_alt word_le_nat_alt)
  then show ?thesis using assms by (auto simp: ixgbe_set_vfta_generic_def)
next
  case True
  obtain st hw' where r: "ixgbe_set_vfta_generic hw vlan vind on bypass = (st, hw')" by fastforce
  have nr: "\<not> hw_removed hw" and vt: "vt_enabled hw" and inv: "vlan_inv hw"
    using assms by (simp_all add: vlan_ok_def)
  show ?thesis
  proof (cases "ixgbe_find_vlvf_slot hw vlan bypass")
    case (Inr s)
    have u: "vlan_updated hw hw' s vlan (unat vind) on"
      using set_vfta_slot [OF nr _ _ vt Inr r] True by simp
    then show ?thesis
      using vlan_updated_inv [OF inv find_slot_for [OF Inr] u] True r nr vt
      by (simp add: vlan_ok_def vlan_updated_def vt_enabled_def)
  next
    case (Inl e)
    note f = find_vlvf_slot_error [OF Inl]
    show ?thesis
    proof (cases bypass)
      case False
      then show ?thesis using set_vfta_no_slot [OF _ _ vt Inl] True assms by simp
    next
      case T: True
      have b: "st = IXGBE_SUCCESS \<and> vlan_pool hw' = vlan_pool hw \<and>
         (\<forall>w. vfta_on hw' w = (if w = vlan then on else vfta_on hw w))"
      proof (rule set_vfta_bypass_effect [OF nr _ _ vt])
        show "ixgbe_set_vfta_generic hw vlan vind on True = (st, hw')" using r T by simp
      qed (use True f in auto)
      have none: "\<not> vlan_pool hw vlan p" for p using f by (simp add: vlan_pool_def)
      have same: "slot_pool hw' = slot_pool hw" "IXGBE_READ_REG hw' (IXGBE_VLVF s) = IXGBE_READ_REG hw (IXGBE_VLVF s)"
        "hw_removed hw' = hw_removed hw" "vt_enabled hw' = vt_enabled hw" for s
        using r set_vfta_no_slot [OF _ _ vt Inl, of vind on] True T
        by (auto simp: vlan_views_vfta_write split: if_splits)
      have "vlan_inv hw'"
      proof (rule vlan_inv_vfta_only [OF inv _ same(1,2)])
        show "vfta_on hw' w" if "w \<le> 4095" "p < 64" "vlan_pool hw w p" for w p
          using vlan_inv_dest(3) [OF inv that(1) _ that(3)] that(2) b none that(3) by (cases "w = vlan") auto
      qed (use b in simp)
      then show ?thesis using same nr vt r by (simp add: vlan_ok_def)
    qed
  qed
qed

text \<open>The filters after \<open>ixgbe_clear_vfta_generic\<close>.\<close>

lemma clear_vfta_regs:
  assumes "\<not> hw_removed hw"
  shows "hw_removed (snd (ixgbe_clear_vfta_generic hw)) = hw_removed hw"
    and "IXGBE_READ_REG (snd (ixgbe_clear_vfta_generic hw)) r =
      (if r \<in> IXGBE_VFTA ` {0..<unat (vft_size (mac hw))} \<union> IXGBE_VLVF ` {0..<64} \<union> IXGBE_VLVFB ` {0..<128}
       then 0 else IXGBE_READ_REG hw r)"
proof -
  let ?body = "\<lambda>i hw. IXGBE_WRITE_REG (IXGBE_WRITE_REG (IXGBE_WRITE_REG hw (IXGBE_VLVF i) 0)
    (IXGBE_VLVFB (i * 2)) 0) (IXGBE_VLVFB (i * 2 + 1)) 0"
  define hw1 where "hw1 = for_upto 0 (unat (vft_size (mac hw))) (\<lambda>i hw. IXGBE_WRITE_REG hw (IXGBE_VFTA i) 0) hw"
  have eq: "snd (ixgbe_clear_vfta_generic hw) = for_upto 0 64 ?body hw1"
    by (simp add: ixgbe_clear_vfta_generic_def Let_def hw1_def)
  have f: "hw_removed (for_upto 0 n ?body hw1) = hw_removed hw" for n
    using for_upto_frame [where f = hw_removed and body = ?body] by (simp add: hw1_def)
  then show "hw_removed (snd (ixgbe_clear_vfta_generic hw)) = hw_removed hw" by (simp add: eq)
  have "IXGBE_READ_REG (for_upto 0 n ?body hw1) r =
      (if r \<in> IXGBE_VLVF ` {0..<n} \<union> IXGBE_VLVFB ` {0..<2 * n} then 0 else IXGBE_READ_REG hw1 r)" for n
    using f assms by (induction n) (auto simp: atLeastLessThanSuc mult.commute)
  from this [of 64] show "IXGBE_READ_REG (snd (ixgbe_clear_vfta_generic hw)) r =
      (if r \<in> IXGBE_VFTA ` {0..<unat (vft_size (mac hw))} \<union> IXGBE_VLVF ` {0..<64} \<union> IXGBE_VLVFB ` {0..<128}
       then 0 else IXGBE_READ_REG hw r)"
    using assms by (auto simp: eq hw1_def write_loop_read)
qed

lemma clear_vfta_views:
  assumes "\<not> hw_removed hw"
  shows "s < 64 \<Longrightarrow> p < 64 \<Longrightarrow> \<not> slot_pool (snd (ixgbe_clear_vfta_generic hw)) s p"
    and "p < 64 \<Longrightarrow> \<not> vlan_pool (snd (ixgbe_clear_vfta_generic hw)) vlan p"
    and "vlan \<le> 4095 \<Longrightarrow> vft_size (mac hw) = 128 \<Longrightarrow> \<not> vfta_on (snd (ixgbe_clear_vfta_generic hw)) vlan"
    and "vt_enabled hw \<Longrightarrow> vlan_ok (snd (ixgbe_clear_vfta_generic hw))"
proof -
  note r = clear_vfta_regs [OF assms]
  show sp: "\<not> slot_pool (snd (ixgbe_clear_vfta_generic hw)) s p" if "s < 64" "p < 64" for s p
    using that by (auto simp: slot_pool_def r image_iff)
  show vp: "\<not> vlan_pool (snd (ixgbe_clear_vfta_generic hw)) vlan p" if "p < 64" for vlan p
    using sp that by (auto simp: vlan_pool_def)
  show "\<not> vfta_on (snd (ixgbe_clear_vfta_generic hw)) vlan" if "vlan \<le> 4095" "vft_size (mac hw) = 128"
    using that by (auto simp: vfta_on_def r image_iff word_le_nat_alt)
  have "IXGBE_READ_REG (snd (ixgbe_clear_vfta_generic hw)) (IXGBE_VLVF s) = 0" if "s < 64" for s
    using that by (simp add: r image_iff)
  then show "vlan_ok (snd (ixgbe_clear_vfta_generic hw))" if "vt_enabled hw"
    using that sp vp assms r(1) by (auto simp: vlan_ok_def vlan_inv_on_def vt_enabled_def r(2) image_iff)
qed

section \<open>Histories\<close>

text \<open>
  The states the VLAN filters can reach in virtualisation mode: they start cleared and every
  later change is a call of \<open>ixgbe_set_vfta_generic\<close> or another clearing.
\<close>

inductive vlan_reachable :: "ixgbe_hw \<Rightarrow> bool" where
  start: "\<not> hw_removed hw \<Longrightarrow> vt_enabled hw \<Longrightarrow> vlan_reachable (snd (ixgbe_clear_vfta_generic hw))"
| set: "vlan_reachable hw \<Longrightarrow> vlan_reachable (snd (ixgbe_set_vfta_generic hw vlan vind on bypass))"
| clear: "vlan_reachable hw \<Longrightarrow> vlan_reachable (snd (ixgbe_clear_vfta_generic hw))"

lemma vlan_reachable_ok: "vlan_reachable hw \<Longrightarrow> vlan_ok hw"
proof (induction rule: vlan_reachable.induct)
  case (start hw)
  then show ?case by (rule clear_vfta_views(4))
next
  case (set hw vlan vind on bypass)
  from set.IH show ?case by (rule set_vfta_keeps)
next
  case (clear hw)
  then show ?case by (intro clear_vfta_views(4)) (simp_all add: vlan_ok_def)
qed

text \<open>
  C10. Every state the VLAN filters can reach from a clearing by any sequence of calls, with any
  arguments and whatever each call returns, satisfies the invariant: empty slots have no pools, no
  VLAN occupies two slots, and the bit table admits every VLAN some pool uses.
\<close>

lemma vlan_reachable_invariant:
  assumes "vlan_reachable hw"
  shows "vlan_inv hw \<and> (\<forall>vlan p. vlan \<le> 4095 \<and> p < 64 \<and> vlan_pool hw vlan p \<longrightarrow> vfta_on hw vlan)"
  using vlan_reachable_ok [OF assms] by (auto simp: vlan_ok_def dest: vlan_inv_dest(3))

text \<open>
  C37. When the VLAN has no slot and none is empty, the call without bypass returns
  \<open>IXGBE_ERR_NO_SPACE\<close> and leaves the adapter as it was, the bit table included.
\<close>

lemma set_vfta_no_space:
  assumes "vlan \<le> 4095" "vind < 64" "vt_enabled hw" "\<not> vlvf_room hw vlan"
  shows "ixgbe_set_vfta_generic hw vlan vind on False = (IXGBE_ERR_NO_SPACE, hw)"
proof -
  have "\<exists>e. ixgbe_find_vlvf_slot hw vlan False = Inl e"
    using find_vlvf_slot_ok [of hw vlan False] assms(4)
    by (cases "ixgbe_find_vlvf_slot hw vlan False") (fastforce simp: slot_has_def vlvf_room_def split: if_splits)+
  then show ?thesis using set_vfta_no_slot [OF assms(1-3)] by auto
qed

section \<open>The filter as an interface\<close>

text \<open>
  What the users of the VLAN filter rely on: a request changes the membership of one pair, and a
  VLAN that had room keeps it.
\<close>

locale vlan_filter =
  fixes ok :: "'h \<Rightarrow> bool"
    and room :: "'h \<Rightarrow> 'v \<Rightarrow> bool"
    and legal :: "'v \<Rightarrow> 'p \<Rightarrow> bool"
    and member :: "'h \<Rightarrow> 'v \<Rightarrow> 'p \<Rightarrow> bool"
    and change :: "'h \<Rightarrow> 'v \<Rightarrow> 'p \<Rightarrow> bool \<Rightarrow> 'h"
  assumes change_ok: "ok h \<Longrightarrow> ok (change h v p on)"
    and change_member: "ok h \<Longrightarrow> room h v \<Longrightarrow> legal v p \<Longrightarrow> legal w q \<Longrightarrow>
      member (change h v p on) w q = (if w = v \<and> q = p then on else member h w q)"
    and change_room: "ok h \<Longrightarrow> room h v \<Longrightarrow> legal v p \<Longrightarrow> room (change h v p on) v"
begin

lemma join_leave:
  assumes "ok h" "room h v" "legal v p" "legal w q"
  shows "member (change (change h v p True) v p False) w q \<longleftrightarrow> member h w q \<and> \<not> (w = v \<and> q = p)"
  using assms by (simp add: change_ok change_member change_room)

lemma requests_keep:
  assumes "ok h" "room h v" "\<forall>(p, on) \<in> set reqs. legal v p"
  shows "ok (fold (\<lambda>(p, on) h. change h v p on) reqs h) \<and> room (fold (\<lambda>(p, on) h. change h v p on) reqs h) v"
  using assms by (induction reqs arbitrary: h) (auto simp: change_ok change_room)

lemma replay:
  assumes "ok h" "room h v" "\<forall>(p, on) \<in> set reqs. legal v p" "legal w q"
  shows "member (fold (\<lambda>(p, on) h. change h v p on) reqs h) w q \<longleftrightarrow>
    (if w \<noteq> v then member h w q
     else case map_of (rev reqs) q of None \<Rightarrow> member h v q | Some on \<Rightarrow> on)"
  using assms
proof (induction reqs rule: rev_induct)
  case Nil
  then show ?case by simp
next
  case (snoc r reqs)
  obtain p on where r: "r = (p, on)" by fastforce
  show ?case
    using snoc requests_keep [of h v reqs] by (cases "w = v") (simp_all add: r change_member)
qed

end

lemma change_keeps_room:
  assumes "vlan_ok hw" "vlvf_room hw vlan" "vlan \<le> 4095" "vind < 64"
  shows "vlvf_room (snd (ixgbe_set_vfta_generic hw vlan vind on False)) vlan"
proof -
  obtain s where s: "ixgbe_find_vlvf_slot hw vlan False = Inr s" using room_find [OF assms(2)] .
  obtain st hw' where r: "ixgbe_set_vfta_generic hw vlan vind on False = (st, hw')" by fastforce
  have u: "vlan_updated hw hw' s vlan (unat vind) on"
    using set_vfta_slot [OF _ assms(3,4) _ s r] assms(1) by (simp add: vlan_ok_def)
  have "s < 64" "vlan = 0 \<or> 0 < s"
    using find_slot_for [OF s] by (auto simp: slot_for_def slot_has_def split: if_splits)
  with u r show ?thesis
    by (auto simp: vlvf_room_def vlan_updated_def intro!: exI [of _ s])
qed

interpretation vlvf: vlan_filter vlan_ok vlvf_room "\<lambda>vlan vind. vlan \<le> 4095 \<and> vind < (64 :: u32)"
  "\<lambda>hw vlan vind. vlan_pool hw vlan (unat vind)"
  "\<lambda>hw vlan vind on. snd (ixgbe_set_vfta_generic hw vlan vind on False)"
proof
  fix hw vlan vind on
  assume "vlan_ok hw"
  then show "vlan_ok (snd (ixgbe_set_vfta_generic hw vlan vind on False))" by (rule set_vfta_keeps)
next
  fix hw and vlan w vind q :: u32 and on
  assume a: "vlan_ok hw" "vlvf_room hw vlan" "vlan \<le> 4095 \<and> vind < 64" "w \<le> 4095 \<and> q < 64"
  obtain st hw' where r: "ixgbe_set_vfta_generic hw vlan vind on False = (st, hw')" by fastforce
  obtain s where s: "ixgbe_find_vlvf_slot hw vlan False = Inr s" using room_find [OF a(2)] .
  have "vlan_updated hw hw' s vlan (unat vind) on"
    using set_vfta_slot [OF _ _ _ _ s r] a(1,3) by (simp add: vlan_ok_def)
  moreover have "unat q < 64" using a(4) by (simp add: word_less_nat_alt)
  ultimately show "vlan_pool (snd (ixgbe_set_vfta_generic hw vlan vind on False)) w (unat q) =
    (if w = vlan \<and> q = vind then on else vlan_pool hw w (unat q))"
    using vlan_updated_pools [where P = "{..<64}", OF _ find_slot_for [OF s]] a r by (simp add: vlan_ok_def word_unat_eq_iff)
next
  fix hw and vlan vind :: u32 and on
  assume "vlan_ok hw" "vlvf_room hw vlan" "vlan \<le> 4095 \<and> vind < 64"
  then show "vlvf_room (snd (ixgbe_set_vfta_generic hw vlan vind on False)) vlan"
    by (simp add: change_keeps_room)
qed

text \<open>
  C11. After any sequence of requests to join or leave one VLAN, a pool belongs to that VLAN exactly
  when its last request was to join, or it made none and belonged before; other VLANs keep their
  pools.
\<close>

lemma vlan_requests_replay:
  assumes "vlan_ok hw" "vlvf_room hw vlan" "vlan \<le> 4095" "\<forall>(vind, on) \<in> set reqs. vind < 64"
    and "w \<le> 4095" "q < 64"
  shows "vlan_pool (fold (\<lambda>(vind, on) hw. snd (ixgbe_set_vfta_generic hw vlan vind on False)) reqs hw) w (unat q) \<longleftrightarrow>
    (if w \<noteq> vlan then vlan_pool hw w (unat q)
     else case map_of (rev reqs) q of None \<Rightarrow> vlan_pool hw vlan (unat q) | Some on \<Rightarrow> on)"
  using assms by (intro vlvf.replay) auto

section \<open>Examples\<close>

text \<open>An adapter in virtualisation mode with empty filters.\<close>

definition hw_vt :: ixgbe_hw where
  "hw_vt = hw_reset\<lparr>regs := (\<lambda>r. if r = IXGBE_VT_CTL then 1 else 0)\<rparr>"

lemma hw_vt_reads [simp]:
  "IXGBE_READ_REG hw_vt r = (if r = IXGBE_VT_CTL then 1 else 0)"
  "\<not> hw_removed hw_vt" "mac hw_vt = mac hw_reset"
  by (simp_all add: hw_vt_def hw_reset_def IXGBE_READ_REG_def IXGBE_REMOVED_def)

lemma hw_vt_ok: "vlan_ok hw_vt" "vlan_inv hw_vt" "vt_enabled hw_vt"
  by (auto simp: vlan_ok_def vlan_inv_on_def vt_enabled_def slot_pool_def vlan_pool_def)

lemma hw_vt_room: "vlvf_room hw_vt vlan"
  by (auto simp: vlvf_room_def intro!: exI [of _ 1])

lemma set_vfta_correct_witness:
  "vlan_pool (snd (ixgbe_set_vfta_generic hw_vt 100 5 True False)) 100 5 \<and>
   vfta_on (snd (ixgbe_set_vfta_generic hw_vt 100 5 True False)) 100"
  using set_vfta_correct [OF hw_vt_reads(2) hw_vt_ok(2,3) _ _ hw_vt_room, of 100 5 True
      "fst (ixgbe_set_vfta_generic hw_vt 100 5 True False)"
      "snd (ixgbe_set_vfta_generic hw_vt 100 5 True False)"] by simp

lemma vlan_reachable_invariant_witness:
  "vlan_inv (snd (ixgbe_set_vfta_generic (snd (ixgbe_clear_vfta_generic hw_vt)) 100 5 True False))"
  using vlan_reachable_invariant [OF vlan_reachable.set [OF vlan_reachable.start [OF hw_vt_reads(2) hw_vt_ok(3)]]]
  by simp

lemma vlan_requests_replay_witness:
  "vlan_pool (fold (\<lambda>(vind, on) hw. snd (ixgbe_set_vfta_generic hw 7 vind on False))
     [(1, True), (2, True), (1, False)] hw_vt) 7 2 \<and>
   \<not> vlan_pool (fold (\<lambda>(vind, on) hw. snd (ixgbe_set_vfta_generic hw 7 vind on False))
     [(1, True), (2, True), (1, False)] hw_vt) 7 1"
  using vlan_requests_replay [OF hw_vt_ok(1) hw_vt_room, of 7 "[(1, True), (2, True), (1, False)]" 7 2]
    vlan_requests_replay [OF hw_vt_ok(1) hw_vt_room, of 7 "[(1, True), (2, True), (1, False)]" 7 1]
  by simp

definition hw_vt_full :: ixgbe_hw where
  "hw_vt_full = hw_reset\<lparr>regs := (\<lambda>r. case r of RxReg VT_CTL \<Rightarrow> 1
     | RxReg (VLVF i) \<Rightarrow> of_nat i OR IXGBE_VLVF_VIEN | _ \<Rightarrow> 0)\<rparr>"

lemma set_vfta_no_space_witness:
  "ixgbe_set_vfta_generic hw_vt_full 100 5 True False = (IXGBE_ERR_NO_SPACE, hw_vt_full)"
proof -
  have r: "IXGBE_READ_REG hw_vt_full IXGBE_VT_CTL = 1"
    "IXGBE_READ_REG hw_vt_full (IXGBE_VLVF i) = of_nat i OR IXGBE_VLVF_VIEN" for i
    by (simp_all add: hw_vt_full_def hw_reset_def IXGBE_READ_REG_def IXGBE_REMOVED_def)
  have "(of_nat i :: u32) OR IXGBE_VLVF_VIEN \<noteq> 100 OR IXGBE_VLVF_VIEN" if "i < 64" for i
  proof
    have small: "unat (of_nat i :: u32) = i" using that by (simp add: unat_of_nat)
    assume "(of_nat i :: u32) OR IXGBE_VLVF_VIEN = 100 OR IXGBE_VLVF_VIEN"
    then have "(of_nat i :: u32) = 100"
      by (rule vien_inject [rotated 2]) (use small that in \<open>simp_all add: word_le_nat_alt\<close>)
    with small that show False by auto
  qed
  then have "\<not> vlvf_room hw_vt_full 100" by (auto simp: vlvf_room_def r vien_neq_0)
  then show ?thesis by (intro set_vfta_no_space) (simp_all add: vt_enabled_def r)
qed

end
