(* ===== verification/Ixgbe_Mta.thy ===== *)
theory Ixgbe_Mta
  imports Ixgbe_Hw
begin

text \<open>
  The multicast filter (\<open>ixgbe_common.c\<close>): a table of 4096 bits (MTA) indexed by 12 bits of
  the address, kept in the shadow \<open>hw->mac.mta_shadow\<close> and copied to the registers.  The
  lemmas say which addresses the table admits.  The iterator \<open>next\<close> is the list of the
  addresses it yields.
\<close>

unbundle bit_operations_syntax

abbreviation IXGBE_MCSTCTRL_MFE :: u32 where
  "IXGBE_MCSTCTRL_MFE \<equiv> 0x4"

section \<open>Operations\<close>

text \<open>The default branch meets \<open>ASSERT(0)\<close>, which expands to nothing unless \<open>DBG\<close> is
  defined; the vector is then 0.\<close>

definition ixgbe_mta_vector :: "ixgbe_hw \<Rightarrow> u8 list \<Rightarrow> u32" where
  "ixgbe_mta_vector hw mc_addr =
     (let a4 = ucast (mc_addr ! 4) :: u32;
          a5 = ucast (mc_addr ! 5) :: u32;
          vector =
            (if mc_filter_type (mac hw) = 0 then drop_bit 4 a4 OR push_bit 4 a5
             else if mc_filter_type (mac hw) = 1 then drop_bit 3 a4 OR push_bit 5 a5
             else if mc_filter_type (mac hw) = 2 then drop_bit 2 a4 OR push_bit 6 a5
             else if mc_filter_type (mac hw) = 3 then a4 OR push_bit 8 a5
             else 0)
      in vector AND 0xFFF)"

definition ixgbe_set_mta :: "ixgbe_hw \<Rightarrow> u8 list \<Rightarrow> ixgbe_hw" where
  "ixgbe_set_mta hw mc_addr =
     (let hw = hw\<lparr>addr_ctrl := (addr_ctrl hw)\<lparr>mta_in_use := mta_in_use (addr_ctrl hw) + 1\<rparr>\<rparr>;
          vector = ixgbe_mta_vector hw mc_addr;
          vector_reg = unat (drop_bit 5 vector AND 0x7F);
          vector_bit = unat (vector AND 0x1F);
          shadow = mta_shadow (mac hw)
      in hw\<lparr>mac := (mac hw)\<lparr>mta_shadow :=
           shadow[vector_reg := (shadow ! vector_reg) OR BIT vector_bit]\<rparr>\<rparr>)"

definition ixgbe_update_mc_addr_list_generic ::
  "ixgbe_hw \<Rightarrow> u8 list list \<Rightarrow> bool \<Rightarrow> ixgbe_status \<times> ixgbe_hw" where
  "ixgbe_update_mc_addr_list_generic hw mc_addrs clear =
     (let hw = hw\<lparr>addr_ctrl := (addr_ctrl hw)
                 \<lparr>num_mc_addrs := of_nat (length mc_addrs), mta_in_use := 0\<rparr>\<rparr>;
          hw = (if clear
                then hw\<lparr>mac := (mac hw)\<lparr>mta_shadow := replicate (length (mta_shadow (mac hw))) 0\<rparr>\<rparr>
                else hw);
          hw = fold (\<lambda>mc_addr hw. ixgbe_set_mta hw mc_addr) mc_addrs hw;
          shadow = mta_shadow (mac hw);
          hw = for_upto 0 (unat (mcft_size (mac hw)))
                 (\<lambda>i hw. IXGBE_WRITE_REG hw (IXGBE_MTA i) (shadow ! i)) hw
      in (IXGBE_SUCCESS,
          if mta_in_use (addr_ctrl hw) > 0
          then IXGBE_WRITE_REG hw IXGBE_MCSTCTRL
                 (IXGBE_MCSTCTRL_MFE OR word_of_int (mc_filter_type (mac hw)))
          else hw))"

definition ixgbe_enable_mc_generic :: "ixgbe_hw \<Rightarrow> ixgbe_status \<times> ixgbe_hw" where
  "ixgbe_enable_mc_generic hw =
     (IXGBE_SUCCESS,
      if mta_in_use (addr_ctrl hw) > 0
      then IXGBE_WRITE_REG hw IXGBE_MCSTCTRL
             (IXGBE_MCSTCTRL_MFE OR word_of_int (mc_filter_type (mac hw)))
      else hw)"

definition ixgbe_disable_mc_generic :: "ixgbe_hw \<Rightarrow> ixgbe_status \<times> ixgbe_hw" where
  "ixgbe_disable_mc_generic hw =
     (IXGBE_SUCCESS,
      if mta_in_use (addr_ctrl hw) > 0
      then IXGBE_WRITE_REG hw IXGBE_MCSTCTRL (word_of_int (mc_filter_type (mac hw)))
      else hw)"

section \<open>Abstract view\<close>

text \<open>The hash of an address, and whether the shadow and the registers admit a hash value.\<close>

definition mta_hash :: "ixgbe_hw \<Rightarrow> u8 list \<Rightarrow> nat" where
  "mta_hash hw a = unat (ixgbe_mta_vector hw a)"

definition shadow_bit :: "ixgbe_hw \<Rightarrow> nat \<Rightarrow> bool" where
  "shadow_bit hw v \<longleftrightarrow> bit (mta_shadow (mac hw) ! (v div 32)) (v mod 32)"

definition mta_bit :: "ixgbe_hw \<Rightarrow> nat \<Rightarrow> bool" where
  "mta_bit hw v \<longleftrightarrow> bit (IXGBE_READ_REG hw (IXGBE_MTA (v div 32))) (v mod 32)"

section \<open>Lemmas\<close>

lemma mta_vector_bound: "ixgbe_mta_vector hw a < 0x1000"
proof -
  have "x AND 0xFFF < 0x1000" for x :: u32
    using and_mask_less' [of 12 x] by (simp add: mask_eq_exp_minus_1)
  then show ?thesis by (simp add: ixgbe_mta_vector_def Let_def)
qed

lemma mta_hash_bound: "mta_hash hw a < 4096"
  using mta_vector_bound [of hw a] by (simp add: mta_hash_def word_less_nat_alt)

lemma mta_vector_split:
  "unat (drop_bit 5 (ixgbe_mta_vector hw a) AND 0x7F) = mta_hash hw a div 32"
  "unat (ixgbe_mta_vector hw a AND 0x1F) = mta_hash hw a mod 32"
proof -
  have m: "(0x7F :: u32) = mask 7" "(0x1F :: u32) = mask 5" by (simp_all add: mask_eq_exp_minus_1)
  show "unat (ixgbe_mta_vector hw a AND 0x1F) = mta_hash hw a mod 32"
    unfolding m mta_hash_def take_bit_eq_mask [symmetric]
    by (simp add: unsigned_take_bit_eq take_bit_eq_mod unat_mod)
  have "mta_hash hw a div 32 < 128"
    using mta_hash_bound [of hw a] by (simp add: div_less_iff_less_mult)
  then show "unat (drop_bit 5 (ixgbe_mta_vector hw a) AND 0x7F) = mta_hash hw a div 32"
    unfolding m mta_hash_def take_bit_eq_mask [symmetric]
    by (simp add: unsigned_take_bit_eq unsigned_drop_bit_eq drop_bit_eq_div take_bit_eq_mod unat_mod unat_div)
qed

lemma mta_vector_cong:
  assumes "mc_filter_type (mac hw) = mc_filter_type (mac hw')"
  shows "ixgbe_mta_vector hw a = ixgbe_mta_vector hw' a"
  unfolding ixgbe_mta_vector_def assms ..

lemma mta_hash_cong:
  "mc_filter_type (mac hw) = mc_filter_type (mac hw') \<Longrightarrow> mta_hash hw = mta_hash hw'"
  using mta_vector_cong [of hw hw'] by (simp add: mta_hash_def fun_eq_iff)

lemma set_mta_effect:
  assumes "length (mta_shadow (mac hw)) = 128"
  shows "v < 4096 \<Longrightarrow> shadow_bit (ixgbe_set_mta hw a) v \<longleftrightarrow> shadow_bit hw v \<or> v = mta_hash hw a"
    and "length (mta_shadow (mac (ixgbe_set_mta hw a))) = 128"
    and "mc_filter_type (mac (ixgbe_set_mta hw a)) = mc_filter_type (mac hw)"
    and "mcft_size (mac (ixgbe_set_mta hw a)) = mcft_size (mac hw)"
    and "hw_removed (ixgbe_set_mta hw a) = hw_removed hw"
    and "mta_in_use (addr_ctrl (ixgbe_set_mta hw a)) = mta_in_use (addr_ctrl hw) + 1"
proof -
  have vec: "ixgbe_mta_vector (hw\<lparr>addr_ctrl := c\<rparr>) a = ixgbe_mta_vector hw a" for c
    by (rule mta_vector_cong) simp
  let ?h = "mta_hash hw a"
  have eq: "ixgbe_set_mta hw a = hw\<lparr>addr_ctrl := (addr_ctrl hw)\<lparr>mta_in_use := mta_in_use (addr_ctrl hw) + 1\<rparr>,
     mac := (mac hw)\<lparr>mta_shadow := (mta_shadow (mac hw))[?h div 32 := mta_shadow (mac hw) ! (?h div 32) OR BIT (?h mod 32)]\<rparr>\<rparr>"
    by (simp add: ixgbe_set_mta_def Let_def mta_vector_split mta_hash_def vec)
  show "length (mta_shadow (mac (ixgbe_set_mta hw a))) = 128"
    and "mc_filter_type (mac (ixgbe_set_mta hw a)) = mc_filter_type (mac hw)"
    and "mcft_size (mac (ixgbe_set_mta hw a)) = mcft_size (mac hw)"
    and "hw_removed (ixgbe_set_mta hw a) = hw_removed hw"
    and "mta_in_use (addr_ctrl (ixgbe_set_mta hw a)) = mta_in_use (addr_ctrl hw) + 1"
    using assms by (simp_all add: eq)
  have h: "?h div 32 < 128"
    using mta_hash_bound [of hw a] by (simp add: div_less_iff_less_mult)
  have "v = ?h \<longleftrightarrow> v div 32 = ?h div 32 \<and> v mod 32 = ?h mod 32" for v
    by (metis div_mult_mod_eq)
  then show "shadow_bit (ixgbe_set_mta hw a) v \<longleftrightarrow> shadow_bit hw v \<or> v = ?h" if "v < 4096"
    using h assms by (auto simp: shadow_bit_def eq nth_list_update bitw)
qed

lemma set_mtas_effect:
  assumes "length (mta_shadow (mac hw)) = 128" "hw' = fold (\<lambda>a hw. ixgbe_set_mta hw a) addrs hw"
  shows "(\<forall>v < 4096. shadow_bit hw' v \<longleftrightarrow> shadow_bit hw v \<or> v \<in> mta_hash hw ` set addrs) \<and>
    length (mta_shadow (mac hw')) = 128 \<and> mc_filter_type (mac hw') = mc_filter_type (mac hw) \<and>
    mcft_size (mac hw') = mcft_size (mac hw) \<and> hw_removed hw' = hw_removed hw \<and>
    mta_in_use (addr_ctrl hw') = mta_in_use (addr_ctrl hw) + of_nat (length addrs)"
  using assms
proof (induction addrs arbitrary: hw)
  case Nil
  then show ?case by simp
next
  case (Cons a addrs)
  note e = set_mta_effect [OF Cons.prems(1), where a = a]
  have "mta_hash (ixgbe_set_mta hw a) = mta_hash hw" using e(3) by (rule mta_hash_cong)
  with Cons.IH [OF e(2)] Cons.prems(2) e show ?case by (auto simp: algebra_simps)
qed

lemma write_table_read:
  assumes "\<not> hw_removed hw"
  shows "IXGBE_READ_REG (for_upto 0 n (\<lambda>i hw. IXGBE_WRITE_REG hw (IXGBE_MTA i) (t ! i)) hw) (IXGBE_MTA j) =
    (if j < n then t ! j else IXGBE_READ_REG hw (IXGBE_MTA j))"
  using assms by (induction n) (auto simp: less_Suc_eq)

text \<open>
  C16. After the multicast list is updated, the hardware table has exactly the bits of the hashes of
  the listed addresses (together with the old ones unless the caller asked to clear), so every
  listed address passes and an address passes only if it shares its 12 hash bits with a listed one.
  The table is a copy of the shadow, and the filter is enabled when the list is not empty.
\<close>

lemma update_mc_addr_list_correct:
  assumes "\<not> hw_removed hw" "length (mta_shadow (mac hw)) = 128" "mcft_size (mac hw) = 128"
    and "0 < length addrs" "length addrs < 2 ^ 32"
    and "ixgbe_update_mc_addr_list_generic hw addrs clear = (st, hw')"
  shows "st = IXGBE_SUCCESS \<and>
    (\<forall>v < 4096. mta_bit hw' v = shadow_bit hw' v \<and>
       (mta_bit hw' v \<longleftrightarrow> v \<in> mta_hash hw ` set addrs \<or> \<not> clear \<and> shadow_bit hw v)) \<and>
    IXGBE_READ_REG hw' IXGBE_MCSTCTRL = IXGBE_MCSTCTRL_MFE OR word_of_int (mc_filter_type (mac hw))"
proof -
  define hw1 where "hw1 = hw\<lparr>addr_ctrl := (addr_ctrl hw)\<lparr>num_mc_addrs := of_nat (length addrs), mta_in_use := 0\<rparr>\<rparr>"
  define hw2 where "hw2 = (if clear
    then hw1\<lparr>mac := (mac hw1)\<lparr>mta_shadow := replicate (length (mta_shadow (mac hw1))) 0\<rparr>\<rparr> else hw1)"
  define hw3 where "hw3 = fold (\<lambda>a hw. ixgbe_set_mta hw a) addrs hw2"
  define hw4 where "hw4 = for_upto 0 (unat (mcft_size (mac hw3)))
    (\<lambda>i hw. IXGBE_WRITE_REG hw (IXGBE_MTA i) (mta_shadow (mac hw3) ! i)) hw3"
  have 2: "length (mta_shadow (mac hw2)) = 128" "mc_filter_type (mac hw2) = mc_filter_type (mac hw)"
    "mcft_size (mac hw2) = 128" "\<not> hw_removed hw2" "mta_in_use (addr_ctrl hw2) = 0"
    using assms(1-3) by (simp_all add: hw2_def hw1_def)
  have shadow2: "shadow_bit hw2 v \<longleftrightarrow> \<not> clear \<and> shadow_bit hw v" if "v < 4096" for v
    using that assms(2) by (auto simp: shadow_bit_def hw2_def hw1_def div_less_iff_less_mult)
  note 3 = set_mtas_effect [OF 2(1) hw3_def]
  have hash: "mta_hash hw2 = mta_hash hw" using 2(2) by (rule mta_hash_cong)
  have used: "mta_in_use (addr_ctrl hw3) > 0"
    using 3 2(5) assms(4,5) word_of_nat_0_small [of "length addrs"] by (simp add: word_gt_0)
  have hw': "st = IXGBE_SUCCESS"
    "hw' = IXGBE_WRITE_REG hw4 IXGBE_MCSTCTRL (IXGBE_MCSTCTRL_MFE OR word_of_int (mc_filter_type (mac hw)))"
    using assms(6) used 3 2(2)
    unfolding ixgbe_update_mc_addr_list_generic_def Let_def hw1_def [symmetric] hw2_def [symmetric]
      hw3_def [symmetric] hw4_def [symmetric]
    by (simp_all add: hw4_def)
  have nr: "\<not> hw_removed hw4" "mac hw4 = mac hw3" using 3 2(4) by (simp_all add: hw4_def)
  have tab: "IXGBE_READ_REG hw' (IXGBE_MTA j) = mta_shadow (mac hw3) ! j" if "j < 128" for j
    using that 3 2 write_table_read [where hw = hw3 and n = 128] by (simp add: hw' hw4_def)
  have "mta_bit hw' v = shadow_bit hw3 v" "shadow_bit hw' v = shadow_bit hw3 v" if "v < 4096" for v
    using that tab [of "v div 32"] nr(2) by (simp_all add: mta_bit_def shadow_bit_def hw' div_less_iff_less_mult)
  moreover have "shadow_bit hw3 v \<longleftrightarrow> v \<in> mta_hash hw ` set addrs \<or> \<not> clear \<and> shadow_bit hw v" if "v < 4096" for v
    using 3 that shadow2 [OF that] hash by auto
  ultimately show ?thesis
    using hw' nr(1) by simp
qed

lemma update_mc_addr_list_correct_witness:
  "mta_bit (snd (ixgbe_update_mc_addr_list_generic hw_reset [[0x01, 0, 0x5E, 0, 0, 0xFB]] True))
     (mta_hash hw_reset [0x01, 0, 0x5E, 0, 0, 0xFB])"
proof -
  let ?a = "[0x01, 0, 0x5E, 0, 0, 0xFB] :: u8 list"
  let ?r = "ixgbe_update_mc_addr_list_generic hw_reset [?a] True"
  have "length (mta_shadow (mac hw_reset)) = 128" by (simp add: hw_reset_def)
  then have c: "fst ?r = IXGBE_SUCCESS \<and>
    (\<forall>v < 4096. mta_bit (snd ?r) v = shadow_bit (snd ?r) v \<and>
       (mta_bit (snd ?r) v \<longleftrightarrow> v \<in> mta_hash hw_reset ` set [?a] \<or> \<not> True \<and> shadow_bit hw_reset v)) \<and>
    IXGBE_READ_REG (snd ?r) IXGBE_MCSTCTRL =
      IXGBE_MCSTCTRL_MFE OR word_of_int (mc_filter_type (mac hw_reset))"
    by (intro update_mc_addr_list_correct) simp_all
  from c [THEN conjunct2, THEN conjunct1, rule_format, OF mta_hash_bound, of hw_reset ?a]
  show ?thesis by (metis image_eqI list.set_intros(1))
qed

end
