(* ===== verification/Ixgbe_FlowControl.thy ===== *)
theory Ixgbe_FlowControl
  imports Ixgbe_Hw
begin

text \<open>
  Link flow control (\<open>ixgbe_common.c\<close>): what is advertised to the link partner, how the
  mode is negotiated from both advertisements, and how the mode is programmed.  The code calls
  through function pointers; they are the record \<open>fc_ops\<close>, an argument of the definitions.
  The lemmas compare the negotiation with the pause resolution table of IEEE 802.3 and show that
  two ends that both run it agree.
\<close>

unbundle bit_operations_syntax

section \<open>Constants\<close>

abbreviation IXGBE_LINK_SPEED_1GB_FULL :: u32 where
  "IXGBE_LINK_SPEED_1GB_FULL \<equiv> 0x0020"
abbreviation IXGBE_PCS1GANA_SYM_PAUSE :: u32 where
  "IXGBE_PCS1GANA_SYM_PAUSE \<equiv> 0x80"
abbreviation IXGBE_PCS1GANA_ASM_PAUSE :: u32 where
  "IXGBE_PCS1GANA_ASM_PAUSE \<equiv> 0x100"
abbreviation IXGBE_AUTOC_SYM_PAUSE :: u32 where
  "IXGBE_AUTOC_SYM_PAUSE \<equiv> 0x10000000"
abbreviation IXGBE_AUTOC_ASM_PAUSE :: u32 where
  "IXGBE_AUTOC_ASM_PAUSE \<equiv> 0x20000000"
abbreviation IXGBE_AUTOC_AN_RESTART :: u32 where
  "IXGBE_AUTOC_AN_RESTART \<equiv> 0x00001000"
abbreviation IXGBE_ANLP1_SYM_PAUSE :: u32 where
  "IXGBE_ANLP1_SYM_PAUSE \<equiv> 0x0400"
abbreviation IXGBE_ANLP1_ASM_PAUSE :: u32 where
  "IXGBE_ANLP1_ASM_PAUSE \<equiv> 0x0800"
abbreviation IXGBE_TAF_SYM_PAUSE :: u32 where
  "IXGBE_TAF_SYM_PAUSE \<equiv> 0x400"
abbreviation IXGBE_TAF_ASM_PAUSE :: u32 where
  "IXGBE_TAF_ASM_PAUSE \<equiv> 0x800"
abbreviation IXGBE_PCS1GLCTL_AN_1G_TIMEOUT_EN :: u32 where
  "IXGBE_PCS1GLCTL_AN_1G_TIMEOUT_EN \<equiv> 0x00040000"
abbreviation IXGBE_PCS1GLSTA_AN_COMPLETE :: u32 where
  "IXGBE_PCS1GLSTA_AN_COMPLETE \<equiv> 0x10000"
abbreviation IXGBE_PCS1GLSTA_AN_TIMED_OUT :: u32 where
  "IXGBE_PCS1GLSTA_AN_TIMED_OUT \<equiv> 0x40000"
abbreviation IXGBE_LINKS_KX_AN_COMP :: u32 where
  "IXGBE_LINKS_KX_AN_COMP \<equiv> 0x80000000"
abbreviation IXGBE_LINKS2_AN_SUPPORTED :: u32 where
  "IXGBE_LINKS2_AN_SUPPORTED \<equiv> 0x00000040"
abbreviation IXGBE_MFLCN_DPF :: u32 where
  "IXGBE_MFLCN_DPF \<equiv> 0x00000002"
abbreviation IXGBE_MFLCN_RFCE :: u32 where
  "IXGBE_MFLCN_RFCE \<equiv> 0x00000008"
abbreviation IXGBE_MFLCN_RPFCE_MASK :: u32 where
  "IXGBE_MFLCN_RPFCE_MASK \<equiv> 0x00000FF4"
abbreviation IXGBE_FCCFG_TFCE_802_3X :: u32 where
  "IXGBE_FCCFG_TFCE_802_3X \<equiv> 0x00000008"
abbreviation IXGBE_FCCFG_TFCE_PRIORITY :: u32 where
  "IXGBE_FCCFG_TFCE_PRIORITY \<equiv> 0x00000010"
abbreviation IXGBE_FCRTL_XONE :: u32 where
  "IXGBE_FCRTL_XONE \<equiv> 0x80000000"
abbreviation IXGBE_FCRTH_FCEN :: u32 where
  "IXGBE_FCRTH_FCEN \<equiv> 0x80000000"
abbreviation IXGBE_MDIO_AUTO_NEG_ADVT :: u32 where
  "IXGBE_MDIO_AUTO_NEG_ADVT \<equiv> 0x10"
abbreviation IXGBE_MDIO_AUTO_NEG_LP :: u32 where
  "IXGBE_MDIO_AUTO_NEG_LP \<equiv> 0x13"
abbreviation IXGBE_MDIO_AUTO_NEG_DEV_TYPE :: u32 where
  "IXGBE_MDIO_AUTO_NEG_DEV_TYPE \<equiv> 0x7"
abbreviation IXGBE_DCB_MAX_TRAFFIC_CLASS :: nat where
  "IXGBE_DCB_MAX_TRAFFIC_CLASS \<equiv> 8"

section \<open>Operations\<close>

text \<open>
  The entries of \<open>hw->mac.ops\<close> and \<open>hw->phy.ops\<close> that flow control calls.
  \<open>read_phy_reg\<close> gives \<open>None\<close> when the read fails: the caller's variable is then
  unchanged.
\<close>

record fc_ops =
  check_link :: "ixgbe_hw \<Rightarrow> u32 \<times> bool \<times> ixgbe_hw"
  prot_autoc_read :: "ixgbe_hw \<Rightarrow> ixgbe_status \<times> bool \<times> u32 \<times> ixgbe_hw"
  prot_autoc_write :: "ixgbe_hw \<Rightarrow> u32 \<Rightarrow> bool \<Rightarrow> ixgbe_status \<times> ixgbe_hw"
  read_phy_reg :: "ixgbe_hw \<Rightarrow> u32 \<Rightarrow> u32 \<Rightarrow> u16 option \<times> ixgbe_hw"
  write_phy_reg :: "ixgbe_hw \<Rightarrow> u32 \<Rightarrow> u32 \<Rightarrow> u16 \<Rightarrow> ixgbe_hw"

definition fc_autoneg_blocked_fiber :: "u16 \<Rightarrow> bool" where
  "fc_autoneg_blocked_fiber dev \<longleftrightarrow> dev \<in> {0x15CE, 0x15C4, 0x15CA, 0x15CC, 0x57AF}"

definition fc_autoneg_copper_devices :: "u16 \<Rightarrow> bool" where
  "fc_autoneg_copper_devices dev \<longleftrightarrow>
     dev \<in> {0x151C, 0x1528, 0x1560, 0x1563, 0x15D1, 0x15AD, 0x15C8, 0x15E4, 0x15E5, 0x57B0, 0x57B1}"

definition ixgbe_device_supports_autoneg_fc :: "fc_ops \<Rightarrow> ixgbe_hw \<Rightarrow> bool \<times> ixgbe_hw" where
  "ixgbe_device_supports_autoneg_fc ops hw =
     (case media_type hw of
        ixgbe_media_type_fiber_qsfp \<Rightarrow>
          if fc_autoneg_blocked_fiber (device_id hw) then (False, hw)
          else let (speed, link_up, hw) = check_link ops hw
               in (if link_up then speed = IXGBE_LINK_SPEED_1GB_FULL else True, hw)
      | ixgbe_media_type_fiber \<Rightarrow>
          if fc_autoneg_blocked_fiber (device_id hw) then (False, hw)
          else let (speed, link_up, hw) = check_link ops hw
               in (if link_up then speed = IXGBE_LINK_SPEED_1GB_FULL else True, hw)
      | ixgbe_media_type_backplane \<Rightarrow> (device_id hw \<noteq> 0x15B0, hw)
      | ixgbe_media_type_copper \<Rightarrow> (fc_autoneg_copper_devices (device_id hw), hw)
      | _ \<Rightarrow> (False, hw))"

text \<open>
  One advertisement register after the switch over the requested mode: symmetric and asymmetric
  pause bits as the mode asks.  \<open>None\<close> is the default branch.
\<close>

definition fc_advert :: "ixgbe_fc_mode \<Rightarrow> u32 \<Rightarrow> u32 \<Rightarrow> u32 \<Rightarrow> u32 option" where
  "fc_advert mode sym_bit asm_bit reg =
     (case mode of
        ixgbe_fc_none \<Rightarrow> Some (reg AND NOT (sym_bit OR asm_bit))
      | ixgbe_fc_tx_pause \<Rightarrow> Some ((reg OR asm_bit) AND NOT sym_bit)
      | ixgbe_fc_rx_pause \<Rightarrow> Some (reg OR (sym_bit OR asm_bit))
      | ixgbe_fc_full \<Rightarrow> Some (reg OR (sym_bit OR asm_bit))
      | _ \<Rightarrow> None)"

text \<open>The registers read before the switch: \<open>reg\<close>, \<open>reg_bp\<close> with the lock flag, \<open>reg_cu\<close>.\<close>

definition setup_fc_read :: "fc_ops \<Rightarrow> ixgbe_hw \<Rightarrow> ixgbe_status \<times> (u32 \<times> u32 \<times> bool \<times> u16) \<times> ixgbe_hw" where
  "setup_fc_read ops hw =
     (case media_type hw of
        ixgbe_media_type_backplane \<Rightarrow>
          let (ret_val, locked, reg_bp, hw) = prot_autoc_read ops hw
          in if ret_val \<noteq> IXGBE_SUCCESS then (ret_val, (0, reg_bp, locked, 0), hw)
             else (IXGBE_SUCCESS, (IXGBE_READ_REG hw IXGBE_PCS1GANA, reg_bp, locked, 0), hw)
      | ixgbe_media_type_fiber_qsfp \<Rightarrow>
          (IXGBE_SUCCESS, (IXGBE_READ_REG hw IXGBE_PCS1GANA, 0, False, 0), hw)
      | ixgbe_media_type_fiber \<Rightarrow>
          (IXGBE_SUCCESS, (IXGBE_READ_REG hw IXGBE_PCS1GANA, 0, False, 0), hw)
      | ixgbe_media_type_copper \<Rightarrow>
          let (v, hw) = read_phy_reg ops hw IXGBE_MDIO_AUTO_NEG_ADVT IXGBE_MDIO_AUTO_NEG_DEV_TYPE
          in (IXGBE_SUCCESS, (0, 0, False, case v of None \<Rightarrow> 0 | Some x \<Rightarrow> x), hw)
      | _ \<Rightarrow> (IXGBE_SUCCESS, (0, 0, False, 0), hw))"

definition ixgbe_setup_fc_generic :: "fc_ops \<Rightarrow> ixgbe_hw \<Rightarrow> ixgbe_status \<times> ixgbe_hw" where
  "ixgbe_setup_fc_generic ops hw =
     (if strict_ieee (fc hw) \<and> requested_mode (fc hw) = ixgbe_fc_rx_pause
      then (IXGBE_ERR_INVALID_LINK_SETTINGS, hw)
      else
        let hw = (if requested_mode (fc hw) = ixgbe_fc_default
                  then hw\<lparr>fc := (fc hw)\<lparr>requested_mode := ixgbe_fc_full\<rparr>\<rparr> else hw);
            (ret_val, (reg, reg_bp, locked, reg_cu), hw) = setup_fc_read ops hw
        in if ret_val \<noteq> IXGBE_SUCCESS then (ret_val, hw)
           else
             let mode = requested_mode (fc hw) in
             case fc_advert mode IXGBE_PCS1GANA_SYM_PAUSE IXGBE_PCS1GANA_ASM_PAUSE reg of
               None \<Rightarrow> (IXGBE_ERR_CONFIG, hw)
             | Some reg \<Rightarrow>
                 let reg_bp = (if media_type hw = ixgbe_media_type_backplane
                       then the (fc_advert mode IXGBE_AUTOC_SYM_PAUSE IXGBE_AUTOC_ASM_PAUSE reg_bp)
                       else reg_bp);
                     reg_cu = (if media_type hw = ixgbe_media_type_copper
                       then ucast (the (fc_advert mode IXGBE_TAF_SYM_PAUSE IXGBE_TAF_ASM_PAUSE (ucast reg_cu)))
                       else reg_cu) :: u16;
                     hw = (if mac_type_val (mac_type (mac hw)) < mac_type_val ixgbe_mac_X540 then
                         let hw = IXGBE_WRITE_REG hw IXGBE_PCS1GANA reg;
                             reg = IXGBE_READ_REG hw IXGBE_PCS1GLCTL;
                             reg = (if strict_ieee (fc hw)
                                    then reg AND NOT IXGBE_PCS1GLCTL_AN_1G_TIMEOUT_EN else reg)
                         in IXGBE_WRITE_REG hw IXGBE_PCS1GLCTL reg
                       else hw)
                 in if media_type hw = ixgbe_media_type_backplane then
                      prot_autoc_write ops hw (reg_bp OR IXGBE_AUTOC_AN_RESTART) locked
                    else if media_type hw = ixgbe_media_type_copper then
                      let (supported, hw) = ixgbe_device_supports_autoneg_fc ops hw
                      in if supported
                         then (IXGBE_SUCCESS, write_phy_reg ops hw IXGBE_MDIO_AUTO_NEG_ADVT
                                 IXGBE_MDIO_AUTO_NEG_DEV_TYPE reg_cu)
                         else (IXGBE_SUCCESS, hw)
                    else (IXGBE_SUCCESS, hw))"

definition ixgbe_negotiate_fc ::
  "ixgbe_hw \<Rightarrow> u32 \<Rightarrow> u32 \<Rightarrow> u32 \<Rightarrow> u32 \<Rightarrow> u32 \<Rightarrow> u32 \<Rightarrow> ixgbe_status \<times> ixgbe_hw" where
  "ixgbe_negotiate_fc hw adv_reg lp_reg adv_sym adv_asm lp_sym lp_asm =
     (if adv_reg = 0 \<or> lp_reg = 0 then (IXGBE_ERR_FC_NOT_NEGOTIATED, hw)
      else
        let mode =
          (if adv_reg AND adv_sym \<noteq> 0 \<and> lp_reg AND lp_sym \<noteq> 0 then
             if requested_mode (fc hw) = ixgbe_fc_full then ixgbe_fc_full else ixgbe_fc_rx_pause
           else if adv_reg AND adv_sym = 0 \<and> adv_reg AND adv_asm \<noteq> 0 \<and>
                   lp_reg AND lp_sym \<noteq> 0 \<and> lp_reg AND lp_asm \<noteq> 0
           then ixgbe_fc_tx_pause
           else if adv_reg AND adv_sym \<noteq> 0 \<and> adv_reg AND adv_asm \<noteq> 0 \<and>
                   lp_reg AND lp_sym = 0 \<and> lp_reg AND lp_asm \<noteq> 0
           then ixgbe_fc_rx_pause
           else ixgbe_fc_none)
        in (IXGBE_SUCCESS, hw\<lparr>fc := (fc hw)\<lparr>current_mode := mode\<rparr>\<rparr>))"

definition ixgbe_fc_autoneg_fiber :: "ixgbe_hw \<Rightarrow> ixgbe_status \<times> ixgbe_hw" where
  "ixgbe_fc_autoneg_fiber hw =
     (let linkstat = IXGBE_READ_REG hw IXGBE_PCS1GLSTA in
      if linkstat AND IXGBE_PCS1GLSTA_AN_COMPLETE = 0 \<or> linkstat AND IXGBE_PCS1GLSTA_AN_TIMED_OUT \<noteq> 0
      then (IXGBE_ERR_FC_NOT_NEGOTIATED, hw)
      else
        let pcs_anadv_reg = IXGBE_READ_REG hw IXGBE_PCS1GANA;
            pcs_lpab_reg = IXGBE_READ_REG hw IXGBE_PCS1GANLP
        in ixgbe_negotiate_fc hw pcs_anadv_reg pcs_lpab_reg IXGBE_PCS1GANA_SYM_PAUSE
             IXGBE_PCS1GANA_ASM_PAUSE IXGBE_PCS1GANA_SYM_PAUSE IXGBE_PCS1GANA_ASM_PAUSE)"

definition ixgbe_fc_autoneg_backplane :: "ixgbe_hw \<Rightarrow> ixgbe_status \<times> ixgbe_hw" where
  "ixgbe_fc_autoneg_backplane hw =
     (let links = IXGBE_READ_REG hw IXGBE_LINKS in
      if links AND IXGBE_LINKS_KX_AN_COMP = 0 then (IXGBE_ERR_FC_NOT_NEGOTIATED, hw)
      else if mac_type (mac hw) = ixgbe_mac_82599EB \<and>
              IXGBE_READ_REG hw IXGBE_LINKS2 AND IXGBE_LINKS2_AN_SUPPORTED = 0
      then (IXGBE_ERR_FC_NOT_NEGOTIATED, hw)
      else
        let autoc_reg = IXGBE_READ_REG hw IXGBE_AUTOC;
            anlp1_reg = IXGBE_READ_REG hw IXGBE_ANLP1
        in ixgbe_negotiate_fc hw autoc_reg anlp1_reg IXGBE_AUTOC_SYM_PAUSE IXGBE_AUTOC_ASM_PAUSE
             IXGBE_ANLP1_SYM_PAUSE IXGBE_ANLP1_ASM_PAUSE)"

definition ixgbe_fc_autoneg_copper :: "fc_ops \<Rightarrow> ixgbe_hw \<Rightarrow> ixgbe_status \<times> ixgbe_hw" where
  "ixgbe_fc_autoneg_copper ops hw =
     (let (a, hw) = read_phy_reg ops hw IXGBE_MDIO_AUTO_NEG_ADVT IXGBE_MDIO_AUTO_NEG_DEV_TYPE;
          technology_ability_reg = (case a of None \<Rightarrow> 0 | Some x \<Rightarrow> x);
          (l, hw) = read_phy_reg ops hw IXGBE_MDIO_AUTO_NEG_LP IXGBE_MDIO_AUTO_NEG_DEV_TYPE;
          lp_technology_ability_reg = (case l of None \<Rightarrow> 0 | Some x \<Rightarrow> x)
      in ixgbe_negotiate_fc hw (ucast technology_ability_reg) (ucast lp_technology_ability_reg)
           IXGBE_TAF_SYM_PAUSE IXGBE_TAF_ASM_PAUSE IXGBE_TAF_SYM_PAUSE IXGBE_TAF_ASM_PAUSE)"

definition ixgbe_fc_autoneg :: "fc_ops \<Rightarrow> ixgbe_hw \<Rightarrow> ixgbe_hw" where
  "ixgbe_fc_autoneg ops hw =
     (let (ret_val, hw) =
        (if disable_fc_autoneg (fc hw) then (IXGBE_ERR_FC_NOT_NEGOTIATED, hw)
         else
           let (speed, link_up, hw) = check_link ops hw in
           if \<not> link_up then (IXGBE_ERR_FC_NOT_NEGOTIATED, hw)
           else case media_type hw of
               ixgbe_media_type_fiber_qsfp \<Rightarrow>
                 if speed = IXGBE_LINK_SPEED_1GB_FULL then ixgbe_fc_autoneg_fiber hw
                 else (IXGBE_ERR_FC_NOT_NEGOTIATED, hw)
             | ixgbe_media_type_fiber \<Rightarrow>
                 if speed = IXGBE_LINK_SPEED_1GB_FULL then ixgbe_fc_autoneg_fiber hw
                 else (IXGBE_ERR_FC_NOT_NEGOTIATED, hw)
             | ixgbe_media_type_backplane \<Rightarrow> ixgbe_fc_autoneg_backplane hw
             | ixgbe_media_type_copper \<Rightarrow>
                 let (supported, hw) = ixgbe_device_supports_autoneg_fc ops hw
                 in if supported then ixgbe_fc_autoneg_copper ops hw
                    else (IXGBE_ERR_FC_NOT_NEGOTIATED, hw)
             | _ \<Rightarrow> (IXGBE_ERR_FC_NOT_NEGOTIATED, hw))
      in if ret_val = IXGBE_SUCCESS then hw\<lparr>fc := (fc hw)\<lparr>fc_was_autonegged := True\<rparr>\<rparr>
         else hw\<lparr>fc := (fc hw)\<lparr>fc_was_autonegged := False, current_mode := requested_mode (fc hw)\<rparr>\<rparr>)"

text \<open>\<open>mode & ixgbe_fc_tx_pause\<close> on the enumeration's numbers 0 to 5.\<close>

fun fc_mode_tx :: "ixgbe_fc_mode \<Rightarrow> bool" where
  "fc_mode_tx ixgbe_fc_tx_pause = True"
| "fc_mode_tx ixgbe_fc_full = True"
| "fc_mode_tx _ = False"

definition water_marks_bad :: "ixgbe_fc_info \<Rightarrow> nat \<Rightarrow> bool" where
  "water_marks_bad f i \<longleftrightarrow>
     fc_mode_tx (current_mode f) \<and> high_water f ! i \<noteq> 0 \<and>
     (low_water f ! i = 0 \<or> low_water f ! i \<ge> high_water f ! i)"

definition fc_set_thresholds :: "nat \<Rightarrow> ixgbe_hw \<Rightarrow> ixgbe_hw" where
  "fc_set_thresholds i hw =
     (if fc_mode_tx (current_mode (fc hw)) \<and> high_water (fc hw) ! i \<noteq> 0 then
        let hw = IXGBE_WRITE_REG hw (IXGBE_FCRTL_82599 i)
                   (push_bit 10 (low_water (fc hw) ! i) OR IXGBE_FCRTL_XONE)
        in IXGBE_WRITE_REG hw (IXGBE_FCRTH_82599 i)
             (push_bit 10 (high_water (fc hw) ! i) OR IXGBE_FCRTH_FCEN)
      else
        let hw = IXGBE_WRITE_REG hw (IXGBE_FCRTL_82599 i) 0
        in IXGBE_WRITE_REG hw (IXGBE_FCRTH_82599 i)
             (IXGBE_READ_REG hw (IXGBE_RXPBSIZE i) - 24576))"

definition ixgbe_fc_enable_generic :: "fc_ops \<Rightarrow> ixgbe_hw \<Rightarrow> ixgbe_status \<times> ixgbe_hw" where
  "ixgbe_fc_enable_generic ops hw =
     (if pause_time (fc hw) = 0 then (IXGBE_ERR_INVALID_LINK_SETTINGS, hw)
      else if list_ex (water_marks_bad (fc hw)) [0..<IXGBE_DCB_MAX_TRAFFIC_CLASS]
      then (IXGBE_ERR_INVALID_LINK_SETTINGS, hw)
      else
        let hw = ixgbe_fc_autoneg ops hw;
            mflcn_reg = IXGBE_READ_REG hw IXGBE_MFLCN AND NOT (IXGBE_MFLCN_RPFCE_MASK OR IXGBE_MFLCN_RFCE);
            fccfg_reg = IXGBE_READ_REG hw IXGBE_FCCFG AND
              NOT (IXGBE_FCCFG_TFCE_802_3X OR IXGBE_FCCFG_TFCE_PRIORITY)
        in case (case current_mode (fc hw) of
                   ixgbe_fc_none \<Rightarrow> Some (mflcn_reg, fccfg_reg)
                 | ixgbe_fc_rx_pause \<Rightarrow> Some (mflcn_reg OR IXGBE_MFLCN_RFCE, fccfg_reg)
                 | ixgbe_fc_tx_pause \<Rightarrow> Some (mflcn_reg, fccfg_reg OR IXGBE_FCCFG_TFCE_802_3X)
                 | ixgbe_fc_full \<Rightarrow>
                     Some (mflcn_reg OR IXGBE_MFLCN_RFCE, fccfg_reg OR IXGBE_FCCFG_TFCE_802_3X)
                 | _ \<Rightarrow> None) of
             None \<Rightarrow> (IXGBE_ERR_CONFIG, hw)
           | Some (mflcn_reg, fccfg_reg) \<Rightarrow>
               let hw = IXGBE_WRITE_REG hw IXGBE_MFLCN (mflcn_reg OR IXGBE_MFLCN_DPF);
                   hw = IXGBE_WRITE_REG hw IXGBE_FCCFG fccfg_reg;
                   hw = for_upto 0 IXGBE_DCB_MAX_TRAFFIC_CLASS fc_set_thresholds hw;
                   reg = ucast (pause_time (fc hw)) * 0x00010001;
                   hw = for_upto 0 (IXGBE_DCB_MAX_TRAFFIC_CLASS div 2)
                          (\<lambda>i hw. IXGBE_WRITE_REG hw (IXGBE_FCTTV i) reg) hw
               in (IXGBE_SUCCESS, IXGBE_WRITE_REG hw IXGBE_FCRTV (ucast (pause_time (fc hw) div 2))))"

section \<open>Abstract view\<close>

fun fc_mode_rx :: "ixgbe_fc_mode \<Rightarrow> bool" where
  "fc_mode_rx ixgbe_fc_rx_pause = True"
| "fc_mode_rx ixgbe_fc_full = True"
| "fc_mode_rx _ = False"

text \<open>
  The pause resolution table of IEEE 802.3 (Annex 28B): from the local and the partner's symmetric
  and asymmetric pause bits to whether the local end may transmit and must honour pause frames.
\<close>

fun ieee_pause :: "bool \<Rightarrow> bool \<Rightarrow> bool \<Rightarrow> bool \<Rightarrow> bool \<times> bool" where
  "ieee_pause False False psym pasm = (False, False)"
| "ieee_pause False True False pasm = (False, False)"
| "ieee_pause False True True False = (False, False)"
| "ieee_pause False True True True = (True, False)"
| "ieee_pause True lasm True pasm = (True, True)"
| "ieee_pause True False False pasm = (False, False)"
| "ieee_pause True True False False = (False, False)"
| "ieee_pause True True False True = (False, True)"

section \<open>Negotiation\<close>

text \<open>
  C18. With both advertisements present, negotiation succeeds and the resulting mode is the one of
  the IEEE 802.3 pause resolution table with one exception: when both ends advertise symmetric pause, where the
  table gives both directions, and full flow control was not requested, the mode is receive pause only.
  So the adapter honours received pause frames exactly if the table says so, and sends them exactly if the
  table says so and, where it gives both directions, full flow control was requested.
\<close>

lemma negotiate_fc_ieee:
  assumes "adv_reg \<noteq> 0" "lp_reg \<noteq> 0"
    and "ixgbe_negotiate_fc hw adv_reg lp_reg adv_sym adv_asm lp_sym lp_asm = (st, hw')"
    and "ieee_pause (adv_reg AND adv_sym \<noteq> 0) (adv_reg AND adv_asm \<noteq> 0)
           (lp_reg AND lp_sym \<noteq> 0) (lp_reg AND lp_asm \<noteq> 0) = (tx, rx)"
  shows "st = IXGBE_SUCCESS \<and> fc_mode_rx (current_mode (fc hw')) = rx \<and>
    fc_mode_tx (current_mode (fc hw')) = (tx \<and> (rx \<longrightarrow> requested_mode (fc hw) = ixgbe_fc_full)) \<and>
    current_mode (fc hw') \<in> {ixgbe_fc_none, ixgbe_fc_rx_pause, ixgbe_fc_tx_pause, ixgbe_fc_full}"
  using assms
  by (cases "adv_reg AND adv_sym = 0"; cases "adv_reg AND adv_asm = 0";
      cases "lp_reg AND lp_sym = 0"; cases "lp_reg AND lp_asm = 0")
    (auto simp: ixgbe_negotiate_fc_def split: if_splits)

lemma negotiate_fc_ieee_witness:
  "fst (ixgbe_negotiate_fc hw_reset 0x180 0x180 0x80 0x100 0x80 0x100) = IXGBE_SUCCESS \<and>
   fc_mode_tx (current_mode (fc (snd (ixgbe_negotiate_fc hw_reset 0x180 0x180 0x80 0x100 0x80 0x100))))"
  (is "fst ?r = _ \<and> _")
  using negotiate_fc_ieee [where hw = hw_reset and adv_reg = 384 and lp_reg = 384 and adv_sym = 128
      and adv_asm = 256 and lp_sym = 128 and lp_asm = 256 and st = "fst ?r" and hw' = "snd ?r"
      and tx = True and rx = True]
  by (simp add: hw_reset_def)

text \<open>The pause bits that an advertisement carries for a mode.\<close>

definition fc_adv_bits :: "ixgbe_hw \<Rightarrow> bool \<times> bool" where
  "fc_adv_bits hw = (IXGBE_READ_REG hw IXGBE_PCS1GANA AND IXGBE_PCS1GANA_SYM_PAUSE \<noteq> 0,
     IXGBE_READ_REG hw IXGBE_PCS1GANA AND IXGBE_PCS1GANA_ASM_PAUSE \<noteq> 0)"

fun fc_mode_bits :: "ixgbe_fc_mode \<Rightarrow> bool \<times> bool" where
  "fc_mode_bits ixgbe_fc_tx_pause = (False, True)"
| "fc_mode_bits ixgbe_fc_rx_pause = (True, True)"
| "fc_mode_bits ixgbe_fc_full = (True, True)"
| "fc_mode_bits _ = (False, False)"

lemma pcs_pause_lits:
  "(0x80 :: u32) = BIT 7" "(0x100 :: u32) = BIT 8" "(0x180 :: u32) = BIT 7 OR BIT 8"
  by (simp_all add: BIT_def)

lemma and_BIT_neq_0: "n < 32 \<Longrightarrow> x AND BIT n \<noteq> 0 \<longleftrightarrow> bit x n"
  by (simp add: and_BIT_eq_0)

lemma fc_advert_bits:
  assumes "fc_advert mode IXGBE_PCS1GANA_SYM_PAUSE IXGBE_PCS1GANA_ASM_PAUSE reg = Some reg'"
  shows "(reg' AND IXGBE_PCS1GANA_SYM_PAUSE \<noteq> 0, reg' AND IXGBE_PCS1GANA_ASM_PAUSE \<noteq> 0) = fc_mode_bits mode"
  using assms unfolding pcs_pause_lits
  by (cases mode) (auto simp: fc_advert_def and_BIT_neq_0 and_BIT_eq_0 bit_and_iff bit_or_iff bit_not_iff bit_BIT)

text \<open>
  C19. On a fibre adapter before X540, setting up flow control succeeds exactly when the requested
  mode is an 802.3x mode allowed by strict IEEE operation, and then the advertisement register
  carries the symmetric and asymmetric pause bits of that mode (the default mode becomes full).
\<close>

lemma setup_fc_advertises:
  assumes "\<not> hw_removed hw" "media_type hw \<in> {ixgbe_media_type_fiber, ixgbe_media_type_fiber_qsfp}"
    and "mac_type (mac hw) \<in> {ixgbe_mac_82598EB, ixgbe_mac_82599EB}"
    and "ixgbe_setup_fc_generic ops hw = (st, hw')"
  shows "(st = IXGBE_SUCCESS \<longleftrightarrow> requested_mode (fc hw) \<noteq> ixgbe_fc_pfc \<and>
           \<not> (strict_ieee (fc hw) \<and> requested_mode (fc hw) = ixgbe_fc_rx_pause)) \<and>
    (st = IXGBE_SUCCESS \<longrightarrow> fc_adv_bits hw' = fc_mode_bits (requested_mode (fc hw')) \<and>
       requested_mode (fc hw') = (if requested_mode (fc hw) = ixgbe_fc_default then ixgbe_fc_full
         else requested_mode (fc hw)))"
proof (cases "strict_ieee (fc hw) \<and> requested_mode (fc hw) = ixgbe_fc_rx_pause")
  case True
  with assms(4) show ?thesis by (auto simp: ixgbe_setup_fc_generic_def)
next
  case False
  define hw1 where "hw1 = (if requested_mode (fc hw) = ixgbe_fc_default
     then hw\<lparr>fc := (fc hw)\<lparr>requested_mode := ixgbe_fc_full\<rparr>\<rparr> else hw)"
  let ?reg = "IXGBE_READ_REG hw1 IXGBE_PCS1GANA" and ?m = "requested_mode (fc hw1)"
  have 1: "media_type hw1 = media_type hw" "mac hw1 = mac hw" "\<not> hw_removed hw1"
    using assms(1) by (auto simp: hw1_def)
  have rd: "setup_fc_read ops hw1 = (IXGBE_SUCCESS, (?reg, 0, False, 0), hw1)"
    using assms(2) 1 by (auto simp: setup_fc_read_def)
  have mac: "mac_type_val (mac_type (mac hw)) < mac_type_val ixgbe_mac_X540"
    using assms(3) by auto
  have media: "media_type hw \<noteq> ixgbe_media_type_backplane" "media_type hw \<noteq> ixgbe_media_type_copper"
    using assms(2) by auto
  show ?thesis
  proof (cases "fc_advert ?m IXGBE_PCS1GANA_SYM_PAUSE IXGBE_PCS1GANA_ASM_PAUSE ?reg")
    case None
    then have "?m = ixgbe_fc_pfc \<or> ?m = ixgbe_fc_default" by (cases ?m) (auto simp: fc_advert_def)
    moreover have "st = IXGBE_ERR_CONFIG"
      using assms(4) False None rd unfolding ixgbe_setup_fc_generic_def hw1_def [symmetric] Let_def by simp
    ultimately show ?thesis by (auto simp: hw1_def split: if_splits)
  next
    case (Some r)
    then have m: "?m \<noteq> ixgbe_fc_pfc" by (auto simp: fc_advert_def)
    have hw': "st = IXGBE_SUCCESS" "IXGBE_READ_REG hw' IXGBE_PCS1GANA = r" "fc hw' = fc hw1"
      using assms(4) False Some rd mac media 1 unfolding ixgbe_setup_fc_generic_def hw1_def [symmetric] Let_def
      by auto
    then show ?thesis
      using fc_advert_bits [OF Some] m False by (auto simp: fc_adv_bits_def hw1_def split: if_splits)
  qed
qed

lemma setup_fc_advertises_witness:
  "fc_adv_bits (snd (ixgbe_setup_fc_generic \<lparr>check_link = \<lambda>hw. (0, False, hw), prot_autoc_read = \<lambda>hw. (IXGBE_SUCCESS, False, 0, hw),
     prot_autoc_write = \<lambda>hw v l. (IXGBE_SUCCESS, hw), read_phy_reg = \<lambda>hw a d. (None, hw), write_phy_reg = \<lambda>hw a d v. hw\<rparr> hw_reset)) = (True, True)"
  (is "fc_adv_bits (snd ?r) = _")
proof -
  have "media_type hw_reset = ixgbe_media_type_fiber" "requested_mode (fc hw_reset) = ixgbe_fc_full"
    "strict_ieee (fc hw_reset) = False"
    by (simp_all add: hw_reset_def)
  then show ?thesis
    using setup_fc_advertises [of hw_reset _ "fst ?r" "snd ?r"] by simp
qed

section \<open>Two ends of one link\<close>

text \<open>
  An end of a 1G fibre link that has advertised its requested mode and completed
  auto-negotiation: \<open>partner\<close> is what the link partner advertised.
\<close>

definition fc_end :: "fc_ops \<Rightarrow> ixgbe_hw \<Rightarrow> u32 \<Rightarrow> bool" where
  "fc_end ops hw partner \<longleftrightarrow>
     check_link ops hw = (IXGBE_LINK_SPEED_1GB_FULL, True, hw) \<and>
     media_type hw \<in> {ixgbe_media_type_fiber, ixgbe_media_type_fiber_qsfp} \<and>
     \<not> disable_fc_autoneg (fc hw) \<and>
     IXGBE_READ_REG hw IXGBE_PCS1GLSTA AND IXGBE_PCS1GLSTA_AN_COMPLETE \<noteq> 0 \<and>
     IXGBE_READ_REG hw IXGBE_PCS1GLSTA AND IXGBE_PCS1GLSTA_AN_TIMED_OUT = 0 \<and>
     fc_adv_bits hw = fc_mode_bits (requested_mode (fc hw)) \<and>
     IXGBE_READ_REG hw IXGBE_PCS1GANLP = partner"

lemma fc_autoneg_fiber_mode:
  assumes "fc_end ops hw partner" "IXGBE_READ_REG hw IXGBE_PCS1GANA \<noteq> 0" "partner \<noteq> 0"
    and "fc_mode_bits m = (partner AND IXGBE_PCS1GANA_SYM_PAUSE \<noteq> 0, partner AND IXGBE_PCS1GANA_ASM_PAUSE \<noteq> 0)"
  shows "fc_was_autonegged (fc (ixgbe_fc_autoneg ops hw))"
    and "fc_mode_tx (current_mode (fc (ixgbe_fc_autoneg ops hw))) \<longleftrightarrow>
      fc_mode_tx (requested_mode (fc hw)) \<and> fc_mode_rx m"
    and "fc_mode_rx (current_mode (fc (ixgbe_fc_autoneg ops hw))) \<longleftrightarrow>
      fc_mode_rx (requested_mode (fc hw)) \<and> m \<in> {ixgbe_fc_rx_pause, ixgbe_fc_tx_pause, ixgbe_fc_full}"
proof -
  let ?adv = "IXGBE_READ_REG hw IXGBE_PCS1GANA"
  obtain st hw' where n: "ixgbe_negotiate_fc hw ?adv partner IXGBE_PCS1GANA_SYM_PAUSE IXGBE_PCS1GANA_ASM_PAUSE
      IXGBE_PCS1GANA_SYM_PAUSE IXGBE_PCS1GANA_ASM_PAUSE = (st, hw')" by fastforce
  have st: "st = IXGBE_SUCCESS" using n assms(2,3) by (auto simp: ixgbe_negotiate_fc_def)
  have eq: "ixgbe_fc_autoneg ops hw = hw'\<lparr>fc := (fc hw')\<lparr>fc_was_autonegged := True\<rparr>\<rparr>"
    using assms(1) n st
    by (auto simp: fc_end_def ixgbe_fc_autoneg_def ixgbe_fc_autoneg_fiber_def)
  show "fc_was_autonegged (fc (ixgbe_fc_autoneg ops hw))" by (simp add: eq)
  have bits: "fc_mode_bits (requested_mode (fc hw)) = (?adv AND IXGBE_PCS1GANA_SYM_PAUSE \<noteq> 0, ?adv AND IXGBE_PCS1GANA_ASM_PAUSE \<noteq> 0)"
    using assms(1) by (simp add: fc_end_def fc_adv_bits_def)
  show "fc_mode_tx (current_mode (fc (ixgbe_fc_autoneg ops hw))) \<longleftrightarrow>
      fc_mode_tx (requested_mode (fc hw)) \<and> fc_mode_rx m"
    and "fc_mode_rx (current_mode (fc (ixgbe_fc_autoneg ops hw))) \<longleftrightarrow>
      fc_mode_rx (requested_mode (fc hw)) \<and> m \<in> {ixgbe_fc_rx_pause, ixgbe_fc_tx_pause, ixgbe_fc_full}"
    using bits assms(2-4) n
    by (cases "requested_mode (fc hw)"; cases m; auto simp: eq ixgbe_negotiate_fc_def)+
qed

text \<open>
  C9. When both ends of a 1G fibre link run this negotiation, each with the advertisement of its own
  requested mode, the outcome is consistent: an end sends pause frames only if the other end honours
  them, and no end exceeds what its user requested.
\<close>

lemma fc_two_ends_agree:
  assumes "fc_end opsa a (IXGBE_READ_REG b IXGBE_PCS1GANA)" "fc_end opsb b (IXGBE_READ_REG a IXGBE_PCS1GANA)"
    and "IXGBE_READ_REG a IXGBE_PCS1GANA \<noteq> 0" "IXGBE_READ_REG b IXGBE_PCS1GANA \<noteq> 0"
  shows "let ma = current_mode (fc (ixgbe_fc_autoneg opsa a)); mb = current_mode (fc (ixgbe_fc_autoneg opsb b)) in
    (fc_mode_tx ma \<longrightarrow> fc_mode_rx mb) \<and> (fc_mode_tx mb \<longrightarrow> fc_mode_rx ma) \<and>
    (fc_mode_tx ma \<longrightarrow> fc_mode_tx (requested_mode (fc a))) \<and> (fc_mode_rx ma \<longrightarrow> fc_mode_rx (requested_mode (fc a))) \<and>
    (fc_mode_tx mb \<longrightarrow> fc_mode_tx (requested_mode (fc b))) \<and> (fc_mode_rx mb \<longrightarrow> fc_mode_rx (requested_mode (fc b)))"
proof -
  have "fc_mode_bits (requested_mode (fc b)) = (IXGBE_READ_REG b IXGBE_PCS1GANA AND IXGBE_PCS1GANA_SYM_PAUSE \<noteq> 0,
      IXGBE_READ_REG b IXGBE_PCS1GANA AND IXGBE_PCS1GANA_ASM_PAUSE \<noteq> 0)"
    using assms(2) by (simp add: fc_end_def fc_adv_bits_def)
  note A = fc_autoneg_fiber_mode [OF assms(1,3,4) this]
  have "fc_mode_bits (requested_mode (fc a)) = (IXGBE_READ_REG a IXGBE_PCS1GANA AND IXGBE_PCS1GANA_SYM_PAUSE \<noteq> 0,
      IXGBE_READ_REG a IXGBE_PCS1GANA AND IXGBE_PCS1GANA_ASM_PAUSE \<noteq> 0)"
    using assms(1) by (simp add: fc_end_def fc_adv_bits_def)
  note B = fc_autoneg_fiber_mode [OF assms(2,4,3) this]
  show ?thesis
    using A(2,3) B(2,3) by (cases "requested_mode (fc a)"; cases "requested_mode (fc b)") (simp_all add: Let_def)
qed

section \<open>Programming the mode\<close>

text \<open>The thresholds of a traffic class as they must be programmed.\<close>

definition fcrtl_spec :: "ixgbe_hw \<Rightarrow> nat \<Rightarrow> u32" where
  "fcrtl_spec hw i = (if fc_mode_tx (current_mode (fc hw)) \<and> high_water (fc hw) ! i \<noteq> 0
     then push_bit 10 (low_water (fc hw) ! i) OR IXGBE_FCRTL_XONE else 0)"

definition fcrth_spec :: "ixgbe_hw \<Rightarrow> nat \<Rightarrow> u32" where
  "fcrth_spec hw i = (if fc_mode_tx (current_mode (fc hw)) \<and> high_water (fc hw) ! i \<noteq> 0
     then push_bit 10 (high_water (fc hw) ! i) OR IXGBE_FCRTH_FCEN
     else IXGBE_READ_REG hw (IXGBE_RXPBSIZE i) - 24576)"

lemma set_thresholds_one:
  assumes "\<not> hw_removed hw"
  shows "fc (fc_set_thresholds i hw) = fc hw" "hw_removed (fc_set_thresholds i hw) = hw_removed hw"
    and "IXGBE_READ_REG (fc_set_thresholds i hw) r =
      (if r = IXGBE_FCRTL_82599 i then fcrtl_spec hw i else if r = IXGBE_FCRTH_82599 i then fcrth_spec hw i
       else IXGBE_READ_REG hw r)"
  using assms by (auto simp: fc_set_thresholds_def fcrtl_spec_def fcrth_spec_def Let_def)

lemma set_thresholds_loop:
  assumes "\<not> hw_removed hw"
  shows "fc (for_upto 0 n fc_set_thresholds hw) = fc hw \<and> \<not> hw_removed (for_upto 0 n fc_set_thresholds hw) \<and>
    (\<forall>r. IXGBE_READ_REG (for_upto 0 n fc_set_thresholds hw) r =
      (case r of LinkReg (FCRTL_82599 i) \<Rightarrow> if i < n then fcrtl_spec hw i else IXGBE_READ_REG hw r
       | LinkReg (FCRTH_82599 i) \<Rightarrow> if i < n then fcrth_spec hw i else IXGBE_READ_REG hw r
       | _ \<Rightarrow> IXGBE_READ_REG hw r))"
proof (induction n)
  case 0
  then show ?case using assms by (auto split: reg.splits link_reg.splits)
next
  case (Suc n)
  let ?h = "for_upto 0 n fc_set_thresholds hw"
  have nr: "\<not> hw_removed ?h" and f: "fc ?h = fc hw" using Suc by simp_all
  have sp: "fcrtl_spec ?h n = fcrtl_spec hw n" "fcrth_spec ?h n = fcrth_spec hw n"
    using Suc f by (simp_all add: fcrtl_spec_def fcrth_spec_def)
  have step: "for_upto 0 (Suc n) fc_set_thresholds hw = fc_set_thresholds n ?h" by simp
  show ?case
    unfolding step set_thresholds_one [OF nr] sp
    using Suc f nr by (auto simp: less_Suc_eq split: reg.splits link_reg.splits)
qed

lemma mflcn_bits:
  "bit (x AND NOT (IXGBE_MFLCN_RPFCE_MASK OR IXGBE_MFLCN_RFCE) OR IXGBE_MFLCN_DPF) 3 = False"
  "bit ((x AND NOT (IXGBE_MFLCN_RPFCE_MASK OR IXGBE_MFLCN_RFCE) OR IXGBE_MFLCN_RFCE) OR IXGBE_MFLCN_DPF) 3 = True"
  "bit (y AND NOT (IXGBE_FCCFG_TFCE_802_3X OR IXGBE_FCCFG_TFCE_PRIORITY)) 3 = False"
  "bit (y AND NOT (IXGBE_FCCFG_TFCE_802_3X OR IXGBE_FCCFG_TFCE_PRIORITY) OR IXGBE_FCCFG_TFCE_802_3X) 3 = True"
  "bit (y AND NOT (IXGBE_FCCFG_TFCE_802_3X OR IXGBE_FCCFG_TFCE_PRIORITY)) 4 = False"
  "bit (y AND NOT (IXGBE_FCCFG_TFCE_802_3X OR IXGBE_FCCFG_TFCE_PRIORITY) OR IXGBE_FCCFG_TFCE_802_3X) 4 = False"
  by (simp_all add: bit_and_iff bit_or_iff bit_not_iff)

text \<open>The registers that a negotiated mode must leave behind.\<close>

definition fc_programmed :: "ixgbe_hw \<Rightarrow> ixgbe_hw \<Rightarrow> bool" where
  "fc_programmed hw hw' \<longleftrightarrow>
     bit (IXGBE_READ_REG hw' IXGBE_MFLCN) 3 = fc_mode_rx (current_mode (fc hw)) \<and>
     bit (IXGBE_READ_REG hw' IXGBE_FCCFG) 3 = fc_mode_tx (current_mode (fc hw)) \<and>
     \<not> bit (IXGBE_READ_REG hw' IXGBE_FCCFG) 4 \<and>
     (\<forall>i < 8. IXGBE_READ_REG hw' (IXGBE_FCRTL_82599 i) = fcrtl_spec hw i \<and>
        IXGBE_READ_REG hw' (IXGBE_FCRTH_82599 i) = fcrth_spec hw i) \<and>
     (\<forall>i < 4. IXGBE_READ_REG hw' (IXGBE_FCTTV i) = ucast (pause_time (fc hw)) * 0x00010001) \<and>
     IXGBE_READ_REG hw' IXGBE_FCRTV = ucast (pause_time (fc hw) div 2)"

lemma spec_write_other:
  assumes "\<forall>i. r \<noteq> IXGBE_RXPBSIZE i"
  shows "fcrtl_spec (IXGBE_WRITE_REG hw r v) = fcrtl_spec hw" "fcrth_spec (IXGBE_WRITE_REG hw r v) = fcrth_spec hw"
  using assms by (auto simp: fcrtl_spec_def fcrth_spec_def fun_eq_iff READ_WRITE_REG_other [OF not_sym])

text \<open>The part of \<open>ixgbe_fc_enable_generic\<close> that follows the choice of the two registers.\<close>

definition fc_program :: "u32 \<Rightarrow> u32 \<Rightarrow> ixgbe_hw \<Rightarrow> ixgbe_hw" where
  "fc_program mflcn fccfg hw =
     (let hw = IXGBE_WRITE_REG hw IXGBE_MFLCN mflcn;
          hw = IXGBE_WRITE_REG hw IXGBE_FCCFG fccfg;
          hw = for_upto 0 8 fc_set_thresholds hw;
          reg = ucast (pause_time (fc hw)) * 0x00010001;
          hw = for_upto 0 4 (\<lambda>i hw. IXGBE_WRITE_REG hw (IXGBE_FCTTV i) reg) hw
      in IXGBE_WRITE_REG hw IXGBE_FCRTV (ucast (pause_time (fc hw) div 2)))"

lemma write_loop_fc [simp]: "fc (for_upto m n (\<lambda>i hw. IXGBE_WRITE_REG hw (f i) (g i)) hw) = fc hw"
  by (rule for_upto_frame) simp

lemma fc_program_regs:
  assumes "\<not> hw_removed hw"
  shows "IXGBE_READ_REG (fc_program mflcn fccfg hw) IXGBE_MFLCN = mflcn"
    and "IXGBE_READ_REG (fc_program mflcn fccfg hw) IXGBE_FCCFG = fccfg"
    and "i < 8 \<Longrightarrow> IXGBE_READ_REG (fc_program mflcn fccfg hw) (IXGBE_FCRTL_82599 i) = fcrtl_spec hw i"
    and "i < 8 \<Longrightarrow> IXGBE_READ_REG (fc_program mflcn fccfg hw) (IXGBE_FCRTH_82599 i) = fcrth_spec hw i"
    and "i < 4 \<Longrightarrow> IXGBE_READ_REG (fc_program mflcn fccfg hw) (IXGBE_FCTTV i) = ucast (pause_time (fc hw)) * 0x00010001"
    and "IXGBE_READ_REG (fc_program mflcn fccfg hw) IXGBE_FCRTV = ucast (pause_time (fc hw) div 2)"
proof -
  define hw1 where "hw1 = IXGBE_WRITE_REG (IXGBE_WRITE_REG hw IXGBE_MFLCN mflcn) IXGBE_FCCFG fccfg"
  define hw2 where "hw2 = for_upto 0 8 fc_set_thresholds hw1"
  have 1: "\<not> hw_removed hw1" "fc hw1 = fc hw" using assms by (simp_all add: hw1_def)
  note l = set_thresholds_loop [OF 1(1), of 8, folded hw2_def]
  have 2: "\<not> hw_removed hw2" "fc hw2 = fc hw" using l 1 by simp_all
  have rd: "IXGBE_READ_REG hw2 r =
      (case r of LinkReg (FCRTL_82599 i) \<Rightarrow> if i < 8 then fcrtl_spec hw1 i else IXGBE_READ_REG hw1 r
       | LinkReg (FCRTH_82599 i) \<Rightarrow> if i < 8 then fcrth_spec hw1 i else IXGBE_READ_REG hw1 r
       | _ \<Rightarrow> IXGBE_READ_REG hw1 r)" for r
    using l by blast
  have sp: "fcrtl_spec hw1 = fcrtl_spec hw" "fcrth_spec hw1 = fcrth_spec hw"
    by (simp_all add: hw1_def spec_write_other)
  have h1: "IXGBE_READ_REG hw1 IXGBE_MFLCN = mflcn" "IXGBE_READ_REG hw1 IXGBE_FCCFG = fccfg"
    using assms by (simp_all add: hw1_def)
  have eq: "fc_program mflcn fccfg hw = IXGBE_WRITE_REG
     (for_upto 0 4 (\<lambda>i hw. IXGBE_WRITE_REG hw (IXGBE_FCTTV i) (ucast (pause_time (fc hw2)) * 0x00010001)) hw2)
     IXGBE_FCRTV (ucast (pause_time (fc hw2) div 2))"
    unfolding fc_program_def Let_def hw1_def [symmetric] hw2_def [symmetric] by simp
  show "IXGBE_READ_REG (fc_program mflcn fccfg hw) IXGBE_MFLCN = mflcn"
    and "IXGBE_READ_REG (fc_program mflcn fccfg hw) IXGBE_FCCFG = fccfg"
    and "i < 8 \<Longrightarrow> IXGBE_READ_REG (fc_program mflcn fccfg hw) (IXGBE_FCRTL_82599 i) = fcrtl_spec hw i"
    and "i < 8 \<Longrightarrow> IXGBE_READ_REG (fc_program mflcn fccfg hw) (IXGBE_FCRTH_82599 i) = fcrth_spec hw i"
    and "i < 4 \<Longrightarrow> IXGBE_READ_REG (fc_program mflcn fccfg hw) (IXGBE_FCTTV i) = ucast (pause_time (fc hw)) * 0x00010001"
    and "IXGBE_READ_REG (fc_program mflcn fccfg hw) IXGBE_FCRTV = ucast (pause_time (fc hw) div 2)"
    using 2 assms h1 by (auto simp: eq write_loop_read rd sp image_iff)
qed

lemma fc_enable_effect:
  assumes "\<not> hw_removed (ixgbe_fc_autoneg ops hw)" "ixgbe_fc_enable_generic ops hw = (st, hw')"
  shows "(st = IXGBE_SUCCESS \<longleftrightarrow> pause_time (fc hw) \<noteq> 0 \<and> (\<forall>i < 8. \<not> water_marks_bad (fc hw) i) \<and>
      current_mode (fc (ixgbe_fc_autoneg ops hw)) \<notin> {ixgbe_fc_pfc, ixgbe_fc_default}) \<and>
    (st = IXGBE_SUCCESS \<longrightarrow> fc_programmed (ixgbe_fc_autoneg ops hw) hw') \<and>
    (st = IXGBE_ERR_INVALID_LINK_SETTINGS \<longrightarrow> hw' = hw)"
proof (cases "pause_time (fc hw) = 0 \<or> list_ex (water_marks_bad (fc hw)) [0..<8]")
  case True
  then have "\<not> (pause_time (fc hw) \<noteq> 0 \<and> (\<forall>i < 8. \<not> water_marks_bad (fc hw) i))" by (auto simp: list_ex_iff)
  moreover have "ixgbe_fc_enable_generic ops hw = (IXGBE_ERR_INVALID_LINK_SETTINGS, hw)"
    unfolding ixgbe_fc_enable_generic_def using True by (cases "pause_time (fc hw) = 0") simp_all
  ultimately show ?thesis using assms(2) by auto
next
  case False
  then have ok: "pause_time (fc hw) \<noteq> 0" "\<forall>i < 8. \<not> water_marks_bad (fc hw) i" by (auto simp: list_ex_iff)
  define hwn where "hwn = ixgbe_fc_autoneg ops hw"
  let ?mflcn = "IXGBE_READ_REG hwn IXGBE_MFLCN AND NOT (IXGBE_MFLCN_RPFCE_MASK OR IXGBE_MFLCN_RFCE)"
  let ?fccfg = "IXGBE_READ_REG hwn IXGBE_FCCFG AND NOT (IXGBE_FCCFG_TFCE_802_3X OR IXGBE_FCCFG_TFCE_PRIORITY)"
  have res: "(st, hw') =
     (case current_mode (fc hwn) of
        ixgbe_fc_none \<Rightarrow> (IXGBE_SUCCESS, fc_program (?mflcn OR IXGBE_MFLCN_DPF) ?fccfg hwn)
      | ixgbe_fc_rx_pause \<Rightarrow> (IXGBE_SUCCESS, fc_program ((?mflcn OR IXGBE_MFLCN_RFCE) OR IXGBE_MFLCN_DPF) ?fccfg hwn)
      | ixgbe_fc_tx_pause \<Rightarrow> (IXGBE_SUCCESS, fc_program (?mflcn OR IXGBE_MFLCN_DPF) (?fccfg OR IXGBE_FCCFG_TFCE_802_3X) hwn)
      | ixgbe_fc_full \<Rightarrow> (IXGBE_SUCCESS, fc_program ((?mflcn OR IXGBE_MFLCN_RFCE) OR IXGBE_MFLCN_DPF) (?fccfg OR IXGBE_FCCFG_TFCE_802_3X) hwn)
      | _ \<Rightarrow> (IXGBE_ERR_CONFIG, hwn))"
    unfolding assms(2) [symmetric] ixgbe_fc_enable_generic_def Let_def hwn_def [symmetric]
    using False by (simp add: fc_program_def Let_def split: ixgbe_fc_mode.split)
  show ?thesis
    unfolding hwn_def [symmetric]
    using res ok fc_program_regs [OF assms(1), folded hwn_def] mflcn_bits
    by (cases "current_mode (fc hwn)") (simp_all add: fc_programmed_def)
qed

text \<open>
  C17. Enabling flow control succeeds exactly when the pause time is nonzero, no water mark is bad
  for the mode in force before the call, and the negotiated mode is one of the four 802.3x modes.
  It then programs that mode: pause frames are honoured and sent as the mode says, each traffic
  class gets its thresholds (or the switch-safe default), and the pause timers are set.  Rejected
  settings leave the adapter as it was.
\<close>

lemma fc_enable_correct:
  assumes "\<not> hw_removed (ixgbe_fc_autoneg ops hw)" "ixgbe_fc_enable_generic ops hw = (st, hw')"
  shows "(st = IXGBE_SUCCESS \<longleftrightarrow> pause_time (fc hw) \<noteq> 0 \<and> (\<forall>i < 8. \<not> water_marks_bad (fc hw) i) \<and>
      current_mode (fc (ixgbe_fc_autoneg ops hw)) \<notin> {ixgbe_fc_pfc, ixgbe_fc_default}) \<and>
    (st = IXGBE_SUCCESS \<longrightarrow> fc_programmed (ixgbe_fc_autoneg ops hw) hw') \<and>
    (st = IXGBE_ERR_INVALID_LINK_SETTINGS \<longrightarrow> hw' = hw)"
  using fc_enable_effect [OF assms] .

text \<open>
  C33. The water marks are checked against the mode of the previous negotiation.  When that mode did
  not send pause frames and the new one does, a traffic class with a low water mark of zero is
  accepted and programmed: its threshold register holds only the XON enable bit.
\<close>

lemma fc_enable_stale_check:
  assumes "\<not> hw_removed (ixgbe_fc_autoneg ops hw)" "pause_time (fc hw) \<noteq> 0"
    and "\<not> fc_mode_tx (current_mode (fc hw))" "fc_mode_tx (current_mode (fc (ixgbe_fc_autoneg ops hw)))"
    and "i < 8" "high_water (fc (ixgbe_fc_autoneg ops hw)) ! i \<noteq> 0" "low_water (fc (ixgbe_fc_autoneg ops hw)) ! i = 0"
  shows "fst (ixgbe_fc_enable_generic ops hw) = IXGBE_SUCCESS \<and>
    IXGBE_READ_REG (snd (ixgbe_fc_enable_generic ops hw)) (IXGBE_FCRTL_82599 i) = IXGBE_FCRTL_XONE"
proof -
  have "\<forall>i < 8. \<not> water_marks_bad (fc hw) i" using assms(3) by (simp add: water_marks_bad_def)
  moreover have "current_mode (fc (ixgbe_fc_autoneg ops hw)) \<notin> {ixgbe_fc_pfc, ixgbe_fc_default}"
    using assms(4) by auto
  ultimately show ?thesis
    using fc_enable_effect [OF assms(1), of "fst (ixgbe_fc_enable_generic ops hw)" "snd (ixgbe_fc_enable_generic ops hw)"]
      assms(2,4-7) by (simp add: fc_programmed_def fcrtl_spec_def)
qed

section \<open>Examples\<close>

text \<open>Function pointers of an adapter whose link is up at 1G.\<close>

definition ops_1g :: fc_ops where
  "ops_1g = \<lparr>check_link = \<lambda>hw. (IXGBE_LINK_SPEED_1GB_FULL, True, hw),
     prot_autoc_read = \<lambda>hw. (IXGBE_SUCCESS, False, 0, hw),
     prot_autoc_write = \<lambda>hw v l. (IXGBE_SUCCESS, hw),
     read_phy_reg = \<lambda>hw a d. (None, hw), write_phy_reg = \<lambda>hw a d v. hw\<rparr>"

text \<open>An adapter that requested full flow control, advertised it and negotiated with an equal.\<close>

definition hw_fc :: ixgbe_hw where
  "hw_fc = hw_reset\<lparr>regs := (\<lambda>r. if r = IXGBE_PCS1GANA \<or> r = IXGBE_PCS1GANLP then 0x180
     else if r = IXGBE_PCS1GLSTA then IXGBE_PCS1GLSTA_AN_COMPLETE else 0)\<rparr>"

lemma hw_fc_simps [simp]:
  "IXGBE_READ_REG hw_fc r = (if r = IXGBE_PCS1GANA \<or> r = IXGBE_PCS1GANLP then 0x180
     else if r = IXGBE_PCS1GLSTA then IXGBE_PCS1GLSTA_AN_COMPLETE else 0)"
  "fc hw_fc = fc hw_reset" "media_type hw_fc = ixgbe_media_type_fiber" "\<not> hw_removed hw_fc"
  by (simp_all add: hw_fc_def hw_reset_def IXGBE_READ_REG_def IXGBE_REMOVED_def)

lemma hw_fc_end: "fc_end ops_1g hw_fc 0x180"
  by (simp add: fc_end_def ops_1g_def fc_adv_bits_def hw_reset_def)

lemma hw_fc_autoneg: "current_mode (fc (ixgbe_fc_autoneg ops_1g hw_fc)) = ixgbe_fc_full"
  by (simp add: ixgbe_fc_autoneg_def ixgbe_fc_autoneg_fiber_def ixgbe_negotiate_fc_def ops_1g_def
      hw_fc_simps(3) hw_reset_def [THEN arg_cong, of fc])

lemma fc_two_ends_agree_witness:
  "fc_mode_tx (current_mode (fc (ixgbe_fc_autoneg ops_1g hw_fc))) \<and>
   fc_mode_rx (current_mode (fc (ixgbe_fc_autoneg ops_1g hw_fc)))"
  using fc_two_ends_agree [of ops_1g hw_fc hw_fc ops_1g] hw_fc_end hw_fc_autoneg by (simp add: Let_def)

text \<open>The same request with negotiation switched off and a zero low water mark.\<close>

definition hw_fc_stale :: ixgbe_hw where
  "hw_fc_stale = hw_reset\<lparr>fc := (fc hw_reset)\<lparr>disable_fc_autoneg := True, high_water := replicate 8 1\<rparr>\<rparr>"

lemma hw_fc_stale_autoneg:
  "fc (ixgbe_fc_autoneg ops_1g hw_fc_stale) = (fc hw_fc_stale)\<lparr>current_mode := ixgbe_fc_full\<rparr>"
  "\<not> hw_removed (ixgbe_fc_autoneg ops_1g hw_fc_stale)"
  by (simp_all add: ixgbe_fc_autoneg_def hw_fc_stale_def hw_reset_def)

lemma fc_enable_stale_check_witness:
  "fst (ixgbe_fc_enable_generic ops_1g hw_fc_stale) = IXGBE_SUCCESS \<and>
   IXGBE_READ_REG (snd (ixgbe_fc_enable_generic ops_1g hw_fc_stale)) (IXGBE_FCRTL_82599 0) = IXGBE_FCRTL_XONE"
proof -
  have "pause_time (fc hw_fc_stale) \<noteq> 0" "\<not> fc_mode_tx (current_mode (fc hw_fc_stale))"
    "high_water (fc hw_fc_stale) ! 0 = 1" "low_water (fc hw_fc_stale) ! 0 = 0"
    by (simp_all add: hw_fc_stale_def hw_reset_def)
  then show ?thesis
    using fc_enable_stale_check [of ops_1g hw_fc_stale 0] hw_fc_stale_autoneg by simp
qed

lemma fc_enable_correct_witness:
  "fst (ixgbe_fc_enable_generic ops_1g hw_fc) = IXGBE_SUCCESS \<and>
   fc_programmed (ixgbe_fc_autoneg ops_1g hw_fc) (snd (ixgbe_fc_enable_generic ops_1g hw_fc))"
proof -
  note m = hw_fc_autoneg
  have r: "\<not> hw_removed (ixgbe_fc_autoneg ops_1g hw_fc)"
    by (simp_all add: ixgbe_fc_autoneg_def ixgbe_fc_autoneg_fiber_def ixgbe_negotiate_fc_def ops_1g_def
        hw_fc_simps(3) hw_reset_def [THEN arg_cong, of fc])
  have "pause_time (fc hw_fc) \<noteq> 0" "\<forall>i < 8. \<not> water_marks_bad (fc hw_fc) i"
    by (simp_all add: water_marks_bad_def hw_reset_def)
  then show ?thesis
    using fc_enable_correct [OF r, of "fst (ixgbe_fc_enable_generic ops_1g hw_fc)"
      "snd (ixgbe_fc_enable_generic ops_1g hw_fc)"] m by simp
qed

end
