(* ===== verification/Ixgbe_Device.thy ===== *)
theory Ixgbe_Device
  imports Ixgbe_Hw "HOL-Library.State_Monad"
begin

text \<open>
  Devices whose registers change by themselves.  A device is a pair of operations on an arbitrary
  state; a read returns a value and may change the state.  Code that talks to such a device is a
  program of the state monad, and this theory has the shared rules about such programs: which
  observations of the state a program keeps, and how it changes them.
\<close>

unbundle bit_operations_syntax

section \<open>Devices and programs\<close>

record 's device =
  dev_read :: "reg \<Rightarrow> 's \<Rightarrow> u32 \<times> 's"
  dev_write :: "reg \<Rightarrow> u32 \<Rightarrow> 's \<Rightarrow> 's"

abbreviation ret :: "'a \<Rightarrow> ('h, 'a) state" where
  "ret \<equiv> State_Monad.return"

text \<open>Register access of a program that runs on the device state itself.\<close>

definition dread :: "'s device \<Rightarrow> reg \<Rightarrow> ('s, u32) state" where
  "dread d r = State (dev_read d r)"

definition dwrite :: "'s device \<Rightarrow> reg \<Rightarrow> u32 \<Rightarrow> ('s, unit) state" where
  "dwrite d r v = State (\<lambda>s. ((), dev_write d r v s))"

lemma run_dev [simp]:
  "run_state (dread d r) s = dev_read d r s"
  "run_state (dwrite d r v) s = ((), dev_write d r v s)"
  by (simp_all add: dread_def dwrite_def)

section \<open>Reasoning about programs\<close>

text \<open>A program keeps an observation of the state.\<close>

definition keeps :: "('h \<Rightarrow> 'b) \<Rightarrow> ('h, 'a) state \<Rightarrow> bool" where
  "keeps f p \<longleftrightarrow> (\<forall>h. f (snd (run_state p h)) = f h)"

named_theorems keeps_intros "programs that keep an observation"

lemma keepsD: "keeps f p \<Longrightarrow> run_state p h = (x, h') \<Longrightarrow> f h' = f h"
  by (metis keeps_def snd_conv)

lemma keeps_ret [keeps_intros]: "keeps f (ret x)"
  by (simp add: keeps_def)

lemma keeps_bind [keeps_intros]: "keeps f p \<Longrightarrow> (\<And>x. keeps f (q x)) \<Longrightarrow> keeps f (State_Monad.bind p q)"
  by (auto simp: keeps_def split: prod.splits) (metis snd_conv)

lemma keeps_if [keeps_intros]: "keeps f p \<Longrightarrow> keeps f q \<Longrightarrow> keeps f (if c then p else q)"
  by simp

lemma bindE:
  assumes "run_state (State_Monad.bind p q) h = (x, h')"
  obtains y h1 where "run_state p h = (y, h1)" "run_state (q y) h1 = (x, h')"
  using assms by (cases "run_state p h") auto

text \<open>A program changes an observation by a function.\<close>

definition changes :: "('h \<Rightarrow> 'b) \<Rightarrow> ('b \<Rightarrow> 'b) \<Rightarrow> ('h, 'a) state \<Rightarrow> bool" where
  "changes f F p \<longleftrightarrow> (\<forall>h. f (snd (run_state p h)) = F (f h))"

lemma changesD: "changes f F p \<Longrightarrow> run_state p h = (x, h') \<Longrightarrow> f h' = F (f h)"
  by (metis changes_def snd_conv)

lemma changes_before:
  assumes "keeps f p" "\<And>x. changes f F (q x)"
  shows "changes f F (State_Monad.bind p q)"
  unfolding changes_def
proof
  fix h
  obtain x h1 y h2 where "run_state p h = (x, h1)" "run_state (q x) h1 = (y, h2)" by fastforce
  with keepsD [OF assms(1)] changesD [OF assms(2)]
  show "f (snd (run_state (State_Monad.bind p q) h)) = F (f h)" by (metis run_state_bind case_prod_conv snd_conv)
qed

lemma changes_after:
  assumes "changes f F p" "\<And>x. keeps f (q x)"
  shows "changes f F (State_Monad.bind p q)"
  unfolding changes_def
proof
  fix h
  obtain x h1 y h2 where "run_state p h = (x, h1)" "run_state (q x) h1 = (y, h2)" by fastforce
  with changesD [OF assms(1)] keepsD [OF assms(2)]
  show "f (snd (run_state (State_Monad.bind p q) h)) = F (f h)" by (metis run_state_bind case_prod_conv snd_conv)
qed

text \<open>The state after a number of runs.\<close>

primrec after :: "('h, 'a) state \<Rightarrow> nat \<Rightarrow> 'h \<Rightarrow> 'h" where
  "after p 0 h = h"
| "after p (Suc n) h = after p n (snd (run_state p h))"

end
