(* ===== verification/Ixgbe_Mbx.thy ===== *)
theory Ixgbe_Mbx
  imports Ixgbe_Device
begin

text \<open>
  The mailbox between the physical function and its virtual functions (\<open>ixgbe_mbx.c\<close>).
  Mailbox registers are volatile: the other side and the hardware change them, and reads can clear
  bits.  The device is therefore an argument, a pair of read and write functions on an arbitrary
  state, and the operations are programs of the state monad over the driver's mailbox data and
  that state.  Every function of the source has its definition here, for both sides and for the
  legacy and the current protocol.
\<close>

unbundle bit_operations_syntax

section \<open>Data\<close>

record ixgbe_mbx_stats =
  msgs_tx :: u32
  msgs_rx :: u32
  acks :: u32
  reqs :: u32
  rsts :: u32

text \<open>
  A table of mailbox operations.  The source fills each table with one of four fixed sets of
  functions; \<open>MbxNull\<close> is a table that was never filled.
\<close>

datatype ixgbe_mbx_operations = MbxNull | MbxVfLegacy | MbxVf | MbxPfLegacy | MbxPf

record 's ixgbe_mbx_info =
  mbx_dev_state :: 's
  mbx_mac_type :: ixgbe_mac_type
  mbx_ops :: "nat \<Rightarrow> ixgbe_mbx_operations"
  mbx_stats :: ixgbe_mbx_stats
  mbx_timeout :: u32
  mbx_usec_delay :: u32
  mbx_vf_mailbox :: u32
  mbx_size :: u16

type_synonym ('s, 'a) mbx_prog = "('s ixgbe_mbx_info, 'a) state"

definition rd :: "'s device \<Rightarrow> reg \<Rightarrow> ('s, u32) mbx_prog" where
  "rd d r = State (\<lambda>h. let (v, s) = dev_read d r (mbx_dev_state h) in (v, h\<lparr>mbx_dev_state := s\<rparr>))"

definition wr :: "'s device \<Rightarrow> reg \<Rightarrow> u32 \<Rightarrow> ('s, unit) mbx_prog" where
  "wr d r v = State (\<lambda>h. ((), h\<lparr>mbx_dev_state := dev_write d r v (mbx_dev_state h)\<rparr>))"

definition mbx_get :: "('s ixgbe_mbx_info \<Rightarrow> 'a) \<Rightarrow> ('s, 'a) mbx_prog" where
  "mbx_get f = State (\<lambda>h. (f h, h))"

definition count_stat :: "(ixgbe_mbx_stats \<Rightarrow> ixgbe_mbx_stats) \<Rightarrow> ('s, unit) mbx_prog" where
  "count_stat f = State (\<lambda>h. ((), h\<lparr>mbx_stats := f (mbx_stats h)\<rparr>))"

definition set_vf_mailbox :: "u32 \<Rightarrow> ('s, unit) mbx_prog" where
  "set_vf_mailbox v = State (\<lambda>h. ((), h\<lparr>mbx_vf_mailbox := v\<rparr>))"

definition inc_msgs_tx :: "ixgbe_mbx_stats \<Rightarrow> ixgbe_mbx_stats" where
  "inc_msgs_tx s = s\<lparr>msgs_tx := msgs_tx s + 1\<rparr>"
definition inc_msgs_rx :: "ixgbe_mbx_stats \<Rightarrow> ixgbe_mbx_stats" where
  "inc_msgs_rx s = s\<lparr>msgs_rx := msgs_rx s + 1\<rparr>"
definition inc_acks :: "ixgbe_mbx_stats \<Rightarrow> ixgbe_mbx_stats" where
  "inc_acks s = s\<lparr>acks := acks s + 1\<rparr>"
definition inc_reqs :: "ixgbe_mbx_stats \<Rightarrow> ixgbe_mbx_stats" where
  "inc_reqs s = s\<lparr>reqs := reqs s + 1\<rparr>"
definition inc_rsts :: "ixgbe_mbx_stats \<Rightarrow> ixgbe_mbx_stats" where
  "inc_rsts s = s\<lparr>rsts := rsts s + 1\<rparr>"

section \<open>Constants\<close>

abbreviation IXGBE_VFMAILBOX_REQ :: u32 where "IXGBE_VFMAILBOX_REQ \<equiv> 0x00000001"
abbreviation IXGBE_VFMAILBOX_ACK :: u32 where "IXGBE_VFMAILBOX_ACK \<equiv> 0x00000002"
abbreviation IXGBE_VFMAILBOX_VFU :: u32 where "IXGBE_VFMAILBOX_VFU \<equiv> 0x00000004"
abbreviation IXGBE_VFMAILBOX_PFSTS :: u32 where "IXGBE_VFMAILBOX_PFSTS \<equiv> 0x00000010"
abbreviation IXGBE_VFMAILBOX_PFACK :: u32 where "IXGBE_VFMAILBOX_PFACK \<equiv> 0x00000020"
abbreviation IXGBE_VFMAILBOX_RSTI :: u32 where "IXGBE_VFMAILBOX_RSTI \<equiv> 0x00000040"
abbreviation IXGBE_VFMAILBOX_RSTD :: u32 where "IXGBE_VFMAILBOX_RSTD \<equiv> 0x00000080"
abbreviation IXGBE_VFMAILBOX_R2C_BITS :: u32 where "IXGBE_VFMAILBOX_R2C_BITS \<equiv> 0x000000B0"
abbreviation IXGBE_PFMAILBOX_STS :: u32 where "IXGBE_PFMAILBOX_STS \<equiv> 0x00000001"
abbreviation IXGBE_PFMAILBOX_ACK :: u32 where "IXGBE_PFMAILBOX_ACK \<equiv> 0x00000002"
abbreviation IXGBE_PFMAILBOX_PFU :: u32 where "IXGBE_PFMAILBOX_PFU \<equiv> 0x00000008"
abbreviation IXGBE_PFMBICR_VFREQ_VF1 :: u32 where "IXGBE_PFMBICR_VFREQ_VF1 \<equiv> 0x00000001"
abbreviation IXGBE_PFMBICR_VFACK_VF1 :: u32 where "IXGBE_PFMBICR_VFACK_VF1 \<equiv> 0x00010000"
abbreviation IXGBE_VT_MSGTYPE_CTS :: u32 where "IXGBE_VT_MSGTYPE_CTS \<equiv> 0x20000000"
abbreviation IXGBE_VFMAILBOX_SIZE :: u16 where "IXGBE_VFMAILBOX_SIZE \<equiv> 16"
abbreviation IXGBE_VF_MBX_INIT_TIMEOUT :: u32 where "IXGBE_VF_MBX_INIT_TIMEOUT \<equiv> 2000"
abbreviation IXGBE_VF_MBX_INIT_DELAY :: u32 where "IXGBE_VF_MBX_INIT_DELAY \<equiv> 500"
abbreviation IXGBE_PFMBICR_INDEX :: "nat \<Rightarrow> nat" where "IXGBE_PFMBICR_INDEX i \<equiv> i div 16"
abbreviation IXGBE_PFMBICR_SHIFT :: "nat \<Rightarrow> nat" where "IXGBE_PFMBICR_SHIFT i \<equiv> i mod 16"
abbreviation IXGBE_PFVFLRE_INDEX :: "nat \<Rightarrow> nat" where "IXGBE_PFVFLRE_INDEX i \<equiv> i div 32"
abbreviation IXGBE_PFVFLRE_SHIFT :: "nat \<Rightarrow> nat" where "IXGBE_PFVFLRE_SHIFT i \<equiv> i mod 32"

section \<open>VF side\<close>

definition ixgbe_read_mailbox_vf :: "'s device \<Rightarrow> ('s, u32) mbx_prog" where
  "ixgbe_read_mailbox_vf d = do {
     v \<leftarrow> rd d IXGBE_VFMAILBOX;
     m \<leftarrow> mbx_get mbx_vf_mailbox;
     let vf_mailbox = v OR m;
     set_vf_mailbox (m OR vf_mailbox AND IXGBE_VFMAILBOX_R2C_BITS);
     ret vf_mailbox }"

text \<open>The three functions that count an event and forget its bit have one shape.\<close>

definition clear_bits_vf ::
  "'s device \<Rightarrow> u32 \<Rightarrow> (ixgbe_mbx_stats \<Rightarrow> ixgbe_mbx_stats) \<Rightarrow> ('s, unit) mbx_prog" where
  "clear_bits_vf d bits inc = do {
     vf_mailbox \<leftarrow> ixgbe_read_mailbox_vf d;
     if vf_mailbox AND bits \<noteq> 0 then do {
       count_stat inc;
       m \<leftarrow> mbx_get mbx_vf_mailbox;
       set_vf_mailbox (m AND NOT bits)
     } else ret () }"

definition ixgbe_clear_msg_vf :: "'s device \<Rightarrow> ('s, unit) mbx_prog" where
  "ixgbe_clear_msg_vf d = clear_bits_vf d IXGBE_VFMAILBOX_PFSTS inc_reqs"

definition ixgbe_clear_ack_vf :: "'s device \<Rightarrow> ('s, unit) mbx_prog" where
  "ixgbe_clear_ack_vf d = clear_bits_vf d IXGBE_VFMAILBOX_PFACK inc_acks"

definition ixgbe_clear_rst_vf :: "'s device \<Rightarrow> ('s, unit) mbx_prog" where
  "ixgbe_clear_rst_vf d = clear_bits_vf d (IXGBE_VFMAILBOX_RSTI OR IXGBE_VFMAILBOX_RSTD) inc_rsts"

definition ixgbe_check_for_bit_vf :: "'s device \<Rightarrow> u32 \<Rightarrow> ('s, ixgbe_status) mbx_prog" where
  "ixgbe_check_for_bit_vf d bits = do {
     vf_mailbox \<leftarrow> ixgbe_read_mailbox_vf d;
     ret (if vf_mailbox AND bits \<noteq> 0 then IXGBE_SUCCESS else IXGBE_ERR_MBX) }"

definition ixgbe_check_for_msg_vf :: "'s device \<Rightarrow> ('s, ixgbe_status) mbx_prog" where
  "ixgbe_check_for_msg_vf d = do {
     st \<leftarrow> ixgbe_check_for_bit_vf d IXGBE_VFMAILBOX_PFSTS;
     ret (if st = IXGBE_SUCCESS then IXGBE_SUCCESS else IXGBE_ERR_MBX) }"

definition ixgbe_check_for_ack_vf :: "'s device \<Rightarrow> ('s, ixgbe_status) mbx_prog" where
  "ixgbe_check_for_ack_vf d = do {
     st \<leftarrow> ixgbe_check_for_bit_vf d IXGBE_VFMAILBOX_PFACK;
     if st = IXGBE_SUCCESS then do { ixgbe_clear_ack_vf d; ret IXGBE_SUCCESS }
     else ret IXGBE_ERR_MBX }"

definition ixgbe_check_for_rst_vf :: "'s device \<Rightarrow> ('s, ixgbe_status) mbx_prog" where
  "ixgbe_check_for_rst_vf d = do {
     st \<leftarrow> ixgbe_check_for_bit_vf d (IXGBE_VFMAILBOX_RSTI OR IXGBE_VFMAILBOX_RSTD);
     if st = IXGBE_SUCCESS then do { ixgbe_clear_rst_vf d; ret IXGBE_SUCCESS }
     else ret IXGBE_ERR_MBX }"

text \<open>
  The loops count down from \<open>mbx->timeout\<close>; the argument is the number of rounds left.  The
  counter is an \<open>int\<close> in the source; the timeouts it gets are 0 and 2000.
\<close>

primrec lock_loop_vf :: "'s device \<Rightarrow> nat \<Rightarrow> ('s, ixgbe_status) mbx_prog" where
  "lock_loop_vf d 0 = ret IXGBE_ERR_TIMEOUT"
| "lock_loop_vf d (Suc countdown) = do {
     vf_mailbox \<leftarrow> ixgbe_read_mailbox_vf d;
     wr d IXGBE_VFMAILBOX (vf_mailbox OR IXGBE_VFMAILBOX_VFU);
     v \<leftarrow> ixgbe_read_mailbox_vf d;
     if v AND IXGBE_VFMAILBOX_VFU \<noteq> 0 then ret IXGBE_SUCCESS else lock_loop_vf d countdown }"

definition ixgbe_obtain_mbx_lock_vf :: "'s device \<Rightarrow> ('s, ixgbe_status) mbx_prog" where
  "ixgbe_obtain_mbx_lock_vf d = do {
     t \<leftarrow> mbx_get mbx_timeout;
     if t = 0 then ret IXGBE_ERR_CONFIG else lock_loop_vf d (unat t) }"

definition ixgbe_release_mbx_lock_dummy :: "('s, unit) mbx_prog" where
  "ixgbe_release_mbx_lock_dummy = ret ()"

definition ixgbe_release_mbx_lock_vf :: "'s device \<Rightarrow> ('s, unit) mbx_prog" where
  "ixgbe_release_mbx_lock_vf d = do {
     vf_mailbox \<leftarrow> ixgbe_read_mailbox_vf d;
     wr d IXGBE_VFMAILBOX (vf_mailbox AND NOT IXGBE_VFMAILBOX_VFU) }"

text \<open>Copying a message to and from the mailbox memory; \<open>base\<close> is the register array.\<close>

primrec copy_to_mbx :: "'s device \<Rightarrow> (nat \<Rightarrow> reg) \<Rightarrow> u32 list \<Rightarrow> nat \<Rightarrow> ('s, unit) mbx_prog" where
  "copy_to_mbx d base [] i = ret ()"
| "copy_to_mbx d base (w # ws) i = do { wr d (base i) w; copy_to_mbx d base ws (Suc i) }"

primrec copy_from_mbx :: "'s device \<Rightarrow> (nat \<Rightarrow> reg) \<Rightarrow> nat \<Rightarrow> nat \<Rightarrow> ('s, u32 list) mbx_prog" where
  "copy_from_mbx d base 0 i = ret []"
| "copy_from_mbx d base (Suc n) i = do {
     w \<leftarrow> rd d (base i);
     ws \<leftarrow> copy_from_mbx d base n (Suc i);
     ret (w # ws) }"

definition ixgbe_write_mbx_vf_legacy :: "'s device \<Rightarrow> u32 list \<Rightarrow> ('s, ixgbe_status) mbx_prog" where
  "ixgbe_write_mbx_vf_legacy d msg = do {
     ret_val \<leftarrow> ixgbe_obtain_mbx_lock_vf d;
     if ret_val \<noteq> IXGBE_SUCCESS then ret ret_val
     else do {
       ixgbe_check_for_msg_vf d;
       ixgbe_clear_msg_vf d;
       ixgbe_check_for_ack_vf d;
       ixgbe_clear_ack_vf d;
       copy_to_mbx d IXGBE_VFMBMEM msg 0;
       count_stat inc_msgs_tx;
       wr d IXGBE_VFMAILBOX IXGBE_VFMAILBOX_REQ;
       ret IXGBE_SUCCESS } }"

definition ixgbe_read_mbx_vf_legacy :: "'s device \<Rightarrow> nat \<Rightarrow> ('s, ixgbe_status \<times> u32 list) mbx_prog" where
  "ixgbe_read_mbx_vf_legacy d len = do {
     ret_val \<leftarrow> ixgbe_obtain_mbx_lock_vf d;
     if ret_val \<noteq> IXGBE_SUCCESS then ret (ret_val, [])
     else do {
       msg \<leftarrow> copy_from_mbx d IXGBE_VFMBMEM len 0;
       wr d IXGBE_VFMAILBOX IXGBE_VFMAILBOX_ACK;
       count_stat inc_msgs_rx;
       ret (IXGBE_SUCCESS, msg) } }"

definition ixgbe_read_mbx_vf :: "'s device \<Rightarrow> nat \<Rightarrow> ('s, ixgbe_status \<times> u32 list) mbx_prog" where
  "ixgbe_read_mbx_vf d len = do {
     ret_val \<leftarrow> ixgbe_check_for_msg_vf d;
     if ret_val \<noteq> IXGBE_SUCCESS then ret (IXGBE_ERR_MBX_NOMSG, [])
     else do {
       ixgbe_clear_msg_vf d;
       msg \<leftarrow> copy_from_mbx d IXGBE_VFMBMEM len 0;
       vf_mailbox \<leftarrow> ixgbe_read_mailbox_vf d;
       wr d IXGBE_VFMAILBOX (vf_mailbox OR IXGBE_VFMAILBOX_ACK);
       count_stat inc_msgs_rx;
       ret (IXGBE_SUCCESS, msg) } }"

section \<open>PF side\<close>

definition ixgbe_clear_msg_pf :: "'s device \<Rightarrow> nat \<Rightarrow> ('s, unit) mbx_prog" where
  "ixgbe_clear_msg_pf d vf_id = do {
     let vf_shift = IXGBE_PFMBICR_SHIFT vf_id;
     let index = IXGBE_PFMBICR_INDEX vf_id;
     pfmbicr \<leftarrow> rd d (IXGBE_PFMBICR index);
     (if pfmbicr AND push_bit vf_shift IXGBE_PFMBICR_VFREQ_VF1 \<noteq> 0 then count_stat inc_reqs else ret ());
     wr d (IXGBE_PFMBICR index) (push_bit vf_shift IXGBE_PFMBICR_VFREQ_VF1) }"

definition ixgbe_clear_ack_pf :: "'s device \<Rightarrow> nat \<Rightarrow> ('s, unit) mbx_prog" where
  "ixgbe_clear_ack_pf d vf_id = do {
     let vf_shift = IXGBE_PFMBICR_SHIFT vf_id;
     let index = IXGBE_PFMBICR_INDEX vf_id;
     pfmbicr \<leftarrow> rd d (IXGBE_PFMBICR index);
     (if pfmbicr AND push_bit vf_shift IXGBE_PFMBICR_VFACK_VF1 \<noteq> 0 then count_stat inc_acks else ret ());
     wr d (IXGBE_PFMBICR index) (push_bit vf_shift IXGBE_PFMBICR_VFACK_VF1) }"

definition ixgbe_check_for_bit_pf :: "'s device \<Rightarrow> u32 \<Rightarrow> nat \<Rightarrow> ('s, ixgbe_status) mbx_prog" where
  "ixgbe_check_for_bit_pf d bits index = do {
     pfmbicr \<leftarrow> rd d (IXGBE_PFMBICR index);
     ret (if pfmbicr AND bits \<noteq> 0 then IXGBE_SUCCESS else IXGBE_ERR_MBX) }"

definition ixgbe_check_for_msg_pf :: "'s device \<Rightarrow> nat \<Rightarrow> ('s, ixgbe_status) mbx_prog" where
  "ixgbe_check_for_msg_pf d vf_id = do {
     st \<leftarrow> ixgbe_check_for_bit_pf d (push_bit (IXGBE_PFMBICR_SHIFT vf_id) IXGBE_PFMBICR_VFREQ_VF1)
            (IXGBE_PFMBICR_INDEX vf_id);
     ret (if st = IXGBE_SUCCESS then IXGBE_SUCCESS else IXGBE_ERR_MBX) }"

definition ixgbe_check_for_ack_pf :: "'s device \<Rightarrow> nat \<Rightarrow> ('s, ixgbe_status) mbx_prog" where
  "ixgbe_check_for_ack_pf d vf_id = do {
     st \<leftarrow> ixgbe_check_for_bit_pf d (push_bit (IXGBE_PFMBICR_SHIFT vf_id) IXGBE_PFMBICR_VFACK_VF1)
            (IXGBE_PFMBICR_INDEX vf_id);
     if st = IXGBE_SUCCESS then do { ixgbe_clear_ack_pf d vf_id; ret IXGBE_SUCCESS }
     else ret IXGBE_ERR_MBX }"

definition read_vflre :: "'s device \<Rightarrow> nat \<Rightarrow> ('s, u32) mbx_prog" where
  "read_vflre d index = do {
     t \<leftarrow> mbx_get mbx_mac_type;
     case t of
       ixgbe_mac_82599EB \<Rightarrow> rd d (IXGBE_PFVFLRE index)
     | ixgbe_mac_X550 \<Rightarrow> rd d (IXGBE_PFVFLREC index)
     | ixgbe_mac_X550EM_x \<Rightarrow> rd d (IXGBE_PFVFLREC index)
     | ixgbe_mac_X550EM_a \<Rightarrow> rd d (IXGBE_PFVFLREC index)
     | ixgbe_mac_X540 \<Rightarrow> rd d (IXGBE_PFVFLREC index)
     | ixgbe_mac_E610 \<Rightarrow> rd d (IXGBE_PFVFLREC index)
     | _ \<Rightarrow> ret 0 }"

definition ixgbe_check_for_rst_pf :: "'s device \<Rightarrow> nat \<Rightarrow> ('s, ixgbe_status) mbx_prog" where
  "ixgbe_check_for_rst_pf d vf_id = do {
     let vf_shift = IXGBE_PFVFLRE_SHIFT vf_id;
     let index = IXGBE_PFVFLRE_INDEX vf_id;
     vflre \<leftarrow> read_vflre d index;
     if vflre AND BIT vf_shift \<noteq> 0 then do {
       wr d (IXGBE_PFVFLREC index) (BIT vf_shift);
       count_stat inc_rsts;
       ret IXGBE_SUCCESS }
     else ret IXGBE_ERR_MBX }"

primrec lock_loop_pf :: "'s device \<Rightarrow> nat \<Rightarrow> nat \<Rightarrow> ('s, ixgbe_status) mbx_prog" where
  "lock_loop_pf d vf_id 0 = ret IXGBE_ERR_TIMEOUT"
| "lock_loop_pf d vf_id (Suc countdown) = do {
     pf_mailbox \<leftarrow> rd d (IXGBE_PFMAILBOX vf_id);
     if pf_mailbox AND IXGBE_PFMAILBOX_PFU \<noteq> 0 then lock_loop_pf d vf_id countdown
     else do {
       wr d (IXGBE_PFMAILBOX vf_id) (pf_mailbox OR IXGBE_PFMAILBOX_PFU);
       pf_mailbox \<leftarrow> rd d (IXGBE_PFMAILBOX vf_id);
       if pf_mailbox AND IXGBE_PFMAILBOX_PFU \<noteq> 0 then ret IXGBE_SUCCESS
       else lock_loop_pf d vf_id countdown } }"

definition ixgbe_obtain_mbx_lock_pf :: "'s device \<Rightarrow> nat \<Rightarrow> ('s, ixgbe_status) mbx_prog" where
  "ixgbe_obtain_mbx_lock_pf d vf_id = do {
     t \<leftarrow> mbx_get mbx_timeout;
     if t = 0 then ret IXGBE_ERR_CONFIG else lock_loop_pf d vf_id (unat t) }"

definition ixgbe_release_mbx_lock_pf :: "'s device \<Rightarrow> nat \<Rightarrow> ('s, unit) mbx_prog" where
  "ixgbe_release_mbx_lock_pf d vf_id = do {
     pf_mailbox \<leftarrow> rd d (IXGBE_PFMAILBOX vf_id);
     wr d (IXGBE_PFMAILBOX vf_id) (pf_mailbox AND NOT IXGBE_PFMAILBOX_PFU) }"

definition ixgbe_write_mbx_pf_legacy ::
  "'s device \<Rightarrow> u32 list \<Rightarrow> nat \<Rightarrow> ('s, ixgbe_status) mbx_prog" where
  "ixgbe_write_mbx_pf_legacy d msg vf_id = do {
     ret_val \<leftarrow> ixgbe_obtain_mbx_lock_pf d vf_id;
     if ret_val \<noteq> IXGBE_SUCCESS then ret ret_val
     else do {
       ixgbe_check_for_msg_pf d vf_id;
       ixgbe_clear_msg_pf d vf_id;
       ixgbe_check_for_ack_pf d vf_id;
       ixgbe_clear_ack_pf d vf_id;
       copy_to_mbx d (IXGBE_PFMBMEM vf_id) msg 0;
       wr d (IXGBE_PFMAILBOX vf_id) IXGBE_PFMAILBOX_STS;
       count_stat inc_msgs_tx;
       ret IXGBE_SUCCESS } }"

definition ixgbe_read_mbx_pf_legacy ::
  "'s device \<Rightarrow> nat \<Rightarrow> nat \<Rightarrow> ('s, ixgbe_status \<times> u32 list) mbx_prog" where
  "ixgbe_read_mbx_pf_legacy d len vf_id = do {
     ret_val \<leftarrow> ixgbe_obtain_mbx_lock_pf d vf_id;
     if ret_val \<noteq> IXGBE_SUCCESS then ret (ret_val, [])
     else do {
       msg \<leftarrow> copy_from_mbx d (IXGBE_PFMBMEM vf_id) len 0;
       wr d (IXGBE_PFMAILBOX vf_id) IXGBE_PFMAILBOX_ACK;
       count_stat inc_msgs_rx;
       ret (IXGBE_SUCCESS, msg) } }"

definition ixgbe_read_mbx_pf ::
  "'s device \<Rightarrow> nat \<Rightarrow> nat \<Rightarrow> ('s, ixgbe_status \<times> u32 list) mbx_prog" where
  "ixgbe_read_mbx_pf d len vf_id = do {
     ret_val \<leftarrow> ixgbe_check_for_msg_pf d vf_id;
     if ret_val \<noteq> IXGBE_SUCCESS then ret (IXGBE_ERR_MBX_NOMSG, [])
     else do {
       ixgbe_clear_msg_pf d vf_id;
       msg \<leftarrow> copy_from_mbx d (IXGBE_PFMBMEM vf_id) len 0;
       pf_mailbox \<leftarrow> rd d (IXGBE_PFMAILBOX vf_id);
       wr d (IXGBE_PFMAILBOX vf_id) (pf_mailbox OR IXGBE_PFMAILBOX_ACK);
       count_stat inc_msgs_rx;
       ret (IXGBE_SUCCESS, msg) } }"

definition ixgbe_clear_mbx_pf :: "'s device \<Rightarrow> nat \<Rightarrow> ('s, ixgbe_status) mbx_prog" where
  "ixgbe_clear_mbx_pf d vf_id = do {
     len \<leftarrow> mbx_get mbx_size;
     if vf_id > 63 then ret IXGBE_ERR_PARAM
     else do {
       copy_to_mbx d (IXGBE_PFMBMEM vf_id) (replicate (unat len) 0) 0;
       ret IXGBE_SUCCESS } }"

section \<open>Operation tables, dispatch and polling\<close>

definition has_mbx_ops :: "ixgbe_mbx_operations \<Rightarrow> bool" where
  "has_mbx_ops t \<longleftrightarrow> t \<noteq> MbxNull"

fun mbx_check_for_msg :: "'s device \<Rightarrow> ixgbe_mbx_operations \<Rightarrow> nat \<Rightarrow> ('s, ixgbe_status) mbx_prog" where
  "mbx_check_for_msg d MbxNull mbx_id = ret IXGBE_ERR_CONFIG"
| "mbx_check_for_msg d MbxVfLegacy mbx_id = ixgbe_check_for_msg_vf d"
| "mbx_check_for_msg d MbxVf mbx_id = ixgbe_check_for_msg_vf d"
| "mbx_check_for_msg d MbxPfLegacy mbx_id = ixgbe_check_for_msg_pf d mbx_id"
| "mbx_check_for_msg d MbxPf mbx_id = ixgbe_check_for_msg_pf d mbx_id"

fun mbx_check_for_ack :: "'s device \<Rightarrow> ixgbe_mbx_operations \<Rightarrow> nat \<Rightarrow> ('s, ixgbe_status) mbx_prog" where
  "mbx_check_for_ack d MbxNull mbx_id = ret IXGBE_ERR_CONFIG"
| "mbx_check_for_ack d MbxVfLegacy mbx_id = ixgbe_check_for_ack_vf d"
| "mbx_check_for_ack d MbxVf mbx_id = ixgbe_check_for_ack_vf d"
| "mbx_check_for_ack d MbxPfLegacy mbx_id = ixgbe_check_for_ack_pf d mbx_id"
| "mbx_check_for_ack d MbxPf mbx_id = ixgbe_check_for_ack_pf d mbx_id"

fun mbx_check_for_rst :: "'s device \<Rightarrow> ixgbe_mbx_operations \<Rightarrow> nat \<Rightarrow> ('s, ixgbe_status) mbx_prog" where
  "mbx_check_for_rst d MbxNull mbx_id = ret IXGBE_ERR_CONFIG"
| "mbx_check_for_rst d MbxVfLegacy mbx_id = ixgbe_check_for_rst_vf d"
| "mbx_check_for_rst d MbxVf mbx_id = ixgbe_check_for_rst_vf d"
| "mbx_check_for_rst d MbxPfLegacy mbx_id = ixgbe_check_for_rst_pf d mbx_id"
| "mbx_check_for_rst d MbxPf mbx_id = ixgbe_check_for_rst_pf d mbx_id"

fun mbx_release :: "'s device \<Rightarrow> ixgbe_mbx_operations \<Rightarrow> nat \<Rightarrow> ('s, unit) mbx_prog" where
  "mbx_release d MbxVf mbx_id = ixgbe_release_mbx_lock_vf d"
| "mbx_release d MbxPf mbx_id = ixgbe_release_mbx_lock_pf d mbx_id"
| "mbx_release d _ mbx_id = ixgbe_release_mbx_lock_dummy"

text \<open>
  The polling loop shared by \<open>ixgbe_poll_for_msg\<close> and \<open>ixgbe_poll_for_ack\<close>: true when the
  check succeeded before the countdown reached 0.
\<close>

primrec poll_loop :: "('h, ixgbe_status) state \<Rightarrow> nat \<Rightarrow> ('h, bool) state" where
  "poll_loop check 0 = ret False"
| "poll_loop check (Suc countdown) = do {
     st \<leftarrow> check;
     if st = IXGBE_SUCCESS then ret True else poll_loop check countdown }"

definition ixgbe_poll_for_msg :: "'s device \<Rightarrow> nat \<Rightarrow> ('s, ixgbe_status) mbx_prog" where
  "ixgbe_poll_for_msg d mbx_id = do {
     t \<leftarrow> mbx_get mbx_timeout;
     ops \<leftarrow> mbx_get (\<lambda>h. mbx_ops h mbx_id);
     if t = 0 \<or> \<not> has_mbx_ops ops then ret IXGBE_ERR_CONFIG
     else do {
       ok \<leftarrow> poll_loop (mbx_check_for_msg d ops mbx_id) (unat t);
       ret (if ok then IXGBE_SUCCESS else IXGBE_ERR_TIMEOUT) } }"

definition ixgbe_poll_for_ack :: "'s device \<Rightarrow> nat \<Rightarrow> ('s, ixgbe_status) mbx_prog" where
  "ixgbe_poll_for_ack d mbx_id = do {
     t \<leftarrow> mbx_get mbx_timeout;
     ops \<leftarrow> mbx_get (\<lambda>h. mbx_ops h mbx_id);
     if t = 0 \<or> \<not> has_mbx_ops ops then ret IXGBE_ERR_CONFIG
     else do {
       ok \<leftarrow> poll_loop (mbx_check_for_ack d ops mbx_id) (unat t);
       ret (if ok then IXGBE_SUCCESS else IXGBE_ERR_TIMEOUT) } }"

definition ixgbe_write_mbx_vf :: "'s device \<Rightarrow> u32 list \<Rightarrow> nat \<Rightarrow> ('s, ixgbe_status) mbx_prog" where
  "ixgbe_write_mbx_vf d msg mbx_id = do {
     ret_val \<leftarrow> ixgbe_obtain_mbx_lock_vf d;
     (if ret_val \<noteq> IXGBE_SUCCESS then ret ()
      else do {
        ixgbe_clear_msg_vf d;
        ixgbe_clear_ack_vf d;
        copy_to_mbx d IXGBE_VFMBMEM msg 0;
        count_stat inc_msgs_tx;
        vf_mailbox \<leftarrow> ixgbe_read_mailbox_vf d;
        wr d IXGBE_VFMAILBOX (vf_mailbox OR IXGBE_VFMAILBOX_REQ);
        ixgbe_poll_for_ack d mbx_id;
        ret () });
     ops \<leftarrow> mbx_get (\<lambda>h. mbx_ops h mbx_id);
     mbx_release d ops mbx_id;
     ret ret_val }"

definition ixgbe_write_mbx_pf :: "'s device \<Rightarrow> u32 list \<Rightarrow> nat \<Rightarrow> ('s, ixgbe_status) mbx_prog" where
  "ixgbe_write_mbx_pf d msg vf_id = do {
     ret_val \<leftarrow> ixgbe_obtain_mbx_lock_pf d vf_id;
     (if ret_val \<noteq> IXGBE_SUCCESS then ret ()
      else do {
        ixgbe_clear_msg_pf d vf_id;
        ixgbe_clear_ack_pf d vf_id;
        copy_to_mbx d (IXGBE_PFMBMEM vf_id) msg 0;
        pf_mailbox \<leftarrow> rd d (IXGBE_PFMAILBOX vf_id);
        wr d (IXGBE_PFMAILBOX vf_id) (pf_mailbox OR IXGBE_PFMAILBOX_STS);
        (if msg ! 0 AND IXGBE_VT_MSGTYPE_CTS \<noteq> 0
         then do { ixgbe_poll_for_ack d vf_id; ret () } else ret ());
        count_stat inc_msgs_tx });
     ops \<leftarrow> mbx_get (\<lambda>h. mbx_ops h vf_id);
     mbx_release d ops vf_id;
     ret ret_val }"

fun mbx_read :: "'s device \<Rightarrow> ixgbe_mbx_operations \<Rightarrow> nat \<Rightarrow> nat \<Rightarrow> ('s, ixgbe_status \<times> u32 list) mbx_prog" where
  "mbx_read d MbxNull len mbx_id = ret (IXGBE_ERR_CONFIG, [])"
| "mbx_read d MbxVfLegacy len mbx_id = ixgbe_read_mbx_vf_legacy d len"
| "mbx_read d MbxVf len mbx_id = ixgbe_read_mbx_vf d len"
| "mbx_read d MbxPfLegacy len mbx_id = ixgbe_read_mbx_pf_legacy d len mbx_id"
| "mbx_read d MbxPf len mbx_id = ixgbe_read_mbx_pf d len mbx_id"

fun mbx_write :: "'s device \<Rightarrow> ixgbe_mbx_operations \<Rightarrow> u32 list \<Rightarrow> nat \<Rightarrow> ('s, ixgbe_status) mbx_prog" where
  "mbx_write d MbxNull msg mbx_id = ret IXGBE_ERR_CONFIG"
| "mbx_write d MbxVfLegacy msg mbx_id = ixgbe_write_mbx_vf_legacy d msg"
| "mbx_write d MbxVf msg mbx_id = ixgbe_write_mbx_vf d msg mbx_id"
| "mbx_write d MbxPfLegacy msg mbx_id = ixgbe_write_mbx_pf_legacy d msg mbx_id"
| "mbx_write d MbxPf msg mbx_id = ixgbe_write_mbx_pf d msg mbx_id"

section \<open>Entry points\<close>

text \<open>The size is limited to the size of the mailbox before a read; a longer write is refused.\<close>

definition ixgbe_read_mbx :: "'s device \<Rightarrow> u16 \<Rightarrow> nat \<Rightarrow> ('s, ixgbe_status \<times> u32 list) mbx_prog" where
  "ixgbe_read_mbx d len mbx_id = do {
     mx \<leftarrow> mbx_get mbx_size;
     ops \<leftarrow> mbx_get (\<lambda>h. mbx_ops h mbx_id);
     let len = (if len > mx then mx else len);
     mbx_read d ops (unat len) mbx_id }"

definition ixgbe_poll_mbx :: "'s device \<Rightarrow> u16 \<Rightarrow> nat \<Rightarrow> ('s, ixgbe_status \<times> u32 list) mbx_prog" where
  "ixgbe_poll_mbx d len mbx_id = do {
     mx \<leftarrow> mbx_get mbx_size;
     t \<leftarrow> mbx_get mbx_timeout;
     ops \<leftarrow> mbx_get (\<lambda>h. mbx_ops h mbx_id);
     if \<not> has_mbx_ops ops \<or> t = 0 then ret (IXGBE_ERR_CONFIG, [])
     else do {
       let len = (if len > mx then mx else len);
       ret_val \<leftarrow> ixgbe_poll_for_msg d mbx_id;
       if ret_val = IXGBE_SUCCESS then mbx_read d ops (unat len) mbx_id
       else ret (ret_val, []) } }"

definition ixgbe_write_mbx :: "'s device \<Rightarrow> u32 list \<Rightarrow> nat \<Rightarrow> ('s, ixgbe_status) mbx_prog" where
  "ixgbe_write_mbx d msg mbx_id = do {
     mx \<leftarrow> mbx_get mbx_size;
     t \<leftarrow> mbx_get mbx_timeout;
     ops \<leftarrow> mbx_get (\<lambda>h. mbx_ops h mbx_id);
     if \<not> has_mbx_ops ops \<or> t = 0 then ret IXGBE_ERR_CONFIG
     else if length msg > unat mx then ret IXGBE_ERR_PARAM
     else mbx_write d ops msg mbx_id }"

definition ixgbe_check_for_msg :: "'s device \<Rightarrow> nat \<Rightarrow> ('s, ixgbe_status) mbx_prog" where
  "ixgbe_check_for_msg d mbx_id = do {
     ops \<leftarrow> mbx_get (\<lambda>h. mbx_ops h mbx_id); mbx_check_for_msg d ops mbx_id }"

definition ixgbe_check_for_ack :: "'s device \<Rightarrow> nat \<Rightarrow> ('s, ixgbe_status) mbx_prog" where
  "ixgbe_check_for_ack d mbx_id = do {
     ops \<leftarrow> mbx_get (\<lambda>h. mbx_ops h mbx_id); mbx_check_for_ack d ops mbx_id }"

definition ixgbe_check_for_rst :: "'s device \<Rightarrow> nat \<Rightarrow> ('s, ixgbe_status) mbx_prog" where
  "ixgbe_check_for_rst d mbx_id = do {
     ops \<leftarrow> mbx_get (\<lambda>h. mbx_ops h mbx_id); mbx_check_for_rst d ops mbx_id }"

text \<open>Only the PF tables have a \<open>clear\<close> entry.\<close>

definition ixgbe_clear_mbx :: "'s device \<Rightarrow> nat \<Rightarrow> ('s, ixgbe_status) mbx_prog" where
  "ixgbe_clear_mbx d mbx_id = do {
     ops \<leftarrow> mbx_get (\<lambda>h. mbx_ops h mbx_id);
     if ops = MbxPfLegacy \<or> ops = MbxPf then ixgbe_clear_mbx_pf d mbx_id else ret IXGBE_ERR_CONFIG }"

section \<open>Initialisation\<close>

definition no_stats :: ixgbe_mbx_stats where
  "no_stats = \<lparr>msgs_tx = 0, msgs_rx = 0, acks = 0, reqs = 0, rsts = 0\<rparr>"

definition mbx_params :: "'s ixgbe_mbx_info \<Rightarrow> 's ixgbe_mbx_info" where
  "mbx_params h = h\<lparr>mbx_timeout := IXGBE_VF_MBX_INIT_TIMEOUT, mbx_usec_delay := IXGBE_VF_MBX_INIT_DELAY,
     mbx_size := IXGBE_VFMAILBOX_SIZE, mbx_stats := no_stats\<rparr>"

definition ixgbe_init_mbx_params_vf :: "'s ixgbe_mbx_info \<Rightarrow> 's ixgbe_mbx_info" where
  "ixgbe_init_mbx_params_vf h = (mbx_params h)\<lparr>mbx_ops := (mbx_ops h)(0 := MbxVfLegacy)\<rparr>"

definition ixgbe_upgrade_mbx_params_vf :: "'s ixgbe_mbx_info \<Rightarrow> 's ixgbe_mbx_info" where
  "ixgbe_upgrade_mbx_params_vf h = (mbx_params h)\<lparr>mbx_ops := (mbx_ops h)(0 := MbxVf)\<rparr>"

definition mbx_pf_mac :: "ixgbe_mac_type \<Rightarrow> bool" where
  "mbx_pf_mac t \<longleftrightarrow> t \<in> {ixgbe_mac_82599EB, ixgbe_mac_X550, ixgbe_mac_X550EM_x, ixgbe_mac_X550EM_a,
     ixgbe_mac_X540, ixgbe_mac_E610}"

definition ixgbe_init_mbx_params_pf_id :: "nat \<Rightarrow> 's ixgbe_mbx_info \<Rightarrow> 's ixgbe_mbx_info" where
  "ixgbe_init_mbx_params_pf_id vf_id h = h\<lparr>mbx_ops := (mbx_ops h)(vf_id := MbxPfLegacy)\<rparr>"

definition ixgbe_init_mbx_params_pf :: "'s ixgbe_mbx_info \<Rightarrow> 's ixgbe_mbx_info" where
  "ixgbe_init_mbx_params_pf h =
     (if \<not> mbx_pf_mac (mbx_mac_type h) then h
      else for_upto 0 64 ixgbe_init_mbx_params_pf_id (mbx_params h))"

definition ixgbe_upgrade_mbx_params_pf :: "nat \<Rightarrow> 's ixgbe_mbx_info \<Rightarrow> 's ixgbe_mbx_info" where
  "ixgbe_upgrade_mbx_params_pf vf_id h =
     (if \<not> mbx_pf_mac (mbx_mac_type h) then h
      else (mbx_params h)\<lparr>mbx_ops := (mbx_ops h)(vf_id := MbxPf)\<rparr>)"

section \<open>Reasoning about mailbox programs\<close>

lemma run_prims [simp]:
  "run_state (rd d r) h = (fst (dev_read d r (mbx_dev_state h)), h\<lparr>mbx_dev_state := snd (dev_read d r (mbx_dev_state h))\<rparr>)"
  "run_state (wr d r v) h = ((), h\<lparr>mbx_dev_state := dev_write d r v (mbx_dev_state h)\<rparr>)"
  "run_state (mbx_get f) h = (f h, h)"
  "run_state (count_stat g) h = ((), h\<lparr>mbx_stats := g (mbx_stats h)\<rparr>)"
  "run_state (set_vf_mailbox w) h = ((), h\<lparr>mbx_vf_mailbox := w\<rparr>)"
  by (simp_all add: rd_def wr_def mbx_get_def count_stat_def set_vf_mailbox_def case_prod_beta)

lemma keeps_get [keeps_intros]: "keeps f (mbx_get g)"
  by (simp add: keeps_def)

text \<open>
  What the code relies on of the mailbox memory of one VF behind the registers \<open>base\<close>: a word
  reads back as it was written, and no other access changes it.
\<close>

definition mbx_mem :: "'s device \<Rightarrow> (nat \<Rightarrow> reg) \<Rightarrow> ('s \<Rightarrow> nat \<Rightarrow> u32) \<Rightarrow> bool" where
  "mbx_mem d base mem \<longleftrightarrow>
     (\<forall>i s. fst (dev_read d (base i) s) = mem s i) \<and>
     (\<forall>r s. mem (snd (dev_read d r s)) = mem s) \<and>
     (\<forall>i x s. mem (dev_write d (base i) x s) = (mem s)(i := x)) \<and>
     (\<forall>r x s. r \<notin> range base \<longrightarrow> mem (dev_write d r x s) = mem s)"

lemma mbx_memD:
  assumes "mbx_mem d base mem"
  shows "fst (dev_read d (base i) s) = mem s i" "mem (snd (dev_read d r s)) = mem s"
    "mem (dev_write d (base i) x s) = (mem s)(i := x)" "r \<notin> range base \<Longrightarrow> mem (dev_write d r x s) = mem s"
  using assms by (auto simp: mbx_mem_def)

abbreviation mem_of :: "('s \<Rightarrow> 'm) \<Rightarrow> 's ixgbe_mbx_info \<Rightarrow> 'm" where
  "mem_of mem h \<equiv> mem (mbx_dev_state h)"

text \<open>An observation that the reads and the writes outside a set of registers keep.\<close>

definition mbx_obs :: "'s device \<Rightarrow> reg set \<Rightarrow> ('s \<Rightarrow> 'm) \<Rightarrow> bool" where
  "mbx_obs d R obs \<longleftrightarrow> (\<forall>r s. obs (snd (dev_read d r s)) = obs s) \<and>
     (\<forall>r x s. r \<notin> R \<longrightarrow> obs (dev_write d r x s) = obs s)"

lemma mbx_mem_obs: "mbx_mem d base mem \<Longrightarrow> mbx_obs d (range base) mem"
  by (simp add: mbx_mem_def mbx_obs_def)

lemma mbx_mem_word:
  assumes "mbx_mem d base mem"
  shows "mbx_obs d {base k} (\<lambda>s. mem s k)"
proof -
  have "mem (dev_write d r x s) k = mem s k" if "r \<noteq> base k" for r x s
    using that mbx_memD(3,4) [OF assms] by (cases "r \<in> range base") auto
  then show ?thesis using mbx_memD(2) [OF assms] by (simp add: mbx_obs_def)
qed

lemma keeps_prims:
  assumes "mbx_obs d R mem"
  shows "keeps (mem_of mem) (rd d r)" "r \<notin> R \<Longrightarrow> keeps (mem_of mem) (wr d r v)"
    "keeps (mem_of mem) (count_stat g)" "keeps (mem_of mem) (set_vf_mailbox w)"
  using assms by (simp_all add: keeps_def mbx_obs_def)

text \<open>The registers that hold messages.\<close>

definition msg_regs :: "reg set \<Rightarrow> bool" where
  "msg_regs R \<longleftrightarrow> R \<subseteq> range IXGBE_VFMBMEM \<union> range (IXGBE_PFMBMEM 0)"

lemma msg_regs_arrays: "msg_regs (range IXGBE_VFMBMEM)" "msg_regs (range (IXGBE_PFMBMEM vf))" "msg_regs {IXGBE_PFMBMEM vf k}"
  by (auto simp: msg_regs_def)

lemma msg_regs_other:
  assumes "msg_regs R"
  shows "IXGBE_VFMAILBOX \<notin> R" "IXGBE_PFMAILBOX i \<notin> R" "IXGBE_PFMBICR i \<notin> R" "IXGBE_PFVFLREC i \<notin> R"
  using assms by (auto simp: msg_regs_def)

lemma keeps_vf:
  assumes "mbx_obs d R mem" "msg_regs R"
  shows "keeps (mem_of mem) (ixgbe_read_mailbox_vf d)" "keeps (mem_of mem) (clear_bits_vf d b i)"
    "keeps (mem_of mem) (ixgbe_check_for_bit_vf d b)" "keeps (mem_of mem) (lock_loop_vf d n)"
    "keeps (mem_of mem) (ixgbe_release_mbx_lock_vf d)" "keeps (mem_of mem) (ixgbe_check_for_msg_vf d)"
    "keeps (mem_of mem) (ixgbe_check_for_ack_vf d)"
proof -
  note [keeps_intros] = keeps_prims [OF assms(1)] msg_regs_other [OF assms(2)]
  show r [keeps_intros]: "keeps (mem_of mem) (ixgbe_read_mailbox_vf d)"
    unfolding ixgbe_read_mailbox_vf_def Let_def by (intro keeps_intros)
  show [keeps_intros]: "keeps (mem_of mem) (clear_bits_vf d b i)" "keeps (mem_of mem) (ixgbe_check_for_bit_vf d b)"
    "keeps (mem_of mem) (ixgbe_release_mbx_lock_vf d)" for b i
    unfolding clear_bits_vf_def ixgbe_check_for_bit_vf_def ixgbe_release_mbx_lock_vf_def
    by (intro keeps_intros)+
  show "keeps (mem_of mem) (ixgbe_check_for_msg_vf d)" "keeps (mem_of mem) (ixgbe_check_for_ack_vf d)"
    unfolding ixgbe_check_for_msg_vf_def ixgbe_check_for_ack_vf_def ixgbe_clear_ack_vf_def
    by (intro keeps_intros)+
  show "keeps (mem_of mem) (lock_loop_vf d n)"
  proof (induction n)
    case 0
    show ?case unfolding lock_loop_vf.simps by (rule keeps_ret)
  next
    case (Suc n)
    show ?case unfolding lock_loop_vf.simps by (intro keeps_intros Suc.IH)
  qed
qed

lemma keeps_pf:
  assumes "mbx_obs d R mem" "msg_regs R"
  shows "keeps (mem_of mem) (ixgbe_clear_msg_pf d vf)" "keeps (mem_of mem) (ixgbe_clear_ack_pf d vf)"
    "keeps (mem_of mem) (ixgbe_check_for_bit_pf d b i)" "keeps (mem_of mem) (ixgbe_check_for_msg_pf d vf)"
    "keeps (mem_of mem) (ixgbe_check_for_ack_pf d vf)" "keeps (mem_of mem) (lock_loop_pf d vf n)"
    "keeps (mem_of mem) (ixgbe_release_mbx_lock_pf d vf)"
proof -
  note [keeps_intros] = keeps_prims [OF assms(1)] msg_regs_other [OF assms(2)]
  show c [keeps_intros]: "keeps (mem_of mem) (ixgbe_clear_msg_pf d vf)" "keeps (mem_of mem) (ixgbe_clear_ack_pf d vf)"
    "keeps (mem_of mem) (ixgbe_check_for_bit_pf d b i)" for b i
    unfolding ixgbe_clear_msg_pf_def ixgbe_clear_ack_pf_def ixgbe_check_for_bit_pf_def Let_def
    by (intro keeps_intros)+
  show "keeps (mem_of mem) (ixgbe_check_for_msg_pf d vf)" "keeps (mem_of mem) (ixgbe_check_for_ack_pf d vf)"
    "keeps (mem_of mem) (ixgbe_release_mbx_lock_pf d vf)"
    unfolding ixgbe_check_for_msg_pf_def ixgbe_check_for_ack_pf_def ixgbe_release_mbx_lock_pf_def
    by (intro keeps_intros)+
  show "keeps (mem_of mem) (lock_loop_pf d vf n)"
  proof (induction n)
    case 0
    show ?case unfolding lock_loop_pf.simps by (rule keeps_ret)
  next
    case (Suc n)
    show ?case unfolding lock_loop_pf.simps by (intro keeps_intros Suc.IH)
  qed
qed

lemma keeps_poll_loop: "keeps f c \<Longrightarrow> keeps f (poll_loop c n)"
proof (induction n)
  case 0
  show ?case unfolding poll_loop.simps by (rule keeps_ret)
next
  case (Suc n)
  then show ?case unfolding poll_loop.simps by (intro keeps_intros)
qed

text \<open>Everything but the copying of a message keeps the mailbox memory.\<close>

lemma keeps_mem:
  assumes "mbx_obs d R mem" "msg_regs R"
  shows "keeps (mem_of mem) (mbx_check_for_msg d ops i)" "keeps (mem_of mem) (mbx_check_for_ack d ops i)"
    "keeps (mem_of mem) (mbx_release d ops i)" "keeps (mem_of mem) (ixgbe_obtain_mbx_lock_vf d)"
    "keeps (mem_of mem) (ixgbe_obtain_mbx_lock_pf d i)" "keeps (mem_of mem) (ixgbe_poll_for_ack d i)"
    "keeps (mem_of mem) (ixgbe_poll_for_msg d i)" "keeps (mem_of mem) (copy_from_mbx d b n j)"
proof -
  note [keeps_intros] = keeps_prims [OF assms(1)] msg_regs_other [OF assms(2)] keeps_vf [OF assms] keeps_pf [OF assms]
  show m [keeps_intros]: "keeps (mem_of mem) (mbx_check_for_msg d ops i)" "keeps (mem_of mem) (mbx_check_for_ack d ops i)"
    "keeps (mem_of mem) (mbx_release d ops i)" for ops i
    using keeps_vf [OF assms] keeps_pf [OF assms]
    by (cases ops; simp add: keeps_ret ixgbe_release_mbx_lock_dummy_def)+
  show "keeps (mem_of mem) (ixgbe_obtain_mbx_lock_vf d)" "keeps (mem_of mem) (ixgbe_obtain_mbx_lock_pf d i)"
    unfolding ixgbe_obtain_mbx_lock_vf_def ixgbe_obtain_mbx_lock_pf_def by (intro keeps_intros)+
  show "keeps (mem_of mem) (ixgbe_poll_for_ack d i)" "keeps (mem_of mem) (ixgbe_poll_for_msg d i)"
    unfolding ixgbe_poll_for_ack_def ixgbe_poll_for_msg_def by (intro keeps_intros keeps_poll_loop)+
  show "keeps (mem_of mem) (copy_from_mbx d b n j)"
  proof (induction n arbitrary: j)
    case 0
    show ?case unfolding copy_from_mbx.simps by (rule keeps_ret)
  next
    case (Suc n)
    show ?case unfolding copy_from_mbx.simps by (intro keeps_intros Suc.IH)
  qed
qed

section \<open>Messages\<close>

text \<open>The memory with a message at its start.\<close>

definition mem_put :: "(nat \<Rightarrow> u32) \<Rightarrow> u32 list \<Rightarrow> nat \<Rightarrow> u32" where
  "mem_put m msg j = (if j < length msg then msg ! j else m j)"

lemma copy_to_mbx_mem:
  assumes "mbx_mem d base mem" "run_state (copy_to_mbx d base msg i) h = (x, h')"
  shows "mem_of mem h' j = (if i \<le> j \<and> j < i + length msg then msg ! (j - i) else mem_of mem h j)"
  using assms(2)
proof (induction msg arbitrary: i h)
  case Nil
  then show ?case by auto
next
  case (Cons w ws)
  let ?h = "h\<lparr>mbx_dev_state := dev_write d (base i) w (mbx_dev_state h)\<rparr>"
  have "run_state (copy_to_mbx d base ws (Suc i)) ?h = (x, h')" using Cons.prems by simp
  from Cons.IH [OF this] show ?case
    using mbx_memD(3) [OF assms(1)] by (auto simp: nth_Cons' Suc_le_eq)
qed

lemma copy_to_mbx_put:
  assumes "mbx_mem d base mem" "run_state (copy_to_mbx d base msg 0) h = (x, h')"
  shows "mem_of mem h' = mem_put (mem_of mem h) msg"
  using copy_to_mbx_mem [OF assms] by (auto simp: mem_put_def)

lemma copy_to_mbx_other:
  assumes "mbx_obs d R mem" "\<And>k. i \<le> k \<Longrightarrow> k < i + length msg \<Longrightarrow> arr k \<notin> R"
  shows "keeps (mem_of mem) (copy_to_mbx d arr msg i)"
  using assms(2)
proof (induction msg arbitrary: i)
  case Nil
  show ?case unfolding copy_to_mbx.simps by (rule keeps_ret)
next
  case (Cons w ws)
  show ?case
    unfolding copy_to_mbx.simps
    by (intro keeps_bind Cons.IH keeps_prims(2) [OF assms(1)] Cons.prems) simp_all
qed

lemma copy_from_mbx_mem:
  assumes "mbx_mem d base mem" "run_state (copy_from_mbx d base n i) h = (ws, h')"
  shows "ws = map (mem_of mem h) [i..<i + n]"
  using assms(2)
proof (induction n arbitrary: i h ws h')
  case 0
  then show ?case by simp
next
  case (Suc n)
  let ?h = "h\<lparr>mbx_dev_state := snd (dev_read d (base i) (mbx_dev_state h))\<rparr>"
  obtain ws' h1 where 1: "run_state (copy_from_mbx d base n (Suc i)) ?h = (ws', h1)" by fastforce
  have "ws = mem_of mem h i # ws'"
    using Suc.prems 1 mbx_memD(1) [OF assms(1)] by simp
  moreover have "[i..<i + Suc n] = i # [Suc i..<Suc i + n]" by (simp add: upt_conv_Cons del: upt_Suc)
  ultimately show ?case using Suc.IH [OF 1] mbx_memD(2) [OF assms(1)] by (simp del: upt_Suc)
qed

lemma changes_copy:
  assumes "mbx_mem d base mem"
  shows "changes (mem_of mem) (\<lambda>m. mem_put m msg) (copy_to_mbx d base msg 0)"
  unfolding changes_def
proof
  fix h
  obtain u h1 where 1: "run_state (copy_to_mbx d base msg 0) h = (u, h1)" by (rule prod.exhaust)
  show "mem_of mem (snd (run_state (copy_to_mbx d base msg 0) h)) = mem_put (mem_of mem h) msg"
    using copy_to_mbx_put [OF assms 1] 1 by simp
qed

lemma write_mbx_pf_body:
  assumes "mbx_mem d (IXGBE_PFMBMEM vf) mem"
  shows "changes (mem_of mem) (\<lambda>m. mem_put m msg) (do {
        ixgbe_clear_msg_pf d vf;
        ixgbe_clear_ack_pf d vf;
        copy_to_mbx d (IXGBE_PFMBMEM vf) msg 0;
        pf_mailbox \<leftarrow> rd d (IXGBE_PFMAILBOX vf);
        wr d (IXGBE_PFMAILBOX vf) (pf_mailbox OR IXGBE_PFMAILBOX_STS);
        (if msg ! 0 AND IXGBE_VT_MSGTYPE_CTS \<noteq> 0
         then do { ixgbe_poll_for_ack d vf; ret () } else ret ());
        count_stat inc_msgs_tx })"
proof -
  have arr: "msg_regs (range (IXGBE_PFMBMEM vf))" by (rule msg_regs_arrays)
  note [keeps_intros] = keeps_prims [OF mbx_mem_obs [OF assms(1)]] keeps_pf [OF mbx_mem_obs [OF assms(1)] arr] keeps_mem [OF mbx_mem_obs [OF assms(1)] arr]
    msg_regs_other [OF arr]
  show ?thesis
    by (rule changes_before [OF _ changes_before [OF _ changes_after [OF changes_copy [OF assms]]]])
      (intro keeps_intros)+
qed

text \<open>
  The shape of a locked write: the lock decides the result, the body runs when it was obtained, and
  the tail runs in any case.
\<close>

lemma locked_change:
  assumes "keeps f lock" "changes f F body" "\<And>rv. keeps f (fin rv)" "\<And>rv h. fst (run_state (fin rv) h) = rv"
    and "run_state (do { rv \<leftarrow> lock; (if rv \<noteq> IXGBE_SUCCESS then ret () else body); fin rv }) h = (st, h')"
  shows "f h' = (if st = IXGBE_SUCCESS then F (f h) else f h)"
proof -
  obtain rv h1 where 1: "run_state lock h = (rv, h1)" by fastforce
  obtain u h2 where 2: "run_state (if rv \<noteq> IXGBE_SUCCESS then ret () else body) h1 = (u, h2)"
    by (rule prod.exhaust)
  have 3: "run_state (fin rv) h2 = (st, h')" using assms(5) 1 2 by simp
  have "st = rv" using assms(4) [of rv h2] 3 by simp
  moreover have "f h' = f h2" "f h1 = f h" using keepsD [OF assms(3) 3] keepsD [OF assms(1) 1] by simp_all
  moreover have "f h2 = (if rv = IXGBE_SUCCESS then F (f h1) else f h1)"
  proof (cases "rv = IXGBE_SUCCESS")
    case True
    then have "f h2 = F (f h1)" using changesD [OF assms(2)] 2 by simp
    with True show ?thesis by simp
  next
    case False
    with 2 show ?thesis by simp
  qed
  ultimately show ?thesis by simp
qed

lemma write_mbx_pf_mem:
  assumes "mbx_mem d (IXGBE_PFMBMEM vf) mem"
    and "run_state (ixgbe_write_mbx_pf d msg vf) h = (st, h')"
  shows "mem_of mem h' = (if st = IXGBE_SUCCESS then mem_put (mem_of mem h) msg else mem_of mem h)"
proof -
  have arr: "msg_regs (range (IXGBE_PFMBMEM vf))" by (rule msg_regs_arrays)
  note k = keeps_mem [OF mbx_mem_obs [OF assms(1)] arr]
  show ?thesis
  proof (rule locked_change [where h = h])
    show "keeps (mem_of mem) (ixgbe_obtain_mbx_lock_pf d vf)" by (rule k)
    show "changes (mem_of mem) (\<lambda>m. mem_put m msg) (do {
        ixgbe_clear_msg_pf d vf;
        ixgbe_clear_ack_pf d vf;
        copy_to_mbx d (IXGBE_PFMBMEM vf) msg 0;
        pf_mailbox \<leftarrow> rd d (IXGBE_PFMAILBOX vf);
        wr d (IXGBE_PFMAILBOX vf) (pf_mailbox OR IXGBE_PFMAILBOX_STS);
        (if msg ! 0 AND IXGBE_VT_MSGTYPE_CTS \<noteq> 0
         then do { ixgbe_poll_for_ack d vf; ret () } else ret ());
        count_stat inc_msgs_tx })"
      by (rule write_mbx_pf_body [OF assms(1)])
    show "keeps (mem_of mem) (do { ops \<leftarrow> mbx_get (\<lambda>h. mbx_ops h vf); mbx_release d ops vf; ret rv })" for rv
      by (intro keeps_intros k)
    show "fst (run_state (do { ops \<leftarrow> mbx_get (\<lambda>h. mbx_ops h vf); mbx_release d ops vf; ret rv }) h) = rv" for rv h
      by (simp split: prod.splits)
  qed (use assms(2) in \<open>simp only: ixgbe_write_mbx_pf_def\<close>)
qed

lemma locked_change_legacy:
  assumes "keeps f lock" "changes f F body" "\<And>h. fst (run_state body h) = IXGBE_SUCCESS"
    and "run_state (do { rv \<leftarrow> lock; if rv \<noteq> IXGBE_SUCCESS then ret rv else body }) h = (st, h')"
  shows "f h' = (if st = IXGBE_SUCCESS then F (f h) else f h)"
proof -
  obtain rv h1 where 1: "run_state lock h = (rv, h1)" by fastforce
  have k: "f h1 = f h" by (rule keepsD [OF assms(1) 1])
  show ?thesis
  proof (cases "rv = IXGBE_SUCCESS")
    case True
    then have b: "run_state body h1 = (st, h')" using assms(4) 1 by simp
    then show ?thesis using changesD [OF assms(2) b] assms(3) [of h1] k by simp
  next
    case False
    then show ?thesis using assms(4) 1 k by auto
  qed
qed

lemma write_mbx_pf_legacy_mem:
  assumes "mbx_mem d (IXGBE_PFMBMEM vf) mem"
    and "run_state (ixgbe_write_mbx_pf_legacy d msg vf) h = (st, h')"
  shows "mem_of mem h' = (if st = IXGBE_SUCCESS then mem_put (mem_of mem h) msg else mem_of mem h)"
proof -
  have arr: "msg_regs (range (IXGBE_PFMBMEM vf))" by (rule msg_regs_arrays)
  note [keeps_intros] = keeps_prims [OF mbx_mem_obs [OF assms(1)]] keeps_pf [OF mbx_mem_obs [OF assms(1)] arr] keeps_mem [OF mbx_mem_obs [OF assms(1)] arr]
    msg_regs_other [OF arr]
  show ?thesis
  proof (rule locked_change_legacy [where h = h])
    show "keeps (mem_of mem) (ixgbe_obtain_mbx_lock_pf d vf)" by (intro keeps_intros)
    show "changes (mem_of mem) (\<lambda>m. mem_put m msg) (do {
       ixgbe_check_for_msg_pf d vf;
       ixgbe_clear_msg_pf d vf;
       ixgbe_check_for_ack_pf d vf;
       ixgbe_clear_ack_pf d vf;
       copy_to_mbx d (IXGBE_PFMBMEM vf) msg 0;
       wr d (IXGBE_PFMAILBOX vf) IXGBE_PFMAILBOX_STS;
       count_stat inc_msgs_tx;
       ret IXGBE_SUCCESS })"
      by (rule changes_before [OF _ changes_before [OF _ changes_before [OF _ changes_before [OF _
            changes_after [OF changes_copy [OF assms(1)]]]]]]) (intro keeps_intros)+
  qed (use assms(2) in \<open>simp_all add: ixgbe_write_mbx_pf_legacy_def split: prod.splits\<close>)
qed

lemma write_mbx_vf_mem:
  assumes "mbx_mem d IXGBE_VFMBMEM mem"
    and "run_state (ixgbe_write_mbx_vf d msg i) h = (st, h')"
  shows "mem_of mem h' = (if st = IXGBE_SUCCESS then mem_put (mem_of mem h) msg else mem_of mem h)"
proof -
  have arr: "msg_regs (range (IXGBE_VFMBMEM))" by (rule msg_regs_arrays)
  note [keeps_intros] = keeps_prims [OF mbx_mem_obs [OF assms(1)]] keeps_vf [OF mbx_mem_obs [OF assms(1)] arr] keeps_mem [OF mbx_mem_obs [OF assms(1)] arr]
    msg_regs_other [OF arr]
  show ?thesis
  proof (rule locked_change [where h = h])
    show "keeps (mem_of mem) (ixgbe_obtain_mbx_lock_vf d)" by (intro keeps_intros)
    show "changes (mem_of mem) (\<lambda>m. mem_put m msg) (do {
        ixgbe_clear_msg_vf d;
        ixgbe_clear_ack_vf d;
        copy_to_mbx d IXGBE_VFMBMEM msg 0;
        count_stat inc_msgs_tx;
        vf_mailbox \<leftarrow> ixgbe_read_mailbox_vf d;
        wr d IXGBE_VFMAILBOX (vf_mailbox OR IXGBE_VFMAILBOX_REQ);
        ixgbe_poll_for_ack d i;
        ret () })"
      unfolding ixgbe_clear_msg_vf_def ixgbe_clear_ack_vf_def
      by (rule changes_before [OF _ changes_before [OF _ changes_after [OF changes_copy [OF assms(1)]]]])
        (intro keeps_intros)+
    show "keeps (mem_of mem) (do { ops \<leftarrow> mbx_get (\<lambda>h. mbx_ops h i); mbx_release d ops i; ret rv })" for rv
      by (intro keeps_intros)
    show "fst (run_state (do { ops \<leftarrow> mbx_get (\<lambda>h. mbx_ops h i); mbx_release d ops i; ret rv }) h) = rv" for rv h
      by (simp split: prod.splits)
  qed (use assms(2) in \<open>simp only: ixgbe_write_mbx_vf_def\<close>)
qed

lemma write_mbx_vf_legacy_mem:
  assumes "mbx_mem d IXGBE_VFMBMEM mem"
    and "run_state (ixgbe_write_mbx_vf_legacy d msg) h = (st, h')"
  shows "mem_of mem h' = (if st = IXGBE_SUCCESS then mem_put (mem_of mem h) msg else mem_of mem h)"
proof -
  have arr: "msg_regs (range (IXGBE_VFMBMEM))" by (rule msg_regs_arrays)
  note [keeps_intros] = keeps_prims [OF mbx_mem_obs [OF assms(1)]] keeps_vf [OF mbx_mem_obs [OF assms(1)] arr] keeps_mem [OF mbx_mem_obs [OF assms(1)] arr]
    msg_regs_other [OF arr]
  show ?thesis
  proof (rule locked_change_legacy [where h = h])
    show "keeps (mem_of mem) (ixgbe_obtain_mbx_lock_vf d)" by (intro keeps_intros)
    show "changes (mem_of mem) (\<lambda>m. mem_put m msg) (do {
       ixgbe_check_for_msg_vf d;
       ixgbe_clear_msg_vf d;
       ixgbe_check_for_ack_vf d;
       ixgbe_clear_ack_vf d;
       copy_to_mbx d IXGBE_VFMBMEM msg 0;
       count_stat inc_msgs_tx;
       wr d IXGBE_VFMAILBOX IXGBE_VFMAILBOX_REQ;
       ret IXGBE_SUCCESS })"
      unfolding ixgbe_clear_msg_vf_def ixgbe_clear_ack_vf_def
      by (rule changes_before [OF _ changes_before [OF _ changes_before [OF _ changes_before [OF _
            changes_after [OF changes_copy [OF assms(1)]]]]]]) (intro keeps_intros)+
  qed (use assms(2) in \<open>simp_all add: ixgbe_write_mbx_vf_legacy_def split: prod.splits\<close>)
qed

text \<open>The message registers that a table of operations uses for a mailbox.\<close>

fun mbx_base :: "ixgbe_mbx_operations \<Rightarrow> nat \<Rightarrow> nat \<Rightarrow> reg" where
  "mbx_base MbxPf vf = IXGBE_PFMBMEM vf"
| "mbx_base MbxPfLegacy vf = IXGBE_PFMBMEM vf"
| "mbx_base _ vf = IXGBE_VFMBMEM"

lemma write_mbx_mem:
  assumes "mbx_mem d (mbx_base (mbx_ops h i) i) mem"
    and "run_state (ixgbe_write_mbx d msg i) h = (st, h')"
  shows "mem_of mem h' = (if st = IXGBE_SUCCESS then mem_put (mem_of mem h) msg else mem_of mem h)"
    and "st = IXGBE_SUCCESS \<Longrightarrow> length msg \<le> unat (mbx_size h)"
proof -
  show "st = IXGBE_SUCCESS \<Longrightarrow> length msg \<le> unat (mbx_size h)"
    using assms(2) by (auto simp: ixgbe_write_mbx_def split: if_splits)
  show "mem_of mem h' = (if st = IXGBE_SUCCESS then mem_put (mem_of mem h) msg else mem_of mem h)"
  proof (cases "\<not> has_mbx_ops (mbx_ops h i) \<or> mbx_timeout h = 0 \<or> length msg > unat (mbx_size h)")
    case True
    then show ?thesis using assms(2) by (auto simp: ixgbe_write_mbx_def split: if_splits)
  next
    case False
    then have w: "run_state (mbx_write d (mbx_ops h i) msg i) h = (st, h')"
      using assms(2) by (simp add: ixgbe_write_mbx_def)
    show ?thesis
    proof (cases "mbx_ops h i")
      case MbxPf
      then show ?thesis using w assms(1) write_mbx_pf_mem [of d i mem msg h st h'] by simp
    next
      case MbxPfLegacy
      then show ?thesis using w assms(1) write_mbx_pf_legacy_mem [of d i mem msg h st h'] by simp
    next
      case MbxVf
      then show ?thesis using w assms(1) write_mbx_vf_mem [of d mem msg i h st h'] by simp
    next
      case MbxVfLegacy
      then show ?thesis using w assms(1) write_mbx_vf_legacy_mem [of d mem msg h st h'] by simp
    next
      case MbxNull
      then show ?thesis using False by (simp add: has_mbx_ops_def)
    qed
  qed
qed

text \<open>A program reads the first words of the memory, or fails and returns no message.\<close>

definition reads :: "('h \<Rightarrow> nat \<Rightarrow> u32) \<Rightarrow> nat \<Rightarrow> ('h, ixgbe_status \<times> u32 list) state \<Rightarrow> bool" where
  "reads f n p \<longleftrightarrow> (\<forall>h st ws h'. run_state p h = ((st, ws), h') \<longrightarrow>
     f h' = f h \<and> ws = (if st = IXGBE_SUCCESS then map (f h) [0..<n] else []))"

lemma reads_fail: "st \<noteq> IXGBE_SUCCESS \<Longrightarrow> reads f n (ret (st, []))"
  by (simp add: reads_def)

lemma reads_bind:
  assumes "keeps f p" "\<And>x. reads f n (q x)"
  shows "reads f n (State_Monad.bind p q)"
  unfolding reads_def
proof (intro allI impI)
  fix h st ws h' assume r: "run_state (State_Monad.bind p q) h = ((st, ws), h')"
  obtain x h1 where 1: "run_state p h = (x, h1)" by (rule prod.exhaust)
  have "run_state (q x) h1 = ((st, ws), h')" using r 1 by simp
  with assms(2) keepsD [OF assms(1) 1]
  show "f h' = f h \<and> ws = (if st = IXGBE_SUCCESS then map (f h) [0..<n] else [])"
    unfolding reads_def by metis
qed

lemma reads_if:
  "(c \<Longrightarrow> reads f n p) \<Longrightarrow> (\<not> c \<Longrightarrow> reads f n q) \<Longrightarrow> reads f n (if c then p else q)"
  by simp

lemma reads_copy:
  assumes "mbx_mem d base mem" "msg_regs (range base)"
    and "\<And>x. keeps (mem_of mem) (tail x)" "\<And>x h. fst (run_state (tail x) h) = (IXGBE_SUCCESS, x)"
  shows "reads (mem_of mem) n (State_Monad.bind (copy_from_mbx d base n 0) tail)"
  unfolding reads_def
proof (intro allI impI)
  fix h st ws h' assume r: "run_state (State_Monad.bind (copy_from_mbx d base n 0) tail) h = ((st, ws), h')"
  obtain x h1 where 1: "run_state (copy_from_mbx d base n 0) h = (x, h1)" by (rule prod.exhaust)
  have 2: "run_state (tail x) h1 = ((st, ws), h')" using r 1 by simp
  have "mem_of mem h1 = mem_of mem h" by (rule keepsD [OF keeps_mem(8) [OF mbx_mem_obs [OF assms(1)] assms(2)] 1])
  moreover have "st = IXGBE_SUCCESS" "ws = x" using assms(4) [of x h1] 2 by simp_all
  moreover have "x = map (mem_of mem h) [0..<n]" using copy_from_mbx_mem [OF assms(1) 1] by simp
  ultimately show "mem_of mem h' = mem_of mem h \<and> ws = (if st = IXGBE_SUCCESS then map (mem_of mem h) [0..<n] else [])"
    using keepsD [OF assms(3) 2] by simp
qed

lemma read_mbx_vf_mem:
  assumes "mbx_mem d IXGBE_VFMBMEM mem"
  shows "reads (mem_of mem) n (ixgbe_read_mbx_vf_legacy d n)" "reads (mem_of mem) n (ixgbe_read_mbx_vf d n)"
proof -
  have arr: "msg_regs (range (IXGBE_VFMBMEM))" by (rule msg_regs_arrays)
  note [keeps_intros] = keeps_prims [OF mbx_mem_obs [OF assms]] keeps_vf [OF mbx_mem_obs [OF assms] arr] keeps_mem [OF mbx_mem_obs [OF assms] arr]
    msg_regs_other [OF arr]
  show "reads (mem_of mem) n (ixgbe_read_mbx_vf_legacy d n)" "reads (mem_of mem) n (ixgbe_read_mbx_vf d n)"
    unfolding ixgbe_read_mbx_vf_legacy_def ixgbe_read_mbx_vf_def ixgbe_clear_msg_vf_def
    by (intro reads_copy [OF assms arr] reads_bind reads_if reads_fail keeps_intros; simp split: prod.splits)+
qed

lemma read_mbx_pf_mem:
  assumes "mbx_mem d (IXGBE_PFMBMEM vf) mem"
  shows "reads (mem_of mem) n (ixgbe_read_mbx_pf_legacy d n vf)" "reads (mem_of mem) n (ixgbe_read_mbx_pf d n vf)"
proof -
  have arr: "msg_regs (range (IXGBE_PFMBMEM vf))" by (rule msg_regs_arrays)
  note [keeps_intros] = keeps_prims [OF mbx_mem_obs [OF assms]] keeps_pf [OF mbx_mem_obs [OF assms] arr] keeps_mem [OF mbx_mem_obs [OF assms] arr]
    msg_regs_other [OF arr]
  show "reads (mem_of mem) n (ixgbe_read_mbx_pf_legacy d n vf)" "reads (mem_of mem) n (ixgbe_read_mbx_pf d n vf)"
    unfolding ixgbe_read_mbx_pf_legacy_def ixgbe_read_mbx_pf_def
    by (intro reads_copy [OF assms arr] reads_bind reads_if reads_fail keeps_intros; simp split: prod.splits)+
qed

lemma mbx_read_mem:
  assumes "mbx_mem d (mbx_base ops i) mem"
  shows "reads (mem_of mem) n (mbx_read d ops n i)"
  using assms by (cases ops) (simp_all add: reads_fail read_mbx_vf_mem read_mbx_pf_mem)

lemma read_mbx_mem:
  assumes "mbx_mem d (mbx_base (mbx_ops h i) i) mem"
    and "run_state (ixgbe_read_mbx d len i) h = ((st, ws), h')"
  shows "mem_of mem h' = mem_of mem h"
    and "ws = (if st = IXGBE_SUCCESS then map (mem_of mem h) [0..<min (unat len) (unat (mbx_size h))] else [])"
proof -
  have m: "unat (if len > mbx_size h then mbx_size h else len) = min (unat len) (unat (mbx_size h))"
    by (simp add: word_less_nat_alt min_def)
  have "run_state (mbx_read d (mbx_ops h i) (min (unat len) (unat (mbx_size h))) i) h = ((st, ws), h')"
    using assms(2) unfolding ixgbe_read_mbx_def Let_def by (simp add: m)
  with mbx_read_mem [OF assms(1)] show "mem_of mem h' = mem_of mem h"
    "ws = (if st = IXGBE_SUCCESS then map (mem_of mem h) [0..<min (unat len) (unat (mbx_size h))] else [])"
    unfolding reads_def by blast+
qed

text \<open>Writing one mailbox keeps every observation that does not depend on the words of the message.\<close>

lemma mbx_write_other:
  assumes "mbx_obs d R mem" "msg_regs R" "\<And>k. k < length msg \<Longrightarrow> IXGBE_PFMBMEM i k \<notin> R"
    and "ops = MbxPf \<or> ops = MbxPfLegacy"
  shows "keeps (mem_of mem) (mbx_write d ops msg i)"
proof -
  have "keeps (mem_of mem) (copy_to_mbx d (IXGBE_PFMBMEM i) msg 0)"
    by (rule copy_to_mbx_other [OF assms(1)]) (use assms(3) in simp)
  note [keeps_intros] = this keeps_prims [OF assms(1)] keeps_pf [OF assms(1,2)]
    keeps_mem [OF assms(1,2)] msg_regs_other [OF assms(2)]
  show ?thesis
    using assms(4) by (elim disjE) (simp_all only: mbx_write.simps ixgbe_write_mbx_pf_def ixgbe_write_mbx_pf_legacy_def,
     (intro keeps_intros)+)
qed

text \<open>A message that passes the size check stays within its mailbox.\<close>

lemma write_mbx_others:
  assumes "mbx_mem d (IXGBE_PFMBMEM 0) mem" "mbx_size h \<le> IXGBE_VFMAILBOX_SIZE" "i \<noteq> j" "k < 16"
    and "mbx_ops h i = MbxPf \<or> mbx_ops h i = MbxPfLegacy"
    and "run_state (ixgbe_write_mbx d msg i) h = (st, h')"
  shows "mem_of mem h' (16 * j + k) = mem_of mem h (16 * j + k)"
proof (cases "length msg \<le> unat (mbx_size h)")
  case True
  have "unat (mbx_size h) \<le> 16" using assms(2) by (simp add: word_le_nat_alt)
  then have o: "IXGBE_PFMBMEM i m \<notin> {IXGBE_PFMBMEM 0 (16 * j + k)}" if "m < length msg" for m
    using that True assms(3,4) by auto
  have "keeps (mem_of (\<lambda>s. mem s (16 * j + k))) (mbx_write d (mbx_ops h i) msg i)"
    by (rule mbx_write_other [OF mbx_mem_word [OF assms(1)] msg_regs_arrays(3) o assms(5)])
  from keepsD [OF this] show ?thesis
    using assms(6) by (auto simp: ixgbe_write_mbx_def split: if_splits)
next
  case False
  then show ?thesis using assms(6) by (auto simp: ixgbe_write_mbx_def split: if_splits)
qed

text \<open>The polling loop succeeds exactly when one of the checks that the countdown allows does.\<close>

lemma poll_loop_iff:
  "fst (run_state (poll_loop check n) h) \<longleftrightarrow> (\<exists>k < n. fst (run_state check (after check k h)) = IXGBE_SUCCESS)"
proof (induction n arbitrary: h)
  case 0
  then show ?case by simp
next
  case (Suc n)
  obtain st h1 where 1: "run_state check h = (st, h1)" by (rule prod.exhaust)
  show ?case
  proof (cases "st = IXGBE_SUCCESS")
    case True
    then show ?thesis using 1 by (auto intro!: exI [of _ 0])
  next
    case False
    have "(\<exists>k < Suc n. fst (run_state check (after check k h)) = IXGBE_SUCCESS)
      \<longleftrightarrow> (\<exists>k < n. fst (run_state check (after check k h1)) = IXGBE_SUCCESS)"
      using False 1 by (simp add: Ex_less_Suc2)
    with False show ?thesis using 1 Suc.IH [of h1] by simp
  qed
qed

lemma poll_for_msg_iff:
  assumes "mbx_timeout h \<noteq> 0" "mbx_ops h i \<noteq> MbxNull"
  shows "fst (run_state (ixgbe_poll_for_msg d i) h) =
    (if \<exists>k < unat (mbx_timeout h). fst (run_state (mbx_check_for_msg d (mbx_ops h i) i)
          (after (mbx_check_for_msg d (mbx_ops h i) i) k h)) = IXGBE_SUCCESS
     then IXGBE_SUCCESS else IXGBE_ERR_TIMEOUT)"
proof -
  obtain ok h1 where 1: "run_state (poll_loop (mbx_check_for_msg d (mbx_ops h i) i) (unat (mbx_timeout h))) h = (ok, h1)"
    by (rule prod.exhaust)
  show ?thesis
    using assms 1 poll_loop_iff [of "mbx_check_for_msg d (mbx_ops h i) i" "unat (mbx_timeout h)" h]
    by (simp add: ixgbe_poll_for_msg_def has_mbx_ops_def)
qed

text \<open>The status of a write is the status of the lock.\<close>

lemma write_mbx_status:
  "fst (run_state (ixgbe_write_mbx_pf d msg i) h) = fst (run_state (ixgbe_obtain_mbx_lock_pf d i) h)"
  "fst (run_state (ixgbe_write_mbx_pf_legacy d msg i) h) = fst (run_state (ixgbe_obtain_mbx_lock_pf d i) h)"
  "fst (run_state (ixgbe_write_mbx_vf d msg i) h) = fst (run_state (ixgbe_obtain_mbx_lock_vf d) h)"
  "fst (run_state (ixgbe_write_mbx_vf_legacy d msg) h) = fst (run_state (ixgbe_obtain_mbx_lock_vf d) h)"
  by (simp_all add: ixgbe_write_mbx_pf_def ixgbe_write_mbx_pf_legacy_def ixgbe_write_mbx_vf_def
    ixgbe_write_mbx_vf_legacy_def case_prod_beta)

text \<open>Another holder of the PF lock.\<close>

lemma lock_loop_pf_busy:
  assumes "\<And>s. dev_read d (IXGBE_PFMAILBOX vf) s = (r s, s)" "r (mbx_dev_state h) AND IXGBE_PFMAILBOX_PFU \<noteq> 0"
  shows "run_state (lock_loop_pf d vf n) h = (IXGBE_ERR_TIMEOUT, h)"
proof (induction n)
  case 0
  show ?case by simp
next
  case (Suc n)
  then show ?case using assms by simp
qed

text \<open>Status bits that clear on read are remembered until the driver clears them.\<close>

lemma read_mailbox_vf_run:
  assumes "run_state (ixgbe_read_mailbox_vf d) h = (v, h')"
  shows "mbx_vf_mailbox h' = mbx_vf_mailbox h OR (v AND IXGBE_VFMAILBOX_R2C_BITS)"
    "mbx_vf_mailbox h AND v = mbx_vf_mailbox h"
  using assms by (auto simp: ixgbe_read_mailbox_vf_def Let_def bit_eq_iff bit_simps)

lemma read_mailbox_vf_sticky:
  assumes "bit (mbx_vf_mailbox h) n"
  shows "bit (mbx_vf_mailbox (after (ixgbe_read_mailbox_vf d) k h)) n"
  using assms
proof (induction k arbitrary: h)
  case 0
  then show ?case by simp
next
  case (Suc k)
  obtain v h' where 1: "run_state (ixgbe_read_mailbox_vf d) h = (v, h')" by (rule prod.exhaust)
  have "bit (mbx_vf_mailbox h') n"
    using read_mailbox_vf_run(1) [OF 1] Suc.prems by (simp add: bit_or_iff)
  from Suc.IH [OF this] show ?case using 1 by simp
qed

lemma check_for_bit_vf_kept:
  assumes "mbx_vf_mailbox h AND bits \<noteq> 0"
  shows "fst (run_state (ixgbe_check_for_bit_vf d bits) h) = IXGBE_SUCCESS"
proof -
  obtain v h' where 1: "run_state (ixgbe_read_mailbox_vf d) h = (v, h')" by (rule prod.exhaust)
  have "mbx_vf_mailbox h AND bits = (mbx_vf_mailbox h AND v) AND bits"
    using read_mailbox_vf_run(2) [OF 1] by simp
  then have "v AND bits \<noteq> 0" using assms by (auto simp: and.assoc)
  then show ?thesis using 1 by (simp add: ixgbe_check_for_bit_vf_def)
qed

section \<open>Properties\<close>

text \<open>
  The device of the examples: one set of registers, seen by the PF as it is and by VF \<open>vf\<close> through
  its own addresses.
\<close>

definition pf_view :: "(reg \<Rightarrow> u32) device" where
  "pf_view = \<lparr>dev_read = \<lambda>r s. (s r, s), dev_write = \<lambda>r x s. s(r := x)\<rparr>"

fun vf_view_read :: "nat \<Rightarrow> reg \<Rightarrow> (reg \<Rightarrow> u32) \<Rightarrow> u32" where
  "vf_view_read vf (IXGBE_VFMBMEM i) s = s (IXGBE_PFMBMEM vf i)"
| "vf_view_read vf IXGBE_VFMAILBOX s = push_bit 4 (s (IXGBE_PFMAILBOX vf) AND 1)"
| "vf_view_read vf _ s = 0"

fun vf_view_write :: "nat \<Rightarrow> reg \<Rightarrow> u32 \<Rightarrow> (reg \<Rightarrow> u32) \<Rightarrow> reg \<Rightarrow> u32" where
  "vf_view_write vf (IXGBE_VFMBMEM i) x s = s(IXGBE_PFMBMEM vf i := x)"
| "vf_view_write vf _ x s = s"

definition vf_view :: "nat \<Rightarrow> (reg \<Rightarrow> u32) device" where
  "vf_view vf = \<lparr>dev_read = \<lambda>r s. (vf_view_read vf r s, s), dev_write = vf_view_write vf\<rparr>"

definition mbx0 :: "ixgbe_mbx_operations \<Rightarrow> (reg \<Rightarrow> u32) \<Rightarrow> (reg \<Rightarrow> u32) ixgbe_mbx_info" where
  "mbx0 ops s = \<lparr>mbx_dev_state = s, mbx_mac_type = ixgbe_mac_X540, mbx_ops = \<lambda>_. ops, mbx_stats = no_stats,
     mbx_timeout = 1, mbx_usec_delay = 0, mbx_vf_mailbox = 0, mbx_size = 16\<rparr>"

lemma mbx0_simps [simp]:
  "mbx_dev_state (mbx0 ops s) = s" "mbx_ops (mbx0 ops s) i = ops" "mbx_timeout (mbx0 ops s) = 1"
  "mbx_vf_mailbox (mbx0 ops s) = 0" "mbx_size (mbx0 ops s) = 16" "mbx_stats (mbx0 ops s) = no_stats"
  by (simp_all add: mbx0_def)

lemma view_simps [simp]:
  "dev_read pf_view r s = (s r, s)" "dev_write pf_view r x s = s(r := x)"
  "dev_read (vf_view vf) r s = (vf_view_read vf r s, s)" "dev_write (vf_view vf) r x s = vf_view_write vf r x s"
  by (simp_all add: pf_view_def vf_view_def)

lemma pf_view_mem: "mbx_mem pf_view (IXGBE_PFMBMEM vf) (\<lambda>s i. s (IXGBE_PFMBMEM vf i))"
  by (auto simp: mbx_mem_def fun_eq_iff)

lemma vf_view_mem: "mbx_mem (vf_view vf) IXGBE_VFMBMEM (\<lambda>s i. s (IXGBE_PFMBMEM vf i))"
proof -
  have "r \<notin> range IXGBE_VFMBMEM \<Longrightarrow> vf_view_write vf r x s = s" for r x s 
    by (cases "(vf, r, x, s)" rule: vf_view_write.cases) auto
  then show ?thesis by (auto simp: mbx_mem_def)
qed

text \<open>
  C6. A message that one side writes and the other side reads arrives unchanged, for every pair of
  operation tables that share the memory: PF and VF, in both directions, legacy or not.  The two
  sides have their own view of the shared device, and the reader asks for as many words as the
  message has.
\<close>

theorem mbx_message_arrives:
  assumes "mbx_mem d1 (mbx_base (mbx_ops h1 i) i) mem" "mbx_mem d2 (mbx_base (mbx_ops h2 j) j) mem"
    and "run_state (ixgbe_write_mbx d1 msg i) h1 = (IXGBE_SUCCESS, h1')"
    and "mbx_dev_state h2 = mbx_dev_state h1'" "mbx_size h2 = mbx_size h1"
    and "run_state (ixgbe_read_mbx d2 (of_nat (length msg)) j) h2 = ((IXGBE_SUCCESS, ws), h2')"
  shows "ws = msg"
proof -
  have len: "length msg \<le> unat (mbx_size h1)" by (rule write_mbx_mem(2) [OF assms(1,3) refl])
  then have "unat (of_nat (length msg) :: u16) = length msg"
    using unsigned_less [where 'a = nat, of "mbx_size h1"] by (simp add: unat_of_nat take_bit_nat_eq_self)
  then have "ws = map (mem_put (mem_of mem h1) msg) [0..<length msg]"
    using read_mbx_mem(2) [OF assms(2,6)] write_mbx_mem(1) [OF assms(1,3)] assms(4,5) len by simp
  also have "\<dots> = msg" by (rule nth_equalityI) (simp_all add: mem_put_def)
  finally show ?thesis .
qed

lemma pf_write_example:
  "run_state (ixgbe_write_mbx pf_view [7, 8] 3) (mbx0 MbxPf (\<lambda>_. 0)) =
    (IXGBE_SUCCESS, snd (run_state (ixgbe_write_mbx pf_view [7, 8] 3) (mbx0 MbxPf (\<lambda>_. 0))))"
  by (simp add: prod_eq_iff ixgbe_write_mbx_def has_mbx_ops_def write_mbx_status ixgbe_obtain_mbx_lock_pf_def)

lemma pf_write_example_sts:
  "mbx_dev_state (snd (run_state (ixgbe_write_mbx pf_view [7, 8] 3) (mbx0 MbxPf (\<lambda>_. 0)))) (IXGBE_PFMAILBOX 3) = 1"
  by (simp add: ixgbe_write_mbx_def has_mbx_ops_def ixgbe_write_mbx_pf_def ixgbe_obtain_mbx_lock_pf_def
   ixgbe_clear_msg_pf_def ixgbe_clear_ack_pf_def ixgbe_release_mbx_lock_pf_def Let_def)

lemma vf_read_example:
  assumes "s (IXGBE_PFMAILBOX 3) = 1"
  shows "fst (fst (run_state (ixgbe_read_mbx (vf_view 3) n 0) (mbx0 MbxVf s))) = IXGBE_SUCCESS"
  using assms by (simp add: ixgbe_read_mbx_def Let_def ixgbe_read_mbx_vf_def ixgbe_check_for_msg_vf_def
    ixgbe_check_for_bit_vf_def ixgbe_read_mailbox_vf_def ixgbe_clear_msg_vf_def clear_bits_vf_def
    case_prod_beta)

theorem mbx_message_arrives_witness:
  "\<exists>h' h2'. run_state (ixgbe_write_mbx pf_view [7, 8] 3) (mbx0 MbxPf (\<lambda>_. 0)) = (IXGBE_SUCCESS, h') \<and>
     run_state (ixgbe_read_mbx (vf_view 3) 2 0) (mbx0 MbxVf (mbx_dev_state h')) = ((IXGBE_SUCCESS, [7, 8]), h2')"
proof -
  define h' where "h' = snd (run_state (ixgbe_write_mbx pf_view [7, 8] 3) (mbx0 MbxPf (\<lambda>_. 0)))"
  have w: "run_state (ixgbe_write_mbx pf_view [7, 8] 3) (mbx0 MbxPf (\<lambda>_. 0)) = (IXGBE_SUCCESS, h')"
    unfolding h'_def by (rule pf_write_example)
  obtain ws h2' where r: "run_state (ixgbe_read_mbx (vf_view 3) 2 0) (mbx0 MbxVf (mbx_dev_state h')) = ((IXGBE_SUCCESS, ws), h2')"
    using vf_read_example [of "mbx_dev_state h'" 2] pf_write_example_sts [folded h'_def] by (metis prod.collapse)
  have "ws = [7, 8]"
    by (rule mbx_message_arrives [where mem = "\<lambda>s i. s (IXGBE_PFMBMEM 3 i)" and ?d2.0 = "vf_view 3" and
          ?h2.0 = "mbx0 MbxVf (mbx_dev_state h')" and j = 0 and h2' = h2', OF _ _ w])
      (use r pf_view_mem [of 3] vf_view_mem [of 3] in simp_all)
  with w r show ?thesis by blast
qed

text \<open>
  C22. A write either puts the message at the start of the mailbox memory and reports success, or
  reports an error and leaves the memory as it was; a message that does not fit is refused before
  any register is touched.
\<close>

theorem write_mbx_all_or_nothing:
  assumes "mbx_mem d (mbx_base (mbx_ops h i) i) mem"
    and "run_state (ixgbe_write_mbx d msg i) h = (st, h')"
  shows "mem_of mem h' = (if st = IXGBE_SUCCESS then mem_put (mem_of mem h) msg else mem_of mem h) \<and>
    (length msg > unat (mbx_size h) \<longrightarrow> h' = h \<and> st \<in> {IXGBE_ERR_PARAM, IXGBE_ERR_CONFIG})"
proof
  show "mem_of mem h' = (if st = IXGBE_SUCCESS then mem_put (mem_of mem h) msg else mem_of mem h)"
    by (rule write_mbx_mem(1) [OF assms])
  show "length msg > unat (mbx_size h) \<longrightarrow> h' = h \<and> st \<in> {IXGBE_ERR_PARAM, IXGBE_ERR_CONFIG}"
    using assms(2) by (auto simp: ixgbe_write_mbx_def split: if_splits)
qed

theorem write_mbx_all_or_nothing_witness:
  "\<exists>h' h''. run_state (ixgbe_write_mbx pf_view [7, 8] 3) (mbx0 MbxPf (\<lambda>_. 0)) = (IXGBE_SUCCESS, h') \<and>
    mbx_dev_state h' (IXGBE_PFMBMEM 3 1) = 8 \<and>
    run_state (ixgbe_write_mbx pf_view (replicate 17 1) 3) (mbx0 MbxPf (\<lambda>_. 0)) = (IXGBE_ERR_PARAM, h'') \<and>
    h'' = mbx0 MbxPf (\<lambda>_. 0)"
proof -
  define h' where "h' = snd (run_state (ixgbe_write_mbx pf_view [7, 8] 3) (mbx0 MbxPf (\<lambda>_. 0)))"
  have w: "run_state (ixgbe_write_mbx pf_view [7, 8] 3) (mbx0 MbxPf (\<lambda>_. 0)) = (IXGBE_SUCCESS, h')"
    unfolding h'_def by (rule pf_write_example)
  have m: "mbx_mem pf_view (mbx_base (mbx_ops (mbx0 MbxPf (\<lambda>_. 0)) 3) 3) (\<lambda>s i. s (IXGBE_PFMBMEM 3 i))"
    using pf_view_mem [of 3] by simp
  have "mbx_dev_state h' (IXGBE_PFMBMEM 3 1) = 8"
    using write_mbx_all_or_nothing [OF m w, THEN conjunct1, THEN fun_cong, of 1] by (simp add: mem_put_def)
  moreover obtain st h'' where e: "run_state (ixgbe_write_mbx pf_view (replicate 17 1) 3) (mbx0 MbxPf (\<lambda>_. 0)) = (st, h'')"
    by (rule prod.exhaust)
  moreover have "h'' = mbx0 MbxPf (\<lambda>_. 0)"
    using write_mbx_all_or_nothing [OF m e] by simp
  moreover have "st = IXGBE_ERR_PARAM" using e by (simp add: ixgbe_write_mbx_def has_mbx_ops_def)
  ultimately show ?thesis using w by blast
qed

text \<open>
  C24. A successful read returns the first words of the mailbox memory, as many as asked for but
  never more than the mailbox has; a failed read returns no words.  No read changes the memory.
\<close>

theorem read_mbx_correct:
  assumes "mbx_mem d (mbx_base (mbx_ops h i) i) mem"
    and "run_state (ixgbe_read_mbx d len i) h = ((st, ws), h')"
  shows "mem_of mem h' = mem_of mem h \<and>
    ws = (if st = IXGBE_SUCCESS then map (mem_of mem h) [0..<min (unat len) (unat (mbx_size h))] else [])"
  using read_mbx_mem [OF assms] by simp

theorem read_mbx_correct_witness:
  "\<exists>h'. run_state (ixgbe_read_mbx (vf_view 3) 20 0) (mbx0 MbxVf ((\<lambda>_. 5)(IXGBE_PFMAILBOX 3 := 1)))
     = ((IXGBE_SUCCESS, replicate 16 5), h')"
proof -
  let ?s = "(\<lambda>_. 5)(IXGBE_PFMAILBOX 3 := 1) :: reg \<Rightarrow> u32"
  have m: "mbx_mem (vf_view 3) (mbx_base (mbx_ops (mbx0 MbxVf ?s) 0) 0) (\<lambda>s i. s (IXGBE_PFMBMEM 3 i))"
    using vf_view_mem [of 3] by simp
  obtain st ws h' where r: "run_state (ixgbe_read_mbx (vf_view 3) 20 0) (mbx0 MbxVf ?s) = ((st, ws), h')"
    by (metis prod.exhaust)
  have "fst (fst (run_state (ixgbe_read_mbx (vf_view 3) 20 0) (mbx0 MbxVf ?s))) = IXGBE_SUCCESS"
    by (rule vf_read_example) simp
  then have "st = IXGBE_SUCCESS" using r by simp
  moreover have "ws = replicate 16 5"
    using read_mbx_correct [OF m r] \<open>st = IXGBE_SUCCESS\<close> by (simp add: map_replicate_const)
  ultimately show ?thesis using r by blast
qed

text \<open>
  C20. A PF that writes the mailbox of one VF leaves all sixteen words of the mailbox of every other
  VF as they were.  The mailboxes are adjacent in one memory, so this rests on the check of the
  message's length against the mailbox size, which is at most \<open>IXGBE_VFMAILBOX_SIZE\<close>.
\<close>

theorem write_mbx_isolated:
  assumes "mbx_mem d (IXGBE_PFMBMEM 0) mem" "mbx_size h \<le> IXGBE_VFMAILBOX_SIZE"
    and "i \<noteq> j" "mbx_ops h i \<in> {MbxPf, MbxPfLegacy}" "k < 16"
    and "run_state (ixgbe_write_mbx d msg i) h = (st, h')"
  shows "mem_of mem h' (16 * j + k) = mem_of mem h (16 * j + k)"
  using write_mbx_others [OF assms(1-3,5) _ assms(6)] assms(4) by blast

theorem write_mbx_isolated_witness:
  "\<exists>h'. run_state (ixgbe_write_mbx pf_view [7, 8] 3) (mbx0 MbxPf (\<lambda>_. 5)) = (IXGBE_SUCCESS, h') \<and>
    mbx_dev_state h' (IXGBE_PFMBMEM 4 0) = 5 \<and> mbx_dev_state h' (IXGBE_PFMBMEM 2 15) = 5"
proof -
  define h' where "h' = snd (run_state (ixgbe_write_mbx pf_view [7, 8] 3) (mbx0 MbxPf (\<lambda>_. 5)))"
  have w: "run_state (ixgbe_write_mbx pf_view [7, 8] 3) (mbx0 MbxPf (\<lambda>_. 5)) = (IXGBE_SUCCESS, h')"
    unfolding h'_def
    by (simp add: prod_eq_iff ixgbe_write_mbx_def has_mbx_ops_def write_mbx_status ixgbe_obtain_mbx_lock_pf_def)
  have "mbx_dev_state h' (IXGBE_PFMBMEM 4 0) = 5" "mbx_dev_state h' (IXGBE_PFMBMEM 2 15) = 5"
    using write_mbx_isolated [OF pf_view_mem _ _ _ _ w, of 4 0] write_mbx_isolated [OF pf_view_mem _ _ _ _ w, of 2 15]
    by simp_all
  with w show ?thesis by blast
qed

text \<open>
  C23. Waiting for a message ends after at most \<open>timeout\<close> checks: it reports success exactly
  when one of these checks sees the message, and a timeout otherwise.
\<close>

theorem poll_for_msg_bounded:
  assumes "mbx_timeout h \<noteq> 0" "mbx_ops h i \<noteq> MbxNull"
  shows "fst (run_state (ixgbe_poll_for_msg d i) h) =
    (if \<exists>k < unat (mbx_timeout h). fst (run_state (mbx_check_for_msg d (mbx_ops h i) i)
          (after (mbx_check_for_msg d (mbx_ops h i) i) k h)) = IXGBE_SUCCESS
     then IXGBE_SUCCESS else IXGBE_ERR_TIMEOUT)"
  by (rule poll_for_msg_iff [OF assms])

theorem poll_for_msg_bounded_witness:
  "fst (run_state (ixgbe_poll_for_msg pf_view 3) (mbx0 MbxPf (\<lambda>_. 0))) = IXGBE_ERR_TIMEOUT \<and>
   fst (run_state (ixgbe_poll_for_msg pf_view 3) (mbx0 MbxPf (\<lambda>_. 8))) = IXGBE_SUCCESS"
  using poll_for_msg_bounded [of "mbx0 MbxPf (\<lambda>_. 0)" 3 pf_view] poll_for_msg_bounded [of "mbx0 MbxPf (\<lambda>_. 8)" 3 pf_view]
  by (simp add: ixgbe_check_for_msg_pf_def ixgbe_check_for_bit_pf_def)

text \<open>
  C21. The VF side does not lose the status bits that clear on read: once a read of the mailbox
  register returned one of them, every later check for it succeeds, whatever the device returns,
  until the driver clears it.
\<close>

theorem vf_status_bits_kept:
  assumes "run_state (ixgbe_read_mailbox_vf d) h = (v, h')"
    and "v AND bits AND IXGBE_VFMAILBOX_R2C_BITS \<noteq> 0"
  shows "fst (run_state (ixgbe_check_for_bit_vf d' bits) (after (ixgbe_read_mailbox_vf d) k h')) = IXGBE_SUCCESS"
proof (rule check_for_bit_vf_kept)
  obtain n where n: "bit v n" "bit bits n" "bit IXGBE_VFMAILBOX_R2C_BITS n"
    using assms(2) by (auto simp: bit_eq_iff bit_and_iff)
  have "bit (mbx_vf_mailbox h') n"
    using read_mailbox_vf_run(1) [OF assms(1)] n by (simp add: bit_or_iff bit_and_iff)
  then have "bit (mbx_vf_mailbox (after (ixgbe_read_mailbox_vf d) k h') AND bits) n"
    using read_mailbox_vf_sticky n by (simp add: bit_and_iff)
  then show "mbx_vf_mailbox (after (ixgbe_read_mailbox_vf d) k h') AND bits \<noteq> 0" by auto
qed

theorem vf_status_bits_kept_witness:
  "fst (run_state (ixgbe_check_for_bit_vf (vf_view 4) IXGBE_VFMAILBOX_PFSTS)
     (after (ixgbe_read_mailbox_vf (vf_view 3)) 2
       (snd (run_state (ixgbe_read_mailbox_vf (vf_view 3)) (mbx0 MbxVf ((\<lambda>_. 0)(IXGBE_PFMAILBOX 3 := 1))))))) = IXGBE_SUCCESS"
  by (rule vf_status_bits_kept [of "vf_view 3" "mbx0 MbxVf ((\<lambda>_. 0)(IXGBE_PFMAILBOX 3 := 1))" 16])
    (simp_all add: prod_eq_iff ixgbe_read_mailbox_vf_def Let_def)

text \<open>
  C38. The result of a write is the result of taking the lock: no variant looks at the
  acknowledgement, so success does not mean that the other side acknowledged the message.
\<close>

theorem write_mbx_ignores_ack:
  "fst (run_state (mbx_write d ops msg i) h) =
    (case ops of MbxNull \<Rightarrow> IXGBE_ERR_CONFIG
     | MbxVfLegacy \<Rightarrow> fst (run_state (ixgbe_obtain_mbx_lock_vf d) h)
     | MbxVf \<Rightarrow> fst (run_state (ixgbe_obtain_mbx_lock_vf d) h)
     | MbxPfLegacy \<Rightarrow> fst (run_state (ixgbe_obtain_mbx_lock_pf d i) h)
     | MbxPf \<Rightarrow> fst (run_state (ixgbe_obtain_mbx_lock_pf d i) h))"
  by (cases ops) (simp_all add: write_mbx_status)

text \<open>
  C32. When another thread holds the PF lock until the countdown ends, a write reports a timeout and
  still clears the lock bit, which releases the lock of the other thread.
\<close>

theorem write_mbx_pf_frees_foreign_lock:
  assumes "\<And>s. dev_read d (IXGBE_PFMAILBOX vf) s = (r s, s)" "r (mbx_dev_state h) AND IXGBE_PFMAILBOX_PFU \<noteq> 0"
    and "mbx_timeout h \<noteq> 0" "mbx_ops h vf = MbxPf"
  shows "run_state (ixgbe_write_mbx_pf d msg vf) h = (IXGBE_ERR_TIMEOUT,
    h\<lparr>mbx_dev_state := dev_write d (IXGBE_PFMAILBOX vf) (r (mbx_dev_state h) AND NOT IXGBE_PFMAILBOX_PFU) (mbx_dev_state h)\<rparr>)"
  using assms(3,4) lock_loop_pf_busy [where d = d and vf = vf and r = r, OF assms(1,2)] assms(1)
  by (simp add: ixgbe_write_mbx_pf_def ixgbe_obtain_mbx_lock_pf_def ixgbe_release_mbx_lock_pf_def)

theorem write_mbx_pf_frees_foreign_lock_witness:
  "run_state (ixgbe_write_mbx_pf pf_view [7] 3) (mbx0 MbxPf (\<lambda>_. 8)) =
     (IXGBE_ERR_TIMEOUT, mbx0 MbxPf ((\<lambda>_. 8)(IXGBE_PFMAILBOX 3 := 0)))"
  using write_mbx_pf_frees_foreign_lock [of pf_view 3 "\<lambda>s. s (IXGBE_PFMAILBOX 3)" "mbx0 MbxPf (\<lambda>_. 8)" "[7]"]
  by (simp add: mbx0_def)

end
