(* ===== verification/Ixgbe_Fdir.thy ===== *)
theory Ixgbe_Fdir
  imports Ixgbe_Device
begin

text \<open>
  The Flow Director of the 82599 and its successors (\<open>ixgbe_82599.c\<close>): initialisation, the two
  hash functions, signature filters, input masks and perfect filters.  The unions of the source
  are their memory: \<open>union ixgbe_atr_input\<close> is the list of its fourteen dwords, and the
  formatted fields are functions of that list, for a little-endian host.  \<open>FDIRCMD\<close> and
  \<open>FDIRCTRL\<close> are polled, so the operations are programs over a device.
\<close>

unbundle bit_operations_syntax

section \<open>Data\<close>

definition IXGBE_NTOHS :: "u16 \<Rightarrow> u16" where
  "IXGBE_NTOHS x = push_bit 8 x OR drop_bit 8 x"

definition IXGBE_NTOHL :: "u32 \<Rightarrow> u32" where
  "IXGBE_NTOHL x = drop_bit 24 x OR drop_bit 8 (x AND 0x00FF0000) OR push_bit 8 (x AND 0x0000FF00) OR push_bit 24 x"

definition IXGBE_STORE_AS_BE32 :: "u32 \<Rightarrow> u32" where
  "IXGBE_STORE_AS_BE32 x =
     drop_bit 24 x OR drop_bit 8 (x AND 0x00FF0000) OR push_bit 8 (x AND 0x0000FF00) OR push_bit 24 x"

definition IXGBE_STORE_AS_BE16 :: "u16 \<Rightarrow> u16" where
  "IXGBE_STORE_AS_BE16 x = IXGBE_NTOHS (drop_bit 8 x OR push_bit 8 x)"

type_synonym ixgbe_atr_input = "u32 list"
type_synonym ixgbe_atr_hash_dword = u32

definition vm_pool :: "ixgbe_atr_input \<Rightarrow> u8" where "vm_pool s = ucast (s ! 0)"
definition flow_type :: "ixgbe_atr_input \<Rightarrow> u8" where "flow_type s = ucast (drop_bit 8 (s ! 0))"
definition vlan_id :: "ixgbe_atr_input \<Rightarrow> u16" where "vlan_id s = ucast (drop_bit 16 (s ! 0))"
definition dst_ip :: "ixgbe_atr_input \<Rightarrow> nat \<Rightarrow> u32" where "dst_ip s i = s ! (1 + i)"
definition src_ip :: "ixgbe_atr_input \<Rightarrow> nat \<Rightarrow> u32" where "src_ip s i = s ! (5 + i)"
definition inner_mac :: "ixgbe_atr_input \<Rightarrow> nat \<Rightarrow> u8" where
  "inner_mac s i = ucast (drop_bit (8 * (i mod 4)) (s ! (9 + i div 4)))"
definition tunnel_type :: "ixgbe_atr_input \<Rightarrow> u16" where "tunnel_type s = ucast (drop_bit 16 (s ! 10))"
definition tni_vni :: "ixgbe_atr_input \<Rightarrow> u32" where "tni_vni s = s ! 11"
definition src_port :: "ixgbe_atr_input \<Rightarrow> u16" where "src_port s = ucast (s ! 12)"
definition dst_port :: "ixgbe_atr_input \<Rightarrow> u16" where "dst_port s = ucast (drop_bit 16 (s ! 12))"
definition flex_bytes :: "ixgbe_atr_input \<Rightarrow> u16" where "flex_bytes s = ucast (s ! 13)"
definition bkt_hash :: "ixgbe_atr_input \<Rightarrow> u16" where "bkt_hash s = ucast (drop_bit 16 (s ! 13))"

definition set_bkt_hash :: "u16 \<Rightarrow> ixgbe_atr_input \<Rightarrow> ixgbe_atr_input" where
  "set_bkt_hash v s = s[13 := (s ! 13 AND 0xFFFF) OR push_bit 16 (ucast v)]"

section \<open>Constants\<close>

definition IXGBE_ATR_BUCKET_HASH_KEY :: u32 where "IXGBE_ATR_BUCKET_HASH_KEY = 0x3DAD14E2"
definition IXGBE_ATR_SIGNATURE_HASH_KEY :: u32 where "IXGBE_ATR_SIGNATURE_HASH_KEY = 0x174D3614"
definition IXGBE_ATR_COMMON_HASH_KEY :: u32 where
  "IXGBE_ATR_COMMON_HASH_KEY = IXGBE_ATR_BUCKET_HASH_KEY AND IXGBE_ATR_SIGNATURE_HASH_KEY"
abbreviation IXGBE_ATR_HASH_MASK :: u32 where "IXGBE_ATR_HASH_MASK \<equiv> 0x7FFF"
abbreviation IXGBE_ATR_L4TYPE_MASK :: u8 where "IXGBE_ATR_L4TYPE_MASK \<equiv> 0x3"
abbreviation IXGBE_ATR_L4TYPE_TUNNEL_MASK :: u8 where "IXGBE_ATR_L4TYPE_TUNNEL_MASK \<equiv> 0x10"
abbreviation IXGBE_FDIRCTRL_INIT_DONE :: u32 where "IXGBE_FDIRCTRL_INIT_DONE \<equiv> 0x00000008"
abbreviation IXGBE_FDIRCTRL_PERFECT_MATCH :: u32 where "IXGBE_FDIRCTRL_PERFECT_MATCH \<equiv> 0x00000010"
abbreviation IXGBE_FDIRCTRL_REPORT_STATUS :: u32 where "IXGBE_FDIRCTRL_REPORT_STATUS \<equiv> 0x00000020"
abbreviation IXGBE_FDIRCTRL_DROP_Q_MASK :: u32 where "IXGBE_FDIRCTRL_DROP_Q_MASK \<equiv> 0x00007F00"
abbreviation IXGBE_FDIRCTRL_DROP_NO_MATCH :: u32 where "IXGBE_FDIRCTRL_DROP_NO_MATCH \<equiv> 0x00008000"
abbreviation IXGBE_FDIRCTRL_FILTERMODE_CLOUD :: u32 where "IXGBE_FDIRCTRL_FILTERMODE_CLOUD \<equiv> 0x0002"
abbreviation IXGBE_FDIRM_VLANID :: u32 where "IXGBE_FDIRM_VLANID \<equiv> 0x01"
abbreviation IXGBE_FDIRM_VLANP :: u32 where "IXGBE_FDIRM_VLANP \<equiv> 0x02"
abbreviation IXGBE_FDIRM_POOL :: u32 where "IXGBE_FDIRM_POOL \<equiv> 0x04"
abbreviation IXGBE_FDIRM_L4P :: u32 where "IXGBE_FDIRM_L4P \<equiv> 0x08"
abbreviation IXGBE_FDIRM_FLEX :: u32 where "IXGBE_FDIRM_FLEX \<equiv> 0x10"
abbreviation IXGBE_FDIRM_DIPv6 :: u32 where "IXGBE_FDIRM_DIPv6 \<equiv> 0x20"
abbreviation IXGBE_FDIRM_L3P :: u32 where "IXGBE_FDIRM_L3P \<equiv> 0x40"
abbreviation IXGBE_FDIRIP6M_INNER_MAC :: u32 where "IXGBE_FDIRIP6M_INNER_MAC \<equiv> 0x03F0"
abbreviation IXGBE_FDIRIP6M_TUNNEL_TYPE :: u32 where "IXGBE_FDIRIP6M_TUNNEL_TYPE \<equiv> 0x0800"
abbreviation IXGBE_FDIRIP6M_TNI_VNI :: u32 where "IXGBE_FDIRIP6M_TNI_VNI \<equiv> 0xF000"
abbreviation IXGBE_FDIRIP6M_TNI_VNI_24 :: u32 where "IXGBE_FDIRIP6M_TNI_VNI_24 \<equiv> 0x1000"
abbreviation IXGBE_FDIRIP6M_ALWAYS_MASK :: u32 where "IXGBE_FDIRIP6M_ALWAYS_MASK \<equiv> 0x040F"
abbreviation IXGBE_FDIRCMD_CMD_MASK :: u32 where "IXGBE_FDIRCMD_CMD_MASK \<equiv> 0x00000003"
abbreviation IXGBE_FDIRCMD_CMD_ADD_FLOW :: u32 where "IXGBE_FDIRCMD_CMD_ADD_FLOW \<equiv> 0x00000001"
abbreviation IXGBE_FDIRCMD_CMD_REMOVE_FLOW :: u32 where "IXGBE_FDIRCMD_CMD_REMOVE_FLOW \<equiv> 0x00000002"
abbreviation IXGBE_FDIRCMD_CMD_QUERY_REM_FILT :: u32 where "IXGBE_FDIRCMD_CMD_QUERY_REM_FILT \<equiv> 0x00000003"
abbreviation IXGBE_FDIRCMD_FILTER_VALID :: u32 where "IXGBE_FDIRCMD_FILTER_VALID \<equiv> 0x00000004"
abbreviation IXGBE_FDIRCMD_FILTER_UPDATE :: u32 where "IXGBE_FDIRCMD_FILTER_UPDATE \<equiv> 0x00000008"
abbreviation IXGBE_FDIRCMD_CLEARHT :: u32 where "IXGBE_FDIRCMD_CLEARHT \<equiv> 0x00000100"
abbreviation IXGBE_FDIRCMD_DROP :: u32 where "IXGBE_FDIRCMD_DROP \<equiv> 0x00000200"
abbreviation IXGBE_FDIRCMD_LAST :: u32 where "IXGBE_FDIRCMD_LAST \<equiv> 0x00000800"
abbreviation IXGBE_FDIRCMD_QUEUE_EN :: u32 where "IXGBE_FDIRCMD_QUEUE_EN \<equiv> 0x00008000"
abbreviation IXGBE_FDIRCMD_TUNNEL_FILTER :: u32 where "IXGBE_FDIRCMD_TUNNEL_FILTER \<equiv> 0x00800000"
abbreviation IXGBE_FDIR_DROP_QUEUE :: u8 where "IXGBE_FDIR_DROP_QUEUE \<equiv> 127"
abbreviation IXGBE_FDIRCMD_CMD_POLL :: nat where "IXGBE_FDIRCMD_CMD_POLL \<equiv> 10"
abbreviation IXGBE_FDIR_INIT_DONE_POLL :: nat where "IXGBE_FDIR_INIT_DONE_POLL \<equiv> 10"

section \<open>Initialisation\<close>

definition IXGBE_WRITE_FLUSH :: "'s device \<Rightarrow> ('s, unit) state" where
  "IXGBE_WRITE_FLUSH d = do { dread d IXGBE_STATUS; ret () }"

primrec fdir_cmd_loop :: "'s device \<Rightarrow> nat \<Rightarrow> u32 \<Rightarrow> ('s, ixgbe_status \<times> u32) state" where
  "fdir_cmd_loop d 0 fdircmd = ret (IXGBE_ERR_FDIR_CMD_INCOMPLETE, fdircmd)"
| "fdir_cmd_loop d (Suc n) fdircmd = do {
     fdircmd \<leftarrow> dread d IXGBE_FDIRCMD;
     if fdircmd AND IXGBE_FDIRCMD_CMD_MASK = 0 then ret (IXGBE_SUCCESS, fdircmd)
     else fdir_cmd_loop d n fdircmd }"

definition ixgbe_fdir_check_cmd_complete :: "'s device \<Rightarrow> ('s, ixgbe_status \<times> u32) state" where
  "ixgbe_fdir_check_cmd_complete d = fdir_cmd_loop d IXGBE_FDIRCMD_CMD_POLL 0"

text \<open>Whether \<open>INIT_DONE\<close> was seen within the given number of reads.\<close>

primrec fdir_init_done_loop :: "'s device \<Rightarrow> nat \<Rightarrow> ('s, bool) state" where
  "fdir_init_done_loop d 0 = ret False"
| "fdir_init_done_loop d (Suc n) = do {
     v \<leftarrow> dread d IXGBE_FDIRCTRL;
     if v AND IXGBE_FDIRCTRL_INIT_DONE \<noteq> 0 then ret True else fdir_init_done_loop d n }"

definition fdir_clear_ht :: "'s device \<Rightarrow> ('s, unit) state" where
  "fdir_clear_ht d = do {
     v \<leftarrow> dread d IXGBE_FDIRCMD;
     dwrite d IXGBE_FDIRCMD (v OR IXGBE_FDIRCMD_CLEARHT);
     IXGBE_WRITE_FLUSH d;
     v \<leftarrow> dread d IXGBE_FDIRCMD;
     dwrite d IXGBE_FDIRCMD (v AND NOT IXGBE_FDIRCMD_CLEARHT);
     IXGBE_WRITE_FLUSH d }"

definition ixgbe_reinit_fdir_tables_82599 :: "'s device \<Rightarrow> ('s, ixgbe_status) state" where
  "ixgbe_reinit_fdir_tables_82599 d = do {
     v \<leftarrow> dread d IXGBE_FDIRCTRL;
     let fdirctrl = v AND NOT IXGBE_FDIRCTRL_INIT_DONE;
     (err, fdircmd) \<leftarrow> ixgbe_fdir_check_cmd_complete d;
     if err \<noteq> IXGBE_SUCCESS then ret err
     else do {
       dwrite d IXGBE_FDIRFREE 0;
       IXGBE_WRITE_FLUSH d;
       fdir_clear_ht d;
       dwrite d IXGBE_FDIRHASH 0;
       IXGBE_WRITE_FLUSH d;
       dwrite d IXGBE_FDIRCTRL fdirctrl;
       IXGBE_WRITE_FLUSH d;
       done \<leftarrow> fdir_init_done_loop d IXGBE_FDIR_INIT_DONE_POLL;
       if \<not> done then ret IXGBE_ERR_FDIR_REINIT_FAILED
       else do {
         dread d IXGBE_FDIRUSTAT;
         dread d IXGBE_FDIRFSTAT;
         dread d IXGBE_FDIRMATCH;
         dread d IXGBE_FDIRMISS;
         dread d IXGBE_FDIRLEN;
         ret IXGBE_SUCCESS } } }"

definition ixgbe_fdir_enable_82599 :: "'s device \<Rightarrow> u32 \<Rightarrow> ('s, unit) state" where
  "ixgbe_fdir_enable_82599 d fdirctrl = do {
     dwrite d IXGBE_FDIRHKEY IXGBE_ATR_BUCKET_HASH_KEY;
     dwrite d IXGBE_FDIRSKEY IXGBE_ATR_SIGNATURE_HASH_KEY;
     dwrite d IXGBE_FDIRCTRL fdirctrl;
     IXGBE_WRITE_FLUSH d;
     fdir_init_done_loop d IXGBE_FDIR_INIT_DONE_POLL;
     ret () }"

definition ixgbe_init_fdir_signature_82599 :: "'s device \<Rightarrow> u32 \<Rightarrow> ('s, ixgbe_status) state" where
  "ixgbe_init_fdir_signature_82599 d fdirctrl = do {
     ixgbe_fdir_enable_82599 d (fdirctrl OR (push_bit 16 0x6 OR push_bit 24 0xA OR push_bit 28 4));
     ret IXGBE_SUCCESS }"

definition ixgbe_init_fdir_perfect_82599 :: "'s device \<Rightarrow> u32 \<Rightarrow> bool \<Rightarrow> ('s, ixgbe_status) state" where
  "ixgbe_init_fdir_perfect_82599 d fdirctrl cloud_mode = do {
     let fdirctrl = fdirctrl OR (IXGBE_FDIRCTRL_PERFECT_MATCH OR IXGBE_FDIRCTRL_REPORT_STATUS OR
       push_bit 8 (ucast IXGBE_FDIR_DROP_QUEUE) OR push_bit 16 0x6 OR push_bit 24 0xA OR push_bit 28 4);
     let fdirctrl = (if cloud_mode then fdirctrl OR push_bit 21 IXGBE_FDIRCTRL_FILTERMODE_CLOUD else fdirctrl);
     ixgbe_fdir_enable_82599 d fdirctrl;
     ret IXGBE_SUCCESS }"

definition fdir_drop_no_match_mac :: "ixgbe_mac_type \<Rightarrow> bool" where
  "fdir_drop_no_match_mac t \<longleftrightarrow> t \<in> {ixgbe_mac_X550, ixgbe_mac_X550EM_x, ixgbe_mac_X550EM_a, ixgbe_mac_E610}"

definition ixgbe_set_fdir_drop_queue_82599 :: "'s device \<Rightarrow> ixgbe_mac_type \<Rightarrow> u8 \<Rightarrow> ('s, unit) state" where
  "ixgbe_set_fdir_drop_queue_82599 d t dropqueue = do {
     v \<leftarrow> dread d IXGBE_FDIRCTRL;
     let fdirctrl = v AND NOT (IXGBE_FDIRCTRL_DROP_Q_MASK OR IXGBE_FDIRCTRL_INIT_DONE);
     let fdirctrl = fdirctrl OR push_bit 8 (ucast dropqueue);
     let fdirctrl = (if fdir_drop_no_match_mac t then fdirctrl OR IXGBE_FDIRCTRL_DROP_NO_MATCH else fdirctrl);
     fdir_clear_ht d;
     ixgbe_fdir_enable_82599 d fdirctrl }"

section \<open>Hashes\<close>

record atr_sig_state =
  sig_hash :: u32
  sig_bucket :: u32
  sig_common :: u32

text \<open>One dword of one iteration: \<open>k\<close> is the key bit and \<open>n\<close> the shift.\<close>

definition sig_hash_half :: "nat \<Rightarrow> nat \<Rightarrow> u32 \<Rightarrow> atr_sig_state \<Rightarrow> atr_sig_state" where
  "sig_hash_half k n dword h =
     (if IXGBE_ATR_COMMON_HASH_KEY AND BIT k \<noteq> 0 then h\<lparr>sig_common := sig_common h XOR drop_bit n dword\<rparr>
      else if IXGBE_ATR_BUCKET_HASH_KEY AND BIT k \<noteq> 0 then h\<lparr>sig_bucket := sig_bucket h XOR drop_bit n dword\<rparr>
      else if IXGBE_ATR_SIGNATURE_HASH_KEY AND BIT k \<noteq> 0 then h\<lparr>sig_hash := sig_hash h XOR push_bit (16 - n) dword\<rparr>
      else h)"

definition IXGBE_COMPUTE_SIG_HASH_ITERATION :: "u32 \<Rightarrow> u32 \<Rightarrow> nat \<Rightarrow> atr_sig_state \<Rightarrow> atr_sig_state" where
  "IXGBE_COMPUTE_SIG_HASH_ITERATION lo_hash_dword hi_hash_dword n h =
     sig_hash_half (n + 16) n hi_hash_dword (sig_hash_half n n lo_hash_dword h)"

definition ixgbe_atr_compute_sig_hash_82599 :: "ixgbe_atr_hash_dword \<Rightarrow> ixgbe_atr_hash_dword \<Rightarrow> u32" where
  "ixgbe_atr_compute_sig_hash_82599 input common =
     (let flow_vm_vlan = IXGBE_NTOHL input;
          hi_hash_dword = IXGBE_NTOHL common;
          lo_hash_dword = drop_bit 16 hi_hash_dword OR push_bit 16 hi_hash_dword;
          hi_hash_dword = hi_hash_dword XOR (flow_vm_vlan XOR drop_bit 16 flow_vm_vlan);
          h = IXGBE_COMPUTE_SIG_HASH_ITERATION lo_hash_dword hi_hash_dword 0
                \<lparr>sig_hash = 0, sig_bucket = 0, sig_common = 0\<rparr>;
          lo_hash_dword = lo_hash_dword XOR (flow_vm_vlan XOR push_bit 16 flow_vm_vlan);
          h = for_upto 1 16 (IXGBE_COMPUTE_SIG_HASH_ITERATION lo_hash_dword hi_hash_dword) h;
          bucket_hash = (sig_bucket h XOR sig_common h) AND IXGBE_ATR_HASH_MASK;
          sig = (sig_hash h XOR push_bit 16 (sig_common h)) AND push_bit 16 IXGBE_ATR_HASH_MASK
      in sig XOR bucket_hash)"

definition IXGBE_COMPUTE_BKT_HASH_ITERATION :: "u32 \<Rightarrow> u32 \<Rightarrow> nat \<Rightarrow> u32 \<Rightarrow> u32" where
  "IXGBE_COMPUTE_BKT_HASH_ITERATION lo_hash_dword hi_hash_dword n bucket_hash =
     (let b = (if IXGBE_ATR_BUCKET_HASH_KEY AND BIT n \<noteq> 0 then bucket_hash XOR drop_bit n lo_hash_dword
               else bucket_hash)
      in if IXGBE_ATR_BUCKET_HASH_KEY AND BIT (n + 16) \<noteq> 0 then b XOR drop_bit n hi_hash_dword else b)"

definition atr_mask_input :: "ixgbe_atr_input \<Rightarrow> ixgbe_atr_input \<Rightarrow> ixgbe_atr_input" where
  "atr_mask_input input input_mask = for_upto 0 14 (\<lambda>i s. s[i := s ! i AND input_mask ! i]) input"

definition ixgbe_atr_compute_perfect_hash_82599 :: "ixgbe_atr_input \<Rightarrow> ixgbe_atr_input \<Rightarrow> ixgbe_atr_input" where
  "ixgbe_atr_compute_perfect_hash_82599 input input_mask =
     (let input = atr_mask_input input input_mask;
          flow_vm_vlan = IXGBE_NTOHL (input ! 0);
          hi_dword = for_upto 1 14 (\<lambda>i h. h XOR input ! i) 0;
          hi_hash_dword = IXGBE_NTOHL hi_dword;
          lo_hash_dword = drop_bit 16 hi_hash_dword OR push_bit 16 hi_hash_dword;
          hi_hash_dword = hi_hash_dword XOR (flow_vm_vlan XOR drop_bit 16 flow_vm_vlan);
          bucket_hash = IXGBE_COMPUTE_BKT_HASH_ITERATION lo_hash_dword hi_hash_dword 0 0;
          lo_hash_dword = lo_hash_dword XOR (flow_vm_vlan XOR push_bit 16 flow_vm_vlan);
          bucket_hash = for_upto 1 16 (IXGBE_COMPUTE_BKT_HASH_ITERATION lo_hash_dword hi_hash_dword) bucket_hash
      in set_bkt_hash (ucast (bucket_hash AND 0x1FFF)) input)"

section \<open>Signature filters\<close>

text \<open>The 64-bit write at \<open>FDIRHASH\<close> covers \<open>FDIRHASH\<close> and the register after it, \<open>FDIRCMD\<close>.\<close>

definition IXGBE_WRITE_REG64_FDIRHASH :: "'s device \<Rightarrow> u64 \<Rightarrow> ('s, unit) state" where
  "IXGBE_WRITE_REG64_FDIRHASH d v = do {
     dwrite d IXGBE_FDIRHASH (ucast v);
     dwrite d IXGBE_FDIRCMD (ucast (drop_bit 32 v)) }"

definition sig_flow_type :: "u8 \<Rightarrow> bool" where
  "sig_flow_type t \<longleftrightarrow> t \<in> {0x2, 0x1, 0x3, 0x6, 0x5, 0x7}"

definition ixgbe_fdir_add_signature_filter_82599 ::
  "'s device \<Rightarrow> ixgbe_atr_hash_dword \<Rightarrow> ixgbe_atr_hash_dword \<Rightarrow> u8 \<Rightarrow> ('s, unit) state" where
  "ixgbe_fdir_add_signature_filter_82599 d input common queue = (
     let ft = (ucast (drop_bit 8 input) :: u8);
         tunnel = (ft AND IXGBE_ATR_L4TYPE_TUNNEL_MASK \<noteq> 0);
         flow_type = ft AND (IXGBE_ATR_L4TYPE_TUNNEL_MASK - 1)
     in if \<not> sig_flow_type flow_type then ret ()
        else let
          fdircmd = IXGBE_FDIRCMD_CMD_ADD_FLOW OR IXGBE_FDIRCMD_FILTER_UPDATE OR IXGBE_FDIRCMD_LAST OR
            IXGBE_FDIRCMD_QUEUE_EN OR push_bit 5 (ucast flow_type) OR push_bit 16 (ucast queue);
          fdircmd = (if tunnel then fdircmd OR IXGBE_FDIRCMD_TUNNEL_FILTER else fdircmd);
          fdirhashcmd = (push_bit 32 (ucast fdircmd) :: u64) OR ucast (ixgbe_atr_compute_sig_hash_82599 input common)
        in IXGBE_WRITE_REG64_FDIRHASH d fdirhashcmd)"

section \<open>Input masks\<close>

definition ixgbe_get_fdirtcpm_82599 :: "ixgbe_atr_input \<Rightarrow> u32" where
  "ixgbe_get_fdirtcpm_82599 input_mask =
     (let m = (ucast (IXGBE_NTOHS (dst_port input_mask)) :: u32);
          m = push_bit 16 m;
          m = m OR ucast (IXGBE_NTOHS (src_port input_mask));
          m = push_bit 1 (m AND 0x55555555) OR drop_bit 1 (m AND 0xAAAAAAAA);
          m = push_bit 2 (m AND 0x33333333) OR drop_bit 2 (m AND 0xCCCCCCCC);
          m = push_bit 4 (m AND 0x0F0F0F0F) OR drop_bit 4 (m AND 0xF0F0F0F0)
      in push_bit 8 (m AND 0x00FF00FF) OR drop_bit 8 (m AND 0xFF00FF00))"

definition IXGBE_WRITE_REG_BE32 :: "'s device \<Rightarrow> reg \<Rightarrow> u32 \<Rightarrow> ('s, unit) state" where
  "IXGBE_WRITE_REG_BE32 d r v = dwrite d r (IXGBE_STORE_AS_BE32 (IXGBE_NTOHL v))"

text \<open>
  The checks of the mask come before the first write.  Each \<open>switch\<close> either rejects the mask or
  adds bits to the value of the register.
\<close>

definition fdirm_pool :: "ixgbe_atr_input \<Rightarrow> u32 \<Rightarrow> u32 option" where
  "fdirm_pool m fdirm = (let v = vm_pool m AND 0x7F in
     if v = 0 then Some (fdirm OR IXGBE_FDIRM_POOL) else if v = 0x7F then Some fdirm else None)"

definition fdirm_l4 :: "ixgbe_atr_input \<Rightarrow> u32 \<Rightarrow> u32 option" where
  "fdirm_l4 m fdirm = (let v = flow_type m AND IXGBE_ATR_L4TYPE_MASK in
     if v = 0 then (if dst_port m \<noteq> 0 \<or> src_port m \<noteq> 0 then None else Some (fdirm OR IXGBE_FDIRM_L4P))
     else if v = IXGBE_ATR_L4TYPE_MASK then Some fdirm else None)"

definition fdirm_vlan :: "ixgbe_atr_input \<Rightarrow> u32 \<Rightarrow> u32 option" where
  "fdirm_vlan m fdirm = (let v = IXGBE_NTOHS (vlan_id m) AND 0xEFFF in
     if v = 0 then Some (fdirm OR IXGBE_FDIRM_VLANID OR IXGBE_FDIRM_VLANP)
     else if v = 0x0FFF then Some (fdirm OR IXGBE_FDIRM_VLANP)
     else if v = 0xE000 then Some (fdirm OR IXGBE_FDIRM_VLANID)
     else if v = 0xEFFF then Some fdirm else None)"

definition fdirm_flex :: "ixgbe_atr_input \<Rightarrow> u32 \<Rightarrow> u32 option" where
  "fdirm_flex m fdirm = (let v = flex_bytes m AND 0xFFFF in
     if v = 0 then Some (fdirm OR IXGBE_FDIRM_FLEX) else if v = 0xFFFF then Some fdirm else None)"

definition fdirip6m_mac :: "ixgbe_atr_input \<Rightarrow> u32 \<Rightarrow> u32 option" where
  "fdirip6m_mac m ip6m = (let v = inner_mac m 0 AND 0xFF in
     if v = 0 then Some (ip6m OR IXGBE_FDIRIP6M_INNER_MAC) else if v = 0xFF then Some ip6m else None)"

definition fdirip6m_vni :: "ixgbe_atr_input \<Rightarrow> u32 \<Rightarrow> u32 option" where
  "fdirip6m_vni m ip6m = (let v = tni_vni m AND 0xFFFFFFFF in
     if v = 0 then Some (ip6m OR IXGBE_FDIRIP6M_TNI_VNI)
     else if v = 0x00FFFFFF then Some (ip6m OR IXGBE_FDIRIP6M_TNI_VNI_24)
     else if v = 0xFFFFFFFF then Some ip6m else None)"

definition fdirip6m_tunnel :: "ixgbe_atr_input \<Rightarrow> u32 \<Rightarrow> u32 option" where
  "fdirip6m_tunnel m ip6m = (let v = tunnel_type m AND 0xFFFF in
     if v = 0 then Some (ip6m OR IXGBE_FDIRIP6M_TUNNEL_TYPE) else if v = 0xFFFF then Some ip6m else None)"

definition fdir_sctp_mac :: "ixgbe_mac_type \<Rightarrow> bool" where
  "fdir_sctp_mac t \<longleftrightarrow> t \<in> {ixgbe_mac_X550, ixgbe_mac_X550EM_x, ixgbe_mac_X550EM_a, ixgbe_mac_E610}"

definition fdirm_checks :: "ixgbe_atr_input \<Rightarrow> u32 option" where
  "fdirm_checks m = Option.bind (Option.bind (Option.bind (fdirm_pool m IXGBE_FDIRM_DIPv6) (fdirm_l4 m))
     (fdirm_vlan m)) (fdirm_flex m)"

definition fdirip6m_checks :: "ixgbe_atr_input \<Rightarrow> u32 option" where
  "fdirip6m_checks m =
     Option.bind (Option.bind (fdirip6m_mac m (push_bit 16 0xFFFF OR IXGBE_FDIRIP6M_ALWAYS_MASK))
       (fdirip6m_vni m)) (fdirip6m_tunnel m)"

definition ixgbe_fdir_set_input_mask_82599 ::
  "'s device \<Rightarrow> ixgbe_mac_type \<Rightarrow> ixgbe_atr_input \<Rightarrow> bool \<Rightarrow> ('s, ixgbe_status) state" where
  "ixgbe_fdir_set_input_mask_82599 d t m cloud_mode = (
     case fdirm_checks m of None \<Rightarrow> ret IXGBE_ERR_CONFIG
     | Some fdirm \<Rightarrow>
       if cloud_mode then
         (case fdirip6m_checks m of None \<Rightarrow> ret IXGBE_ERR_CONFIG
          | Some fdirip6m \<Rightarrow> do {
              IXGBE_WRITE_REG_BE32 d IXGBE_FDIRIP6M fdirip6m;
              dwrite d IXGBE_FDIRTCPM 0xFFFFFFFF;
              dwrite d IXGBE_FDIRUDPM 0xFFFFFFFF;
              IXGBE_WRITE_REG_BE32 d IXGBE_FDIRDIP4M 0xFFFFFFFF;
              IXGBE_WRITE_REG_BE32 d IXGBE_FDIRSIP4M 0xFFFFFFFF;
              (if fdir_sctp_mac t then dwrite d IXGBE_FDIRSCTPM 0xFFFFFFFF else ret ());
              dwrite d IXGBE_FDIRM (fdirm OR IXGBE_FDIRM_L3P);
              ret IXGBE_SUCCESS })
       else do {
         dwrite d IXGBE_FDIRM fdirm;
         let fdirtcpm = ixgbe_get_fdirtcpm_82599 m;
         dwrite d IXGBE_FDIRTCPM (NOT fdirtcpm);
         dwrite d IXGBE_FDIRUDPM (NOT fdirtcpm);
         (if fdir_sctp_mac t then dwrite d IXGBE_FDIRSCTPM (NOT fdirtcpm) else ret ());
         IXGBE_WRITE_REG_BE32 d IXGBE_FDIRSIP4M (NOT (src_ip m 0));
         IXGBE_WRITE_REG_BE32 d IXGBE_FDIRDIP4M (NOT (dst_ip m 0));
         IXGBE_WRITE_REG_BE32 d IXGBE_FDIRIP6M 0xFFFFFFFF;
         ret IXGBE_SUCCESS })"

section \<open>Perfect filters\<close>

definition fdir_hash_reg :: "ixgbe_atr_input \<Rightarrow> u16 \<Rightarrow> u32" where
  "fdir_hash_reg input soft_id = ucast (bkt_hash input) OR push_bit 16 (ucast soft_id)"

definition fdir_filter_cmd :: "ixgbe_atr_input \<Rightarrow> u8 \<Rightarrow> u32" where
  "fdir_filter_cmd input queue =
     (let fdircmd = IXGBE_FDIRCMD_CMD_ADD_FLOW OR IXGBE_FDIRCMD_FILTER_UPDATE OR IXGBE_FDIRCMD_LAST OR IXGBE_FDIRCMD_QUEUE_EN;
          fdircmd = (if queue = IXGBE_FDIR_DROP_QUEUE then fdircmd OR IXGBE_FDIRCMD_DROP else fdircmd);
          fdircmd = (if flow_type input AND IXGBE_ATR_L4TYPE_TUNNEL_MASK \<noteq> 0
                     then fdircmd OR IXGBE_FDIRCMD_TUNNEL_FILTER else fdircmd)
      in fdircmd OR push_bit 5 (ucast (flow_type input)) OR push_bit 16 (ucast queue) OR push_bit 24 (ucast (vm_pool input)))"

definition fdir_cloud_type :: "ixgbe_atr_input \<Rightarrow> u32" where
  "fdir_cloud_type input = (if tunnel_type input \<noteq> 0 then 0x80000000 else 0) OR
     (ucast (inner_mac input 4) OR push_bit 8 (ucast (inner_mac input 5)))"

definition fdir_mac_low :: "ixgbe_atr_input \<Rightarrow> u32" where
  "fdir_mac_low input = ucast (inner_mac input 0) OR push_bit 8 (ucast (inner_mac input 1)) OR
     push_bit 16 (ucast (inner_mac input 2)) OR push_bit 24 (ucast (inner_mac input 3))"

definition ixgbe_fdir_write_perfect_filter_82599 ::
  "'s device \<Rightarrow> ixgbe_atr_input \<Rightarrow> u16 \<Rightarrow> u8 \<Rightarrow> bool \<Rightarrow> ('s, ixgbe_status) state" where
  "ixgbe_fdir_write_perfect_filter_82599 d input soft_id queue cloud_mode = do {
     (if \<not> cloud_mode then do {
        IXGBE_WRITE_REG_BE32 d (IXGBE_FDIRSIPv6 0) (src_ip input 0);
        IXGBE_WRITE_REG_BE32 d (IXGBE_FDIRSIPv6 1) (src_ip input 1);
        IXGBE_WRITE_REG_BE32 d (IXGBE_FDIRSIPv6 2) (src_ip input 2);
        IXGBE_WRITE_REG_BE32 d IXGBE_FDIRIPSA (src_ip input 0);
        IXGBE_WRITE_REG_BE32 d IXGBE_FDIRIPDA (dst_ip input 0);
        dwrite d IXGBE_FDIRPORT
          (push_bit 16 (ucast (IXGBE_NTOHS (dst_port input))) OR ucast (IXGBE_NTOHS (src_port input))) }
      else ret ());
     dwrite d IXGBE_FDIRVLAN
       (push_bit 16 (ucast (IXGBE_STORE_AS_BE16 (flex_bytes input))) OR ucast (IXGBE_NTOHS (vlan_id input)));
     (if cloud_mode then do {
        IXGBE_WRITE_REG_BE32 d (IXGBE_FDIRSIPv6 0) (fdir_mac_low input);
        IXGBE_WRITE_REG_BE32 d (IXGBE_FDIRSIPv6 1) (fdir_cloud_type input);
        IXGBE_WRITE_REG_BE32 d (IXGBE_FDIRSIPv6 2) (tni_vni input) }
      else ret ());
     dwrite d IXGBE_FDIRHASH (fdir_hash_reg input soft_id);
     IXGBE_WRITE_FLUSH d;
     dwrite d IXGBE_FDIRCMD (fdir_filter_cmd input queue);
     (err, fdircmd) \<leftarrow> ixgbe_fdir_check_cmd_complete d;
     if err \<noteq> IXGBE_SUCCESS then ret err else ret IXGBE_SUCCESS }"

definition ixgbe_fdir_erase_perfect_filter_82599 ::
  "'s device \<Rightarrow> ixgbe_atr_input \<Rightarrow> u16 \<Rightarrow> ('s, ixgbe_status) state" where
  "ixgbe_fdir_erase_perfect_filter_82599 d input soft_id = do {
     let fdirhash = fdir_hash_reg input soft_id;
     dwrite d IXGBE_FDIRHASH fdirhash;
     IXGBE_WRITE_FLUSH d;
     dwrite d IXGBE_FDIRCMD IXGBE_FDIRCMD_CMD_QUERY_REM_FILT;
     (err, fdircmd) \<leftarrow> ixgbe_fdir_check_cmd_complete d;
     if err \<noteq> IXGBE_SUCCESS then ret err
     else do {
       (if fdircmd AND IXGBE_FDIRCMD_FILTER_VALID \<noteq> 0 then do {
          dwrite d IXGBE_FDIRHASH fdirhash;
          IXGBE_WRITE_FLUSH d;
          dwrite d IXGBE_FDIRCMD IXGBE_FDIRCMD_CMD_REMOVE_FLOW }
        else ret ());
       ret IXGBE_SUCCESS } }"

section \<open>Byte order and bit reversal\<close>

lemma store_as_be32_ntohl [simp]: "IXGBE_STORE_AS_BE32 (IXGBE_NTOHL x) = x"
  by (rule word32_eqI)
    (simp add: all_less_16 IXGBE_STORE_AS_BE32_def IXGBE_NTOHL_def bit_split)

lemma store_as_be16 [simp]: "IXGBE_STORE_AS_BE16 x = x"
  by (rule bit_word_eqI) (auto simp: IXGBE_STORE_AS_BE16_def IXGBE_NTOHS_def bit_simps)

text \<open>Swapping neighbouring groups of \<open>2 ^ k\<close> bits.\<close>

definition flip :: "nat \<Rightarrow> nat \<Rightarrow> nat" where
  "flip k n = (if even (n div 2 ^ k) then n + 2 ^ k else n - 2 ^ k)"

lemma swap_bits:
  "\<forall>n < 16. bit (push_bit 1 (m AND 0x55555555) OR drop_bit 1 (m AND 0xAAAAAAAA)) n = bit (m :: u32) (flip 0 n) \<and>
     bit (push_bit 1 (m AND 0x55555555) OR drop_bit 1 (m AND 0xAAAAAAAA)) (n + 16) = bit m (flip 0 (n + 16))"
  "\<forall>n < 16. bit (push_bit 2 (m AND 0x33333333) OR drop_bit 2 (m AND 0xCCCCCCCC)) n = bit (m :: u32) (flip 1 n) \<and>
     bit (push_bit 2 (m AND 0x33333333) OR drop_bit 2 (m AND 0xCCCCCCCC)) (n + 16) = bit m (flip 1 (n + 16))"
  "\<forall>n < 16. bit (push_bit 4 (m AND 0x0F0F0F0F) OR drop_bit 4 (m AND 0xF0F0F0F0)) n = bit (m :: u32) (flip 2 n) \<and>
     bit (push_bit 4 (m AND 0x0F0F0F0F) OR drop_bit 4 (m AND 0xF0F0F0F0)) (n + 16) = bit m (flip 2 (n + 16))"
  "\<forall>n < 16. bit (push_bit 8 (m AND 0x00FF00FF) OR drop_bit 8 (m AND 0xFF00FF00)) n = bit (m :: u32) (flip 3 n) \<and>
     bit (push_bit 8 (m AND 0x00FF00FF) OR drop_bit 8 (m AND 0xFF00FF00)) (n + 16) = bit m (flip 3 (n + 16))"
  by (simp_all add: all_less_16 flip_def bit_split del: push_bit_Suc)

lemma fdirtcpm_flip:
  assumes "n < 32"
  shows "bit (ixgbe_get_fdirtcpm_82599 m) n =
    bit (push_bit 16 (ucast (IXGBE_NTOHS (dst_port m))) OR ucast (IXGBE_NTOHS (src_port m)) :: u32)
      (flip 0 (flip 1 (flip 2 (flip 3 n))))"
proof -
  have f: "flip k n < 32" if "n < 32" "k < 4" for k n
  proof -
    have "flip 0 n < 32" "flip 1 n < 32" "flip 2 n < 32" "flip 3 n < 32"
      by (rule all_less_32 [OF _ that(1)], simp add: all_less_16 flip_def)+
    moreover have "k = 0 \<or> k = 1 \<or> k = 2 \<or> k = 3" using that(2) by linarith
    ultimately show ?thesis by blast
  qed
  note s = swap_bits(1) [THEN all_less_32] swap_bits(2) [THEN all_less_32] swap_bits(3) [THEN all_less_32] swap_bits(4) [THEN all_less_32]
  show ?thesis
    unfolding ixgbe_get_fdirtcpm_82599_def Let_def using assms f by (simp only: s)
qed

section \<open>Reference hash\<close>

text \<open>
  The hash of one key: \<open>f\<close> holds flow type, pool and VLAN, \<open>c\<close> the remaining input.  Every set
  bit of the low half of the key adds the low dword shifted by the bit's position, every set bit
  of the high half the high dword; bit 0 sees the low dword without \<open>f\<close>.
\<close>

definition atr_term :: "u32 \<Rightarrow> u32 \<Rightarrow> u32 \<Rightarrow> nat \<Rightarrow> u32" where
  "atr_term key lo hi n = (if bit key n then drop_bit n lo else 0) XOR (if bit key (n + 16) then drop_bit n hi else 0)"

definition atr_hash :: "u32 \<Rightarrow> u32 \<Rightarrow> u32 \<Rightarrow> u32" where
  "atr_hash key f c =
     (let lo = drop_bit 16 c OR push_bit 16 c; hi = c XOR (f XOR drop_bit 16 f)
      in for_upto 1 16 (\<lambda>n h. h XOR atr_term key (lo XOR (f XOR push_bit 16 f)) hi n) (atr_term key lo hi 0))"

definition sig_field :: u32 where "sig_field = push_bit 16 (mask 15)"

definition sig_rel :: "atr_sig_state \<Rightarrow> u32 \<Rightarrow> u32 \<Rightarrow> bool" where
  "sig_rel h b s \<longleftrightarrow> sig_bucket h XOR sig_common h = b \<and>
     (sig_hash h XOR push_bit 16 (sig_common h)) AND sig_field = push_bit 16 s AND sig_field"

lemma sig_shift: "n < 16 \<Longrightarrow> push_bit (16 - n) w AND sig_field = push_bit 16 (drop_bit n w) AND sig_field"
  by (rule bit_word_eqI) (auto simp: sig_field_def bit_simps add.commute)

lemma and_xor_distrib: "(a XOR b) AND m = (a AND m) XOR ((b :: u32) AND m)"
  by (rule bit_word_eqI) (auto simp: bit_simps)

lemma sig_hash_half_rel:
  assumes "sig_rel h b s" "n < 16" "k < 32"
  shows "sig_rel (sig_hash_half k n w h)
    (b XOR (if bit IXGBE_ATR_BUCKET_HASH_KEY k then drop_bit n w else 0))
    (s XOR (if bit IXGBE_ATR_SIGNATURE_HASH_KEY k then drop_bit n w else 0))"
proof -
  have c: "(IXGBE_ATR_COMMON_HASH_KEY AND BIT k = 0) = (\<not> (bit IXGBE_ATR_BUCKET_HASH_KEY k \<and> bit IXGBE_ATR_SIGNATURE_HASH_KEY k))"
    using assms(3) by (simp add: IXGBE_ATR_COMMON_HASH_KEY_def and_BIT_eq_0 bit_and_iff)
  have r: "sig_bucket h XOR sig_common h = b"
    "(sig_hash h AND sig_field) XOR (push_bit 16 (sig_common h) AND sig_field) = push_bit 16 s AND sig_field"
    using assms(1) by (simp_all add: sig_rel_def and_xor_distrib)
  have x: "push_bit 16 (v XOR w) AND sig_field = (push_bit 16 v AND sig_field) XOR (push_bit 16 w AND sig_field)" for v w
    by (simp add: push_bit_xor and_xor_distrib)
  consider "bit IXGBE_ATR_BUCKET_HASH_KEY k" "bit IXGBE_ATR_SIGNATURE_HASH_KEY k"
    | "bit IXGBE_ATR_BUCKET_HASH_KEY k" "\<not> bit IXGBE_ATR_SIGNATURE_HASH_KEY k"
    | "\<not> bit IXGBE_ATR_BUCKET_HASH_KEY k" "bit IXGBE_ATR_SIGNATURE_HASH_KEY k"
    | "\<not> bit IXGBE_ATR_BUCKET_HASH_KEY k" "\<not> bit IXGBE_ATR_SIGNATURE_HASH_KEY k" by blast
  then show ?thesis
  proof cases
    case 1
    then show ?thesis
      by (simp add: sig_rel_def sig_hash_half_def c x and_xor_distrib flip: r) (simp add: xor.assoc)
  next
    case 2
    then show ?thesis using assms(3)
      by (simp add: sig_rel_def sig_hash_half_def c x and_BIT_eq_0 and_xor_distrib flip: r)
       (simp add: xor.assoc xor.commute [of "drop_bit n w"])
  next
    case 3
    then show ?thesis using assms(3)
      by (simp add: sig_rel_def sig_hash_half_def c x and_BIT_eq_0 and_xor_distrib sig_shift [OF assms(2)] flip: r)
       (simp add: xor.assoc xor.commute [of "push_bit 16 (drop_bit n w) AND sig_field"])
  next
    case 4
    then show ?thesis using assms(1,3) by (simp add: sig_hash_half_def c and_BIT_eq_0)
  qed
qed

lemma sig_iteration_rel:
  assumes "sig_rel h b s" "n < 16"
  shows "sig_rel (IXGBE_COMPUTE_SIG_HASH_ITERATION lo hi n h)
    (b XOR atr_term IXGBE_ATR_BUCKET_HASH_KEY lo hi n) (s XOR atr_term IXGBE_ATR_SIGNATURE_HASH_KEY lo hi n)"
proof -
  have "sig_rel (sig_hash_half n n lo h)
    (b XOR (if bit IXGBE_ATR_BUCKET_HASH_KEY n then drop_bit n lo else 0))
    (s XOR (if bit IXGBE_ATR_SIGNATURE_HASH_KEY n then drop_bit n lo else 0))"
    using assms(2) by (intro sig_hash_half_rel [OF assms]) simp
  from sig_hash_half_rel [OF this assms(2), of "n + 16" hi] show ?thesis
    using assms(2) unfolding IXGBE_COMPUTE_SIG_HASH_ITERATION_def atr_term_def by (simp add: xor.assoc)
qed

lemma sig_loop_rel:
  assumes "sig_rel h b s" "n \<le> 16"
  shows "sig_rel (for_upto 1 n (IXGBE_COMPUTE_SIG_HASH_ITERATION lo hi) h)
    (for_upto 1 n (\<lambda>n h. h XOR atr_term IXGBE_ATR_BUCKET_HASH_KEY lo hi n) b)
    (for_upto 1 n (\<lambda>n h. h XOR atr_term IXGBE_ATR_SIGNATURE_HASH_KEY lo hi n) s)"
  using assms(2)
proof (induction n)
  case 0
  with assms(1) show ?case by simp
next
  case (Suc n)
  then show ?case using assms(1) sig_iteration_rel by (cases "n = 0") simp_all
qed

lemma bkt_iteration:
  "n < 16 \<Longrightarrow> IXGBE_COMPUTE_BKT_HASH_ITERATION lo hi n b = b XOR atr_term IXGBE_ATR_BUCKET_HASH_KEY lo hi n"
  by (simp add: IXGBE_COMPUTE_BKT_HASH_ITERATION_def atr_term_def and_BIT_eq_0 xor.assoc)

lemma bkt_loop:
  "n \<le> 16 \<Longrightarrow> for_upto 1 n (IXGBE_COMPUTE_BKT_HASH_ITERATION lo hi) b =
     for_upto 1 n (\<lambda>n h. h XOR atr_term IXGBE_ATR_BUCKET_HASH_KEY lo hi n) b"
  by (rule fold_cong) (auto simp: bkt_iteration fun_eq_iff)

lemma hash_mask_eq: "(0x7FFF :: u32) = mask 15" "(0x1FFF :: u32) = mask 13"
  by (simp_all add: mask_numeral)

lemma sig_combine: "(push_bit 16 s AND sig_field) XOR (b AND mask 15) = push_bit 16 (s AND mask 15) OR (b AND mask 15)"
  by (rule bit_word_eqI) (auto simp: sig_field_def bit_simps)

lemma sig_hash_pair:
  "ixgbe_atr_compute_sig_hash_82599 input common =
     push_bit 16 (atr_hash IXGBE_ATR_SIGNATURE_HASH_KEY (IXGBE_NTOHL input) (IXGBE_NTOHL common) AND 0x7FFF) OR
     (atr_hash IXGBE_ATR_BUCKET_HASH_KEY (IXGBE_NTOHL input) (IXGBE_NTOHL common) AND 0x7FFF)"
proof -
  let ?f = "IXGBE_NTOHL input" and ?c = "IXGBE_NTOHL common"
  let ?lo = "drop_bit 16 ?c OR push_bit 16 ?c" and ?hi = "?c XOR (?f XOR drop_bit 16 ?f)"
  let ?start = "\<lparr>sig_hash = 0, sig_bucket = 0, sig_common = 0\<rparr>"
  let ?h = "for_upto 1 16 (IXGBE_COMPUTE_SIG_HASH_ITERATION (?lo XOR (?f XOR push_bit 16 ?f)) ?hi)
    (IXGBE_COMPUTE_SIG_HASH_ITERATION ?lo ?hi 0 ?start)"
  have "sig_rel (IXGBE_COMPUTE_SIG_HASH_ITERATION ?lo ?hi 0 ?start)
    (0 XOR atr_term IXGBE_ATR_BUCKET_HASH_KEY ?lo ?hi 0) (0 XOR atr_term IXGBE_ATR_SIGNATURE_HASH_KEY ?lo ?hi 0)"
    by (rule sig_iteration_rel) (simp_all add: sig_rel_def)
  from sig_loop_rel [OF this, of 16 "?lo XOR (?f XOR push_bit 16 ?f)" ?hi]
  have "sig_rel ?h (atr_hash IXGBE_ATR_BUCKET_HASH_KEY ?f ?c) (atr_hash IXGBE_ATR_SIGNATURE_HASH_KEY ?f ?c)"
    by (simp add: atr_hash_def Let_def)
  then show ?thesis
    unfolding ixgbe_atr_compute_sig_hash_82599_def Let_def hash_mask_eq sig_rel_def sig_field_def [symmetric]
    by (simp add: sig_combine)
qed

section \<open>Perfect hash\<close>

lemma atr_mask_loop:
  "n \<le> 14 \<Longrightarrow> length s = 14 \<Longrightarrow>
     (let r = for_upto 0 n (\<lambda>i s. s[i := s ! i AND m ! i]) s
      in length r = 14 \<and> (\<forall>j < 14. r ! j = (if j < n then s ! j AND m ! j else s ! j)))"
  by (induction n) (auto simp: Let_def nth_list_update)

lemma atr_mask_input_nth:
  assumes "length s = 14"
  shows "length (atr_mask_input s m) = 14" "j < 14 \<Longrightarrow> atr_mask_input s m ! j = s ! j AND m ! j"
  using atr_mask_loop [of 14 s m] assms by (auto simp: atr_mask_input_def Let_def)

abbreviation xor_dwords :: "u32 list \<Rightarrow> u32" where
  "xor_dwords s \<equiv> for_upto 1 14 (\<lambda>i h. h XOR s ! i) 0"

lemma perfect_hash_eq:
  "ixgbe_atr_compute_perfect_hash_82599 s m = set_bkt_hash
     (ucast (atr_hash IXGBE_ATR_BUCKET_HASH_KEY (IXGBE_NTOHL (atr_mask_input s m ! 0))
        (IXGBE_NTOHL (xor_dwords (atr_mask_input s m))) AND 0x1FFF)) (atr_mask_input s m)"
  unfolding ixgbe_atr_compute_perfect_hash_82599_def Let_def atr_hash_def
  by (simp only: bkt_loop bkt_iteration) (simp add: bkt_iteration bkt_loop del: One_nat_def)

lemma set_bkt_hash_fields:
  assumes "length s = 14"
  shows "length (set_bkt_hash v s) = 14" "j < 13 \<Longrightarrow> set_bkt_hash v s ! j = s ! j"
    "bkt_hash (set_bkt_hash v s) = v" "flex_bytes (set_bkt_hash v s) = flex_bytes s"
proof -
  show "length (set_bkt_hash v s) = 14" "j < 13 \<Longrightarrow> set_bkt_hash v s ! j = s ! j"
    using assms by (simp_all add: set_bkt_hash_def)
  have *: "set_bkt_hash v s ! 13 = (s ! 13 AND 0xFFFF) OR push_bit 16 (ucast v)"
    using assms by (simp add: set_bkt_hash_def)
  show "bkt_hash (set_bkt_hash v s) = v"
    unfolding bkt_hash_def * mask16_eq by (rule bit_word_eqI) (auto simp: bit_simps)
  show "flex_bytes (set_bkt_hash v s) = flex_bytes s"
    unfolding flex_bytes_def * mask16_eq by (rule bit_word_eqI) (auto simp: bit_simps)
qed

lemma bucket_of_sig_hash:
  "ixgbe_atr_compute_sig_hash_82599 i c AND 0x1FFF =
     atr_hash IXGBE_ATR_BUCKET_HASH_KEY (IXGBE_NTOHL i) (IXGBE_NTOHL c) AND 0x1FFF"
  unfolding sig_hash_pair hash_mask_eq by (rule bit_word_eqI) (auto simp: bit_simps)

lemma perfect_hash_fields:
  fixes s m :: "u32 list"
  assumes "length s = 14"
  defines "t \<equiv> atr_mask_input s m"
  shows "length (ixgbe_atr_compute_perfect_hash_82599 s m) = 14"
    "j < 13 \<Longrightarrow> ixgbe_atr_compute_perfect_hash_82599 s m ! j = s ! j AND m ! j"
    "flex_bytes (ixgbe_atr_compute_perfect_hash_82599 s m) = flex_bytes s AND flex_bytes m"
    "bkt_hash (ixgbe_atr_compute_perfect_hash_82599 s m) =
       ucast (ixgbe_atr_compute_sig_hash_82599 (t ! 0) (xor_dwords t) AND 0x1FFF)"
proof -
  have l: "length t = 14" "\<And>j. j < 14 \<Longrightarrow> t ! j = s ! j AND m ! j"
    unfolding t_def using atr_mask_input_nth [OF assms(1)] by auto
  note e = perfect_hash_eq [of s m, folded t_def]
  note f = set_bkt_hash_fields [OF l(1)]
  show "length (ixgbe_atr_compute_perfect_hash_82599 s m) = 14"
    "j < 13 \<Longrightarrow> ixgbe_atr_compute_perfect_hash_82599 s m ! j = s ! j AND m ! j"
    unfolding e using f(1,2) l by simp_all
  have "flex_bytes t = flex_bytes s AND flex_bytes m"
    unfolding flex_bytes_def using l(2) by (simp add: unsigned_and_eq)
  then show "flex_bytes (ixgbe_atr_compute_perfect_hash_82599 s m) = flex_bytes s AND flex_bytes m"
    unfolding e f(4) .
  show "bkt_hash (ixgbe_atr_compute_perfect_hash_82599 s m) =
       ucast (ixgbe_atr_compute_sig_hash_82599 (t ! 0) (xor_dwords t) AND 0x1FFF)"
    unfolding e f(3) bucket_of_sig_hash ..
qed

text \<open>With no hash bits in the mask, computing the hash again changes nothing.\<close>

lemma perfect_hash_again:
  assumes "length s = 14" "bkt_hash m = 0"
  shows "ixgbe_atr_compute_perfect_hash_82599 (ixgbe_atr_compute_perfect_hash_82599 s m) m =
    ixgbe_atr_compute_perfect_hash_82599 s m"
proof -
  let ?r = "ixgbe_atr_compute_perfect_hash_82599 s m"
  have h: "\<not> bit (m ! 13) (n + 16)" for n
  proof -
    have "\<not> bit (bkt_hash m) n" using assms(2) by simp
    then show ?thesis
      by (cases "n < 16") (auto simp: bkt_hash_def bit_simps add.commute dest: bit_imp_le_length)
  qed
  have 13: "?r ! 13 AND m ! 13 = s ! 13 AND m ! 13"
  proof (rule word32_eqI, intro allI impI)
    fix n :: nat assume n: "n < 16"
    have "bit (flex_bytes ?r) n = bit (flex_bytes s AND flex_bytes m) n"
      by (simp only: perfect_hash_fields(3) [OF assms(1)])
    with n have "bit (?r ! 13) n = (bit (s ! 13) n \<and> bit (m ! 13) n)"
      by (simp add: flex_bytes_def bit_and_iff bit_ucast_iff)
    then show "bit (?r ! 13 AND m ! 13) n = bit (s ! 13 AND m ! 13) n \<and>
      bit (?r ! 13 AND m ! 13) (n + 16) = bit (s ! 13 AND m ! 13) (n + 16)"
      using h by (auto simp: bit_and_iff)
  qed
  have "atr_mask_input ?r m = atr_mask_input s m"
  proof (rule nth_equalityI)
    show "length (atr_mask_input ?r m) = length (atr_mask_input s m)"
      using atr_mask_input_nth(1) assms(1) perfect_hash_fields(1) [OF assms(1)] by simp
    fix j assume "j < length (atr_mask_input ?r m)"
    then have j: "j < 14" using atr_mask_input_nth(1) perfect_hash_fields(1) [OF assms(1)] by simp
    then have "atr_mask_input ?r m ! j = ?r ! j AND m ! j" "atr_mask_input s m ! j = s ! j AND m ! j"
      using atr_mask_input_nth(2) assms(1) perfect_hash_fields(1) [OF assms(1)] by simp_all
    then show "atr_mask_input ?r m ! j = atr_mask_input s m ! j"
      using 13 perfect_hash_fields(2) [OF assms(1), of j m] j
      by (cases "j = 13") (simp_all add: and.assoc)
  qed
  then show ?thesis by (simp only: perfect_hash_eq)
qed

section \<open>Registers that hold what is written\<close>

text \<open>What the code relies on of plain registers: they hold the last value written to them.\<close>

definition cfg_regs :: "'s device \<Rightarrow> reg set \<Rightarrow> ('s \<Rightarrow> reg \<Rightarrow> u32) \<Rightarrow> bool" where
  "cfg_regs d R val \<longleftrightarrow>
     (\<forall>r \<in> R. \<forall>r' x s. val (dev_write d r' x s) r = (if r' = r then x else val s r)) \<and>
     (\<forall>r \<in> R. \<forall>r' s. val (snd (dev_read d r' s)) r = val s r)"

lemma cfg_regs_write:
  "cfg_regs d R val \<Longrightarrow> r \<in> R \<Longrightarrow> val (dev_write d r' x s) r = (if r' = r then x else val s r)"
  by (simp add: cfg_regs_def)

definition mask_regs :: "reg set" where
  "mask_regs = {IXGBE_FDIRM, IXGBE_FDIRTCPM, IXGBE_FDIRUDPM, IXGBE_FDIRSCTPM, IXGBE_FDIRSIP4M, IXGBE_FDIRDIP4M, IXGBE_FDIRIP6M}"

text \<open>The masks that the hardware can express.\<close>

definition fdir_mask_ok :: "ixgbe_atr_input \<Rightarrow> bool" where
  "fdir_mask_ok m \<longleftrightarrow>
     vm_pool m AND 0x7F \<in> {0, 0x7F} \<and>
     flow_type m AND 0x3 \<in> {0, 0x3} \<and> (flow_type m AND 0x3 = 0 \<longrightarrow> dst_port m = 0 \<and> src_port m = 0) \<and>
     IXGBE_NTOHS (vlan_id m) AND 0xEFFF \<in> {0, 0x0FFF, 0xE000, 0xEFFF} \<and>
     flex_bytes m \<in> {0, 0xFFFF}"

definition fdirm_spec :: "ixgbe_atr_input \<Rightarrow> u32" where
  "fdirm_spec m =
     (if vm_pool m AND 0x7F = 0 then IXGBE_FDIRM_POOL else 0) OR
     (if flow_type m AND 0x3 = 0 then IXGBE_FDIRM_L4P else 0) OR
     (if IXGBE_NTOHS (vlan_id m) AND 0x0FFF = 0 then IXGBE_FDIRM_VLANID else 0) OR
     (if IXGBE_NTOHS (vlan_id m) AND 0xE000 = 0 then IXGBE_FDIRM_VLANP else 0) OR
     (if flex_bytes m = 0 then IXGBE_FDIRM_FLEX else 0) OR IXGBE_FDIRM_DIPv6"

lemma vlan_mask_cases:
  fixes v :: u16
  shows "v AND 0xEFFF = 0 \<Longrightarrow> v AND 0x0FFF = 0 \<and> v AND 0xE000 = 0"
    "v AND 0xEFFF = 0x0FFF \<Longrightarrow> v AND 0x0FFF = 0x0FFF \<and> v AND 0xE000 = 0"
    "v AND 0xEFFF = 0xE000 \<Longrightarrow> v AND 0x0FFF = 0 \<and> v AND 0xE000 = 0xE000"
    "v AND 0xEFFF = 0xEFFF \<Longrightarrow> v AND 0x0FFF = 0x0FFF \<and> v AND 0xE000 = 0xE000"
proof -
  have "v AND 0x0FFF = (v AND 0xEFFF) AND 0x0FFF" "v AND 0xE000 = (v AND 0xEFFF) AND 0xE000"
    by (simp_all add: and.assoc)
  then show "v AND 0xEFFF = 0 \<Longrightarrow> v AND 0x0FFF = 0 \<and> v AND 0xE000 = 0"
    "v AND 0xEFFF = 0x0FFF \<Longrightarrow> v AND 0x0FFF = 0x0FFF \<and> v AND 0xE000 = 0"
    "v AND 0xEFFF = 0xE000 \<Longrightarrow> v AND 0x0FFF = 0 \<and> v AND 0xE000 = 0xE000"
    "v AND 0xEFFF = 0xEFFF \<Longrightarrow> v AND 0x0FFF = 0x0FFF \<and> v AND 0xE000 = 0xE000"
    by simp_all
qed

lemma and_FFFF: "(x :: u16) AND 0xFFFF = x"
proof -
  have "(0xFFFF :: u16) = - 1" by simp
  then show ?thesis by (simp only: and.right_neutral)
qed

lemma fdirm_checks_eq: "fdirm_checks m = (if fdir_mask_ok m then Some (fdirm_spec m) else None)"
proof -
  let ?v = "IXGBE_NTOHS (vlan_id m)"
  show ?thesis
    unfolding fdirm_checks_def fdirm_pool_def fdirm_l4_def fdirm_vlan_def fdirm_flex_def fdir_mask_ok_def and_FFFF Let_def
    using vlan_mask_cases [of ?v]
    by (cases "flow_type m AND 3 = 0"; cases "vm_pool m AND 0x7F = 0"; cases "flex_bytes m = 0";
        cases "?v AND 0xEFFF = 0"; cases "?v AND 0xEFFF = 0x0FFF"; cases "?v AND 0xEFFF = 0xE000")
      (auto simp: fdirm_spec_def)
qed

text \<open>The masks of the tunnel fields that cloud mode can express, and the value of \<open>FDIRIP6M\<close> for them.\<close>

definition fdir_cloud_mask_ok :: "ixgbe_atr_input \<Rightarrow> bool" where
  "fdir_cloud_mask_ok m \<longleftrightarrow> inner_mac m 0 \<in> {0, 0xFF} \<and> tni_vni m \<in> {0, 0x00FFFFFF, 0xFFFFFFFF} \<and>
     tunnel_type m \<in> {0, 0xFFFF}"

definition fdirip6m_spec :: "ixgbe_atr_input \<Rightarrow> u32" where
  "fdirip6m_spec m = 0xFFFF040F OR (if inner_mac m 0 = 0 then IXGBE_FDIRIP6M_INNER_MAC else 0) OR
     (if tni_vni m = 0 then IXGBE_FDIRIP6M_TNI_VNI else if tni_vni m = 0x00FFFFFF then IXGBE_FDIRIP6M_TNI_VNI_24 else 0) OR
     (if tunnel_type m = 0 then IXGBE_FDIRIP6M_TUNNEL_TYPE else 0)"

lemma and_FF: "(x :: u8) AND 0xFF = x"
proof -
  have "(0xFF :: u8) = - 1" by simp
  then show ?thesis by (simp only: and.right_neutral)
qed

lemma and_FFFFFFFF: "(x :: u32) AND 0xFFFFFFFF = x"
proof -
  have "(0xFFFFFFFF :: u32) = - 1" by simp
  then show ?thesis by (simp only: and.right_neutral)
qed

lemma fdirip6m_checks_eq: "fdirip6m_checks m = (if fdir_cloud_mask_ok m then Some (fdirip6m_spec m) else None)"
  unfolding fdirip6m_checks_def fdirip6m_mac_def fdirip6m_vni_def fdirip6m_tunnel_def fdir_cloud_mask_ok_def
    and_FF and_FFFF and_FFFFFFFF Let_def
  by (cases "inner_mac m 0 = 0"; cases "tunnel_type m = 0"; cases "tni_vni m = 0"; cases "tni_vni m = 0x00FFFFFF")
    (auto simp: fdirip6m_spec_def)

lemma write_be32: "IXGBE_WRITE_REG_BE32 d r v = dwrite d r v"
  by (simp add: IXGBE_WRITE_REG_BE32_def)

text \<open>What the seven registers hold after a mask was accepted.\<close>

definition mask_regs_spec :: "ixgbe_mac_type \<Rightarrow> ixgbe_atr_input \<Rightarrow> bool \<Rightarrow> (reg \<Rightarrow> u32) \<Rightarrow> (reg \<Rightarrow> u32) \<Rightarrow> bool" where
  "mask_regs_spec t m cloud v v' \<longleftrightarrow>
     (let ports = (if cloud then 0xFFFFFFFF else NOT (ixgbe_get_fdirtcpm_82599 m)) in
      v' IXGBE_FDIRM = (if cloud then fdirm_spec m OR IXGBE_FDIRM_L3P else fdirm_spec m) \<and>
      v' IXGBE_FDIRTCPM = ports \<and> v' IXGBE_FDIRUDPM = ports \<and>
      v' IXGBE_FDIRSCTPM = (if fdir_sctp_mac t then ports else v IXGBE_FDIRSCTPM) \<and>
      v' IXGBE_FDIRSIP4M = (if cloud then 0xFFFFFFFF else NOT (src_ip m 0)) \<and>
      v' IXGBE_FDIRDIP4M = (if cloud then 0xFFFFFFFF else NOT (dst_ip m 0)) \<and>
      v' IXGBE_FDIRIP6M = (if cloud then fdirip6m_spec m else 0xFFFFFFFF))"

lemma set_input_mask_effect:
  assumes "cfg_regs d mask_regs val" "run_state (ixgbe_fdir_set_input_mask_82599 d t m cloud) s = (st, s')"
  shows "fdir_mask_ok m \<and> (cloud \<longrightarrow> fdir_cloud_mask_ok m) \<Longrightarrow> st = IXGBE_SUCCESS \<and> mask_regs_spec t m cloud (val s) (val s')"
    and "\<not> (fdir_mask_ok m \<and> (cloud \<longrightarrow> fdir_cloud_mask_ok m)) \<Longrightarrow> st = IXGBE_ERR_CONFIG \<and> s' = s"
proof -
  have [simp]: "r \<in> mask_regs \<Longrightarrow> val (dev_write d r' x s) r = (if r' = r then x else val s r)" for r r' x s
    by (rule cfg_regs_write [OF assms(1)])
  have [simp]: "IXGBE_FDIRM \<in> mask_regs" "IXGBE_FDIRTCPM \<in> mask_regs" "IXGBE_FDIRUDPM \<in> mask_regs"
    "IXGBE_FDIRSCTPM \<in> mask_regs" "IXGBE_FDIRSIP4M \<in> mask_regs" "IXGBE_FDIRDIP4M \<in> mask_regs" "IXGBE_FDIRIP6M \<in> mask_regs"
    by (simp_all add: mask_regs_def)
  show "\<not> (fdir_mask_ok m \<and> (cloud \<longrightarrow> fdir_cloud_mask_ok m)) \<Longrightarrow> st = IXGBE_ERR_CONFIG \<and> s' = s"
    using assms(2)
    by (auto simp: ixgbe_fdir_set_input_mask_82599_def fdirm_checks_eq fdirip6m_checks_eq split: if_splits)
  assume "fdir_mask_ok m \<and> (cloud \<longrightarrow> fdir_cloud_mask_ok m)"
  then show "st = IXGBE_SUCCESS \<and> mask_regs_spec t m cloud (val s) (val s')"
    using assms(2)
    by (cases "fdir_sctp_mac t"; cases cloud)
      (auto simp: ixgbe_fdir_set_input_mask_82599_def mask_regs_spec_def fdirm_checks_eq fdirip6m_checks_eq write_be32 Let_def)
qed

section \<open>The filter table\<close>

text \<open>
  What the code relies on of the filter engine.  A command word written to \<open>FDIRCMD\<close> while the engine
  is idle starts one command, on the filter that \<open>FDIRHASH\<close> names; \<open>filter_id\<close> is the part of that
  register by which the hardware tells filters apart.  The command may be completed at once or at any
  later access, and it may fail: an addition finds no room, a removal finds no filter, and the engine
  counts this (\<open>FDIRFSTAT\<close>).  A query changes nothing.  When the command bits of \<open>FDIRCMD\<close> read as zero
  the command is completed, and after a query \<open>FILTER_VALID\<close> tells whether the filter is present.
  Nothing is said of a command word with \<open>CLEARHT\<close> or of one written while the engine is busy.
\<close>

record ('s, 'k) fdir_obs =
  filter_id :: "u32 \<Rightarrow> 'k"
  tab :: "'s \<Rightarrow> 'k set"
  cur :: "'s \<Rightarrow> u32"
  last_cmd :: "'s \<Rightarrow> u32 \<times> 'k"
  busy :: "'s \<Rightarrow> bool"
  failed_adds :: "'s \<Rightarrow> nat"
  failed_removes :: "'s \<Rightarrow> nat"

type_synonym 'k fdir_stats = "'k set \<times> nat \<times> nat"

definition stats :: "('s, 'k) fdir_obs \<Rightarrow> 's \<Rightarrow> 'k fdir_stats" where
  "stats ob s = (tab ob s, failed_adds ob s, failed_removes ob s)"

text \<open>The possible results of a command.\<close>

fun fdir_outcome :: "u32 \<times> 'k \<Rightarrow> 'k fdir_stats \<Rightarrow> 'k fdir_stats set" where
  "fdir_outcome (cmd, k) (T, a, r) =
     (if cmd = IXGBE_FDIRCMD_CMD_ADD_FLOW then {(insert k T, a, r), (T, Suc a, r)}
      else if cmd = IXGBE_FDIRCMD_CMD_REMOVE_FLOW then {(T - {k}, a, r), (T, a, Suc r)} else {(T, a, r)})"

text \<open>What the engine may do on its own between two states: nothing, or complete its command.\<close>

definition settles :: "('s, 'k) fdir_obs \<Rightarrow> 's \<Rightarrow> 's \<Rightarrow> bool" where
  "settles ob s s' \<longleftrightarrow> last_cmd ob s' = last_cmd ob s \<and>
     (busy ob s' = busy ob s \<and> stats ob s' = stats ob s \<or>
      busy ob s \<and> \<not> busy ob s' \<and> stats ob s' \<in> fdir_outcome (last_cmd ob s) (stats ob s))"

definition starts :: "('s, 'k) fdir_obs \<Rightarrow> u32 \<Rightarrow> 's \<Rightarrow> 's \<Rightarrow> bool" where
  "starts ob x s s' \<longleftrightarrow> last_cmd ob s' = (x AND IXGBE_FDIRCMD_CMD_MASK, filter_id ob (cur ob s)) \<and>
     (if busy ob s' then stats ob s' = stats ob s else stats ob s' \<in> fdir_outcome (last_cmd ob s') (stats ob s))"

definition fdir_engine :: "'s device \<Rightarrow> ('s, 'k) fdir_obs \<Rightarrow> bool" where
  "fdir_engine d ob \<longleftrightarrow>
     (\<forall>r s. settles ob s (snd (dev_read d r s)) \<and> cur ob (snd (dev_read d r s)) = cur ob s) \<and>
     (\<forall>s v s'. dev_read d IXGBE_FDIRCMD s = (v, s') \<longrightarrow> v AND IXGBE_FDIRCMD_CMD_MASK = 0 \<longrightarrow>
        \<not> busy ob s' \<and> (fst (last_cmd ob s') = IXGBE_FDIRCMD_CMD_QUERY_REM_FILT \<longrightarrow>
          (v AND IXGBE_FDIRCMD_FILTER_VALID \<noteq> 0) = (snd (last_cmd ob s') \<in> tab ob s'))) \<and>
     (\<forall>r x s. r \<noteq> IXGBE_FDIRCMD \<longrightarrow> settles ob s (dev_write d r x s) \<and>
        cur ob (dev_write d r x s) = (if r = IXGBE_FDIRHASH then x else cur ob s)) \<and>
     (\<forall>x s. \<not> busy ob s \<longrightarrow> x AND IXGBE_FDIRCMD_CLEARHT = 0 \<longrightarrow>
        starts ob x s (dev_write d IXGBE_FDIRCMD x s) \<and> cur ob (dev_write d IXGBE_FDIRCMD x s) = cur ob s)"

lemma fdir_engineD:
  assumes "fdir_engine d ob"
  shows "settles ob s (snd (dev_read d r s))" "cur ob (snd (dev_read d r s)) = cur ob s"
    "dev_read d IXGBE_FDIRCMD s = (v, s') \<Longrightarrow> v AND IXGBE_FDIRCMD_CMD_MASK = 0 \<Longrightarrow> \<not> busy ob s' \<and>
       (fst (last_cmd ob s') = IXGBE_FDIRCMD_CMD_QUERY_REM_FILT \<longrightarrow>
         (v AND IXGBE_FDIRCMD_FILTER_VALID \<noteq> 0) = (snd (last_cmd ob s') \<in> tab ob s'))"
    "r \<noteq> IXGBE_FDIRCMD \<Longrightarrow> settles ob s (dev_write d r x s)"
    "r \<noteq> IXGBE_FDIRCMD \<Longrightarrow> cur ob (dev_write d r x s) = (if r = IXGBE_FDIRHASH then x else cur ob s)"
    "\<not> busy ob s \<Longrightarrow> x AND IXGBE_FDIRCMD_CLEARHT = 0 \<Longrightarrow> starts ob x s (dev_write d IXGBE_FDIRCMD x s)"
    "\<not> busy ob s \<Longrightarrow> x AND IXGBE_FDIRCMD_CLEARHT = 0 \<Longrightarrow> cur ob (dev_write d IXGBE_FDIRCMD x s) = cur ob s"
  using assms unfolding fdir_engine_def by blast+

lemma settles_refl: "settles ob s s"
  by (simp add: settles_def)

lemma settles_trans: "settles ob s t \<Longrightarrow> settles ob t u \<Longrightarrow> settles ob s u"
  by (auto simp: settles_def)

lemma settles_idle: "settles ob s s' \<Longrightarrow> \<not> busy ob s \<Longrightarrow> \<not> busy ob s' \<and> stats ob s' = stats ob s"
  by (simp add: settles_def)

text \<open>An idle engine stays as it is while its other registers are accessed.\<close>

lemma engine_idle:
  assumes "fdir_engine d ob" "\<not> busy ob s"
  shows "busy ob (snd (dev_read d r s)) = False" "stats ob (snd (dev_read d r s)) = stats ob s"
    "r \<noteq> IXGBE_FDIRCMD \<Longrightarrow> busy ob (dev_write d r x s) = False"
    "r \<noteq> IXGBE_FDIRCMD \<Longrightarrow> stats ob (dev_write d r x s) = stats ob s"
  using settles_idle [OF fdir_engineD(1) [OF assms(1)] assms(2)] settles_idle [OF fdir_engineD(4) [OF assms(1)] assms(2)]
  by simp_all

lemma starts_settles:
  "starts ob x s t \<Longrightarrow> settles ob t u \<Longrightarrow> \<not> busy ob u \<Longrightarrow>
     last_cmd ob u = (x AND IXGBE_FDIRCMD_CMD_MASK, filter_id ob (cur ob s)) \<and>
     stats ob u \<in> fdir_outcome (x AND IXGBE_FDIRCMD_CMD_MASK, filter_id ob (cur ob s)) (stats ob s)"
  by (auto simp: starts_def settles_def split: if_splits)

text \<open>A command changes no filter but its own, whether or not it is completed.\<close>

lemma outcome_others:
  "p \<in> fdir_outcome (cmd, k) q \<Longrightarrow> j \<noteq> k \<Longrightarrow> (j \<in> fst p) = (j \<in> fst q)"
  by (cases q) (auto split: if_splits)

lemma outcome_query: "fdir_outcome (IXGBE_FDIRCMD_CMD_QUERY_REM_FILT, k) q = {q}"
  by (cases q) simp

lemma starts_settles_others:
  assumes "starts ob x s t" "settles ob t u" "j \<noteq> filter_id ob (cur ob s)"
  shows "(j \<in> tab ob u) = (j \<in> tab ob s)"
proof (cases "busy ob u")
  case True
  then have "stats ob u = stats ob s" using assms(1,2) by (auto simp: starts_def settles_def split: if_splits)
  then show ?thesis by (simp add: stats_def)
next
  case False
  from starts_settles [OF assms(1,2) False] outcome_others [OF _ assms(3)]
  have "(j \<in> fst (stats ob u)) = (j \<in> fst (stats ob s))" by blast
  then show ?thesis by (simp add: stats_def)
qed

lemma cmd_loop_settles:
  assumes e: "fdir_engine d ob" and "run_state (fdir_cmd_loop d n c) s = ((st, c'), s')"
  shows "settles ob s s' \<and> cur ob s' = cur ob s \<and> (st = IXGBE_SUCCESS \<longrightarrow> \<not> busy ob s' \<and>
    (fst (last_cmd ob s') = IXGBE_FDIRCMD_CMD_QUERY_REM_FILT \<longrightarrow>
      (c' AND IXGBE_FDIRCMD_FILTER_VALID \<noteq> 0) = (snd (last_cmd ob s') \<in> tab ob s')))"
  using assms(2)
proof (induction n arbitrary: c s)
  case 0
  then show ?case by (auto simp: settles_refl)
next
  case (Suc n)
  obtain v t where r: "dev_read d IXGBE_FDIRCMD s = (v, t)" by (rule prod.exhaust)
  have k: "settles ob s t" "cur ob t = cur ob s"
    using fdir_engineD(1) [OF e, of s IXGBE_FDIRCMD] fdir_engineD(2) [OF e, of IXGBE_FDIRCMD s] by (simp_all add: r)
  show ?case
  proof (cases "v AND IXGBE_FDIRCMD_CMD_MASK = 0")
    case True
    then show ?thesis using Suc.prems fdir_engineD(3) [OF e r] k by (simp add: r)
  next
    case False
    then have "run_state (fdir_cmd_loop d n v) t = ((st, c'), s')" using Suc.prems by (simp add: r)
    from Suc.IH [OF this] k show ?thesis using settles_trans [OF k(1)] by simp
  qed
qed

lemma check_cmd_settles:
  assumes "fdir_engine d ob" and "run_state (ixgbe_fdir_check_cmd_complete d) s = ((st, c), s')"
  shows "settles ob s s'" "cur ob s' = cur ob s" "st = IXGBE_SUCCESS \<Longrightarrow> \<not> busy ob s'"
    "st = IXGBE_SUCCESS \<Longrightarrow> fst (last_cmd ob s') = IXGBE_FDIRCMD_CMD_QUERY_REM_FILT \<Longrightarrow>
      (c AND IXGBE_FDIRCMD_FILTER_VALID \<noteq> 0) = (snd (last_cmd ob s') \<in> tab ob s')"
  using cmd_loop_settles [OF assms(1) assms(2) [unfolded ixgbe_fdir_check_cmd_complete_def]] by blast+

text \<open>The command word of an addition; bit 3 of the flow type would be shifted onto \<open>CLEARHT\<close>.\<close>

lemma filter_cmd_add: "fdir_filter_cmd input queue AND IXGBE_FDIRCMD_CMD_MASK = IXGBE_FDIRCMD_CMD_ADD_FLOW"
proof (rule word32_eqI)
  show "\<forall>n < 16. bit (fdir_filter_cmd input queue AND 3) n = bit (1 :: u32) n \<and>
    bit (fdir_filter_cmd input queue AND 3) (n + 16) = bit (1 :: u32) (n + 16)"
    by (simp add: all_less_16 fdir_filter_cmd_def Let_def bit_split)
qed

lemma filter_cmd_clearht:
  "fdir_filter_cmd input queue AND IXGBE_FDIRCMD_CLEARHT = 0 \<longleftrightarrow> \<not> bit (flow_type input) 3"
proof -
  have c: "IXGBE_FDIRCMD_CLEARHT = BIT 8" by (simp add: BIT_def)
  have "bit (fdir_filter_cmd input queue) 8 = bit (flow_type input) 3"
    by (simp add: fdir_filter_cmd_def Let_def bit_split bit_ucast_iff)
  then show ?thesis unfolding c by (simp add: and_BIT_eq_0)
qed

lemma write_filter_run:
  assumes "fdir_engine d ob" "\<not> busy ob s"
  obtains t where "run_state (ixgbe_fdir_write_perfect_filter_82599 d input soft_id queue cloud) s =
      (case run_state (ixgbe_fdir_check_cmd_complete d) (dev_write d IXGBE_FDIRCMD (fdir_filter_cmd input queue) t) of
         ((rv, c), u) \<Rightarrow> (rv, u))"
    "\<not> busy ob t" "stats ob t = stats ob s" "cur ob t = fdir_hash_reg input soft_id"
proof -
  have ret: "(if x \<noteq> IXGBE_SUCCESS then ret x else ret IXGBE_SUCCESS) = (ret x :: ('a, ixgbe_status) state)" for x
    by simp
  note l = engine_idle [OF assms(1)] fdir_engineD(2,5) [OF assms(1)] assms(2)
  show ?thesis
  proof (cases cloud)
    case True
    show ?thesis
      by (rule that, unfold ixgbe_fdir_write_perfect_filter_82599_def IXGBE_WRITE_FLUSH_def IXGBE_WRITE_REG_BE32_def ret,
          simp add: True case_prod_beta) (simp_all add: l)
  next
    case False
    show ?thesis
      by (rule that, unfold ixgbe_fdir_write_perfect_filter_82599_def IXGBE_WRITE_FLUSH_def IXGBE_WRITE_REG_BE32_def ret,
          simp add: False case_prod_beta) (simp_all add: l)
  qed
qed

lemma write_filter_table:
  assumes e: "fdir_engine d ob" and i: "\<not> busy ob s" "\<not> bit (flow_type input) 3"
    and r: "run_state (ixgbe_fdir_write_perfect_filter_82599 d input soft_id queue cloud) s = (st, s')"
  shows "j \<noteq> filter_id ob (fdir_hash_reg input soft_id) \<Longrightarrow> (j \<in> tab ob s') = (j \<in> tab ob s)"
    "st = IXGBE_SUCCESS \<Longrightarrow> \<not> busy ob s' \<and> stats ob s' \<in>
       fdir_outcome (IXGBE_FDIRCMD_CMD_ADD_FLOW, filter_id ob (fdir_hash_reg input soft_id)) (stats ob s)"
proof -
  obtain t where t: "run_state (ixgbe_fdir_write_perfect_filter_82599 d input soft_id queue cloud) s =
      (case run_state (ixgbe_fdir_check_cmd_complete d) (dev_write d IXGBE_FDIRCMD (fdir_filter_cmd input queue) t) of
         ((rv, c), u) \<Rightarrow> (rv, u))" "\<not> busy ob t" "stats ob t = stats ob s" "cur ob t = fdir_hash_reg input soft_id"
    by (rule write_filter_run [OF e i(1)])
  let ?u = "dev_write d IXGBE_FDIRCMD (fdir_filter_cmd input queue) t"
  obtain rv c u where q: "run_state (ixgbe_fdir_check_cmd_complete d) ?u = ((rv, c), u)" by (metis surj_pair)
  have [simp]: "rv = st" "u = s'" using t(1) r q by simp_all
  have s: "starts ob (fdir_filter_cmd input queue) t ?u"
    by (rule fdir_engineD(6) [OF e t(2)]) (simp add: filter_cmd_clearht i(2))
  note k = check_cmd_settles [OF e q, simplified]
  have tt: "tab ob t = tab ob s" using t(3) by (simp add: stats_def)
  show "j \<noteq> filter_id ob (fdir_hash_reg input soft_id) \<Longrightarrow> (j \<in> tab ob s') = (j \<in> tab ob s)"
    using starts_settles_others [OF s k(1)] tt t(4) by simp
  show "st = IXGBE_SUCCESS \<Longrightarrow> \<not> busy ob s' \<and> stats ob s' \<in>
       fdir_outcome (IXGBE_FDIRCMD_CMD_ADD_FLOW, filter_id ob (fdir_hash_reg input soft_id)) (stats ob s)"
    using starts_settles [OF s k(1)] k(3) t(3,4) filter_cmd_add by simp
qed

text \<open>
  Erasing a filter from an idle engine: either the query did not find it and nothing changed, or a
  removal of this filter was started.
\<close>

lemma erase_filter_run:
  assumes e: "fdir_engine d ob" and i: "\<not> busy ob s"
    and r: "run_state (ixgbe_fdir_erase_perfect_filter_82599 d input soft_id) s = (IXGBE_SUCCESS, s')"
  obtains "filter_id ob (fdir_hash_reg input soft_id) \<notin> tab ob s" "\<not> busy ob s'" "stats ob s' = stats ob s"
  | t where "\<not> busy ob t" "stats ob t = stats ob s" "cur ob t = fdir_hash_reg input soft_id"
      "starts ob IXGBE_FDIRCMD_CMD_REMOVE_FLOW t s'"
proof -
  let ?h = "fdir_hash_reg input soft_id"
  let ?q = "snd (dev_read d IXGBE_STATUS (dev_write d IXGBE_FDIRHASH ?h s))"
  let ?t = "dev_write d IXGBE_FDIRCMD IXGBE_FDIRCMD_CMD_QUERY_REM_FILT ?q"
  obtain rv c t' where q: "run_state (ixgbe_fdir_check_cmd_complete d) ?t = ((rv, c), t')" by (metis surj_pair)
  let ?p = "snd (dev_read d IXGBE_STATUS (dev_write d IXGBE_FDIRHASH ?h t'))"
  have run: "(IXGBE_SUCCESS, s') = (if rv \<noteq> IXGBE_SUCCESS then (rv, t')
      else if c AND IXGBE_FDIRCMD_FILTER_VALID \<noteq> 0 then (IXGBE_SUCCESS, dev_write d IXGBE_FDIRCMD IXGBE_FDIRCMD_CMD_REMOVE_FLOW ?p)
      else (IXGBE_SUCCESS, t'))"
    unfolding r [symmetric] ixgbe_fdir_erase_perfect_filter_82599_def IXGBE_WRITE_FLUSH_def Let_def
    using q by (simp add: case_prod_beta)
  then have [simp]: "rv = IXGBE_SUCCESS" by (auto split: if_splits)
  note l = engine_idle [OF e] fdir_engineD(2,5) [OF e]
  have 1: "\<not> busy ob ?q" "stats ob ?q = stats ob s" "cur ob ?q = ?h" using i by (simp_all add: l)
  have 2: "starts ob IXGBE_FDIRCMD_CMD_QUERY_REM_FILT ?q ?t" by (rule fdir_engineD(6) [OF e 1(1)]) simp
  note k = check_cmd_settles [OF e q, simplified]
  from starts_settles [OF 2 k(1,3)] 1
  have 3: "last_cmd ob t' = (IXGBE_FDIRCMD_CMD_QUERY_REM_FILT, filter_id ob ?h)" "stats ob t' = stats ob s"
    by (simp_all add: outcome_query)
  have 4: "(c AND IXGBE_FDIRCMD_FILTER_VALID \<noteq> 0) = (filter_id ob ?h \<in> tab ob s)"
    using k(4) 3 by (simp add: stats_def)
  show ?thesis
  proof (cases "filter_id ob ?h \<in> tab ob s")
    case True
    then have s': "s' = dev_write d IXGBE_FDIRCMD IXGBE_FDIRCMD_CMD_REMOVE_FLOW ?p" using run 4 by simp
    have 5: "\<not> busy ob ?p" "stats ob ?p = stats ob s" "cur ob ?p = ?h" using k(3) 3(2) by (simp_all add: l)
    show ?thesis using that(2) [OF 5] fdir_engineD(6) [OF e 5(1)] s' by simp
  next
    case False
    then show ?thesis using that(1) run 4 k(3) 3(2) by simp
  qed
qed

lemma erase_filter_table:
  assumes e: "fdir_engine d ob" and i: "\<not> busy ob s"
    and r: "run_state (ixgbe_fdir_erase_perfect_filter_82599 d input soft_id) s = (IXGBE_SUCCESS, s')"
    and q: "settles ob s' u"
  shows "j \<noteq> filter_id ob (fdir_hash_reg input soft_id) \<Longrightarrow> (j \<in> tab ob u) = (j \<in> tab ob s)"
    "\<not> busy ob u \<Longrightarrow> filter_id ob (fdir_hash_reg input soft_id) \<notin> tab ob u \<or> failed_removes ob u = Suc (failed_removes ob s)"
proof -
  let ?k = "filter_id ob (fdir_hash_reg input soft_id)"
  have "(j \<noteq> ?k \<longrightarrow> (j \<in> tab ob u) = (j \<in> tab ob s)) \<and>
    (\<not> busy ob u \<longrightarrow> ?k \<notin> tab ob u \<or> failed_removes ob u = Suc (failed_removes ob s))"
  proof (rule erase_filter_run [OF e i r])
    assume a: "?k \<notin> tab ob s" "\<not> busy ob s'" "stats ob s' = stats ob s"
    then show ?thesis using settles_idle [OF q a(2)] by (simp add: stats_def)
  next
    fix t assume t: "\<not> busy ob t" "stats ob t = stats ob s" "cur ob t = fdir_hash_reg input soft_id"
      "starts ob IXGBE_FDIRCMD_CMD_REMOVE_FLOW t s'"
    then show ?thesis
      using starts_settles_others [OF t(4) q] starts_settles [OF t(4) q] by (auto simp: stats_def)
  qed
  then show "j \<noteq> ?k \<Longrightarrow> (j \<in> tab ob u) = (j \<in> tab ob s)"
    "\<not> busy ob u \<Longrightarrow> ?k \<notin> tab ob u \<or> failed_removes ob u = Suc (failed_removes ob s)" by blast+
qed

lemma fdir_hash_reg_fields:
  "ucast (fdir_hash_reg input soft_id) = bkt_hash input" "ucast (drop_bit 16 (fdir_hash_reg input soft_id)) = soft_id"
  unfolding fdir_hash_reg_def by (rule bit_word_eqI; auto simp: bit_simps bit_u16_out)+

lemma filter_cmd_drop:
  "fdir_filter_cmd input queue AND IXGBE_FDIRCMD_DROP \<noteq> 0 \<longleftrightarrow>
     queue = IXGBE_FDIR_DROP_QUEUE \<or> flow_type input AND IXGBE_ATR_L4TYPE_TUNNEL_MASK \<noteq> 0"
proof -
  have d: "IXGBE_FDIRCMD_DROP = BIT 9" by (simp add: BIT_def)
  have "(flow_type input AND IXGBE_ATR_L4TYPE_TUNNEL_MASK \<noteq> 0) = bit (flow_type input) 4"
  proof -
    have "IXGBE_ATR_L4TYPE_TUNNEL_MASK = push_bit 4 1" by simp
    then show ?thesis by (simp only: bit_iff_and_push_bit_not_eq_0)
  qed
  moreover have "bit (fdir_filter_cmd input queue) 9 = (queue = IXGBE_FDIR_DROP_QUEUE \<or> bit (flow_type input) 4)"
    by (simp add: fdir_filter_cmd_def Let_def bit_split bit_ucast_iff)
  ultimately show ?thesis unfolding d by (simp add: and_BIT_eq_0)
qed

section \<open>Properties\<close>

text \<open>
  C25. The signature hash is the pair of the two one-key hashes, 15 bits each: computing both keys in
  one pass over the bits they share, with the signature part kept in the upper half, gives the
  same as hashing with the signature key and with the bucket key separately.
\<close>

theorem sig_hash_is_two_hashes:
  "ixgbe_atr_compute_sig_hash_82599 input common =
     push_bit 16 (atr_hash IXGBE_ATR_SIGNATURE_HASH_KEY (IXGBE_NTOHL input) (IXGBE_NTOHL common) AND 0x7FFF) OR
     (atr_hash IXGBE_ATR_BUCKET_HASH_KEY (IXGBE_NTOHL input) (IXGBE_NTOHL common) AND 0x7FFF)"
  by (rule sig_hash_pair)

text \<open>
  C26. The perfect hash masks every field of the input, puts the filter in the bucket that the signature
  hash of the masked fields gives, and is stable: with no hash bits in the mask, computing it again
  changes nothing.
\<close>

theorem perfect_hash_correct:
  assumes "length input = 14" "bkt_hash m = 0"
  shows "let r = ixgbe_atr_compute_perfect_hash_82599 input m; t = atr_mask_input input m in
    length r = 14 \<and> (\<forall>j < 13. r ! j = input ! j AND m ! j) \<and> flex_bytes r = flex_bytes input AND flex_bytes m \<and>
    bkt_hash r = ucast (ixgbe_atr_compute_sig_hash_82599 (t ! 0) (xor_dwords t) AND 0x1FFF) \<and>
    ixgbe_atr_compute_perfect_hash_82599 r m = r"
  using perfect_hash_fields [OF assms(1), where m = m] perfect_hash_again [OF assms] by (simp add: Let_def)

text \<open>A TCP flow to port 80, matched on everything but the pool and the flexible bytes.\<close>

definition atr_example :: ixgbe_atr_input where
  "atr_example = [0x00000200, 0x0100A8C0, 0, 0, 0, 0x0200A8C0, 0, 0, 0, 0, 0, 0, 0x50003412, 0]"

definition atr_example_mask :: ixgbe_atr_input where
  "atr_example_mask = [0xFF0F0300, 0xFFFFFFFF, 0, 0, 0, 0xFFFFFFFF, 0, 0, 0, 0, 0, 0, 0xFFFFFFFF, 0]"

theorem perfect_hash_correct_witness:
  "let r = ixgbe_atr_compute_perfect_hash_82599 atr_example atr_example_mask in
     length r = 14 \<and> r ! 1 = 0x0100A8C0 \<and> ixgbe_atr_compute_perfect_hash_82599 r atr_example_mask = r"
  using perfect_hash_correct [of atr_example atr_example_mask]
  by (simp add: Let_def atr_example_def [THEN arg_cong, of length] atr_example_mask_def [THEN arg_cong, of bkt_hash] bkt_hash_def)
     (simp add: atr_example_def atr_example_mask_def)

text \<open>
  C39. The port mask register holds both ports with their bits in reverse order: bit \<open>i\<close> of the source
  port mask goes to bit \<open>15 - i\<close> of the lower half, and of the destination port mask to that bit of
  the upper half.
\<close>

theorem fdirtcpm_reverses_ports:
  assumes "i < 16"
  shows "bit (ixgbe_get_fdirtcpm_82599 m) i = bit (IXGBE_NTOHS (src_port m)) (15 - i) \<and>
    bit (ixgbe_get_fdirtcpm_82599 m) (i + 16) = bit (IXGBE_NTOHS (dst_port m)) (15 - i)"
proof -
  have "\<forall>i < 16. bit (ixgbe_get_fdirtcpm_82599 m) i = bit (IXGBE_NTOHS (src_port m)) (15 - i) \<and>
    bit (ixgbe_get_fdirtcpm_82599 m) (i + 16) = bit (IXGBE_NTOHS (dst_port m)) (15 - i)"
    unfolding all_less_16 by (simp add: fdirtcpm_flip flip_def bit_or_iff bit_push_bit_iff bit_ucast_iff bit_u16_out)
      (simp add: numeral_eq_Suc)
  with assms show ?thesis by blast
qed

theorem fdirtcpm_reverses_ports_witness:
  "bit (ixgbe_get_fdirtcpm_82599 (replicate 12 0 @ [0x80000000, 0])) 24"
  using fdirtcpm_reverses_ports [of 8 "replicate 12 0 @ [0x80000000, 0]"]
  by (simp add: dst_port_def nth_append IXGBE_NTOHS_def)

text \<open>
  C27. Programming the input mask succeeds exactly for the masks that the hardware can express, and
  then every mask register holds the inverse of its field, with the fields that are ignored as a
  whole in \<open>FDIRM\<close>; a mask that cannot be expressed is refused before any register changes.  In cloud
  mode the tunnel fields must be expressible too; then \<open>FDIRIP6M\<close> tells which of them are ignored, the
  L3 protocol is ignored and the masks of ports and addresses are all ones.
\<close>

theorem set_input_mask_correct:
  assumes "cfg_regs d mask_regs val" "run_state (ixgbe_fdir_set_input_mask_82599 d t m cloud) s = (st, s')"
  shows "if fdir_mask_ok m \<and> (cloud \<longrightarrow> fdir_cloud_mask_ok m)
    then st = IXGBE_SUCCESS \<and> mask_regs_spec t m cloud (val s) (val s')
    else st = IXGBE_ERR_CONFIG \<and> s' = s"
  using set_input_mask_effect [OF assms] by simp

text \<open>
  A device for the examples: registers that hold their value, and an engine with room for one filter
  that completes its command at the first read of \<open>FDIRCMD\<close>.
\<close>

record fdir_ex =
  ex_regs :: "reg \<Rightarrow> u32"
  ex_tab :: "u32 list"
  ex_last :: "u32 \<times> u32"
  ex_busy :: bool
  ex_fadd :: nat

definition fdir_ex_complete :: "fdir_ex \<Rightarrow> fdir_ex" where
  "fdir_ex_complete s = (let (c, k) = ex_last s; s = s\<lparr>ex_busy := False\<rparr> in
     if c = IXGBE_FDIRCMD_CMD_ADD_FLOW then if ex_tab s = [] \<or> ex_tab s = [k] then s\<lparr>ex_tab := [k]\<rparr> else s\<lparr>ex_fadd := Suc (ex_fadd s)\<rparr>
     else if c = IXGBE_FDIRCMD_CMD_REMOVE_FLOW then s\<lparr>ex_tab := removeAll k (ex_tab s)\<rparr> else s)"

definition fdir_ex_dev :: "fdir_ex device" where
  "fdir_ex_dev =
     \<lparr>dev_read = \<lambda>r s. if r = IXGBE_FDIRCMD
        then let s' = (if ex_busy s then fdir_ex_complete s else s)
             in (if snd (ex_last s') \<in> set (ex_tab s') then 4 else 0, s')
        else (ex_regs s r, s),
      dev_write = \<lambda>r x s. if r = IXGBE_FDIRCMD
        then s\<lparr>ex_last := (x AND IXGBE_FDIRCMD_CMD_MASK, ex_regs s IXGBE_FDIRHASH), ex_busy := True\<rparr>
        else s\<lparr>ex_regs := (ex_regs s)(r := x)\<rparr>\<rparr>"

definition fdir_ex_obs :: "(fdir_ex, u32) fdir_obs" where
  "fdir_ex_obs = \<lparr>filter_id = (\<lambda>x. x), tab = (\<lambda>s. set (ex_tab s)), cur = (\<lambda>s. ex_regs s IXGBE_FDIRHASH), last_cmd = ex_last,
     busy = ex_busy, failed_adds = ex_fadd, failed_removes = (\<lambda>_. 0)\<rparr>"

definition fdir_ex0 :: fdir_ex where
  "fdir_ex0 = \<lparr>ex_regs = \<lambda>_. 0, ex_tab = [], ex_last = (0, 0), ex_busy = False, ex_fadd = 0\<rparr>"

lemma fdir_ex_complete_settles: "ex_busy s \<Longrightarrow> settles fdir_ex_obs s (fdir_ex_complete s)"
  by (cases "ex_last s") (auto simp: settles_def stats_def fdir_ex_obs_def fdir_ex_complete_def Let_def)

lemma fdir_ex_complete_fields [simp]:
  "\<not> ex_busy (fdir_ex_complete s)" "ex_regs (fdir_ex_complete s) = ex_regs s" "ex_last (fdir_ex_complete s) = ex_last s"
  by (cases "ex_last s"; simp add: fdir_ex_complete_def Let_def)+

lemma fdir_ex_engine: "fdir_engine fdir_ex_dev fdir_ex_obs"
proof -
  have r: "settles fdir_ex_obs s (snd (dev_read fdir_ex_dev r s))" for r s
    by (simp add: fdir_ex_dev_def Let_def fdir_ex_complete_settles settles_refl)
  have w: "r \<noteq> IXGBE_FDIRCMD \<Longrightarrow> settles fdir_ex_obs s (dev_write fdir_ex_dev r x s)" for r x s
    by (simp add: fdir_ex_dev_def settles_def stats_def fdir_ex_obs_def)
  have c: "cur fdir_ex_obs (snd (dev_read fdir_ex_dev r s)) = cur fdir_ex_obs s" for r s
    by (simp add: fdir_ex_dev_def fdir_ex_obs_def Let_def)
  have b: "starts fdir_ex_obs x s (dev_write fdir_ex_dev IXGBE_FDIRCMD x s)" for x s
    by (simp add: fdir_ex_dev_def fdir_ex_obs_def starts_def stats_def)
  have v: "\<not> busy fdir_ex_obs s' \<and> (v AND IXGBE_FDIRCMD_FILTER_VALID \<noteq> 0) = (snd (last_cmd fdir_ex_obs s') \<in> tab fdir_ex_obs s')"
    if "dev_read fdir_ex_dev IXGBE_FDIRCMD s = (v, s')" for s v s'
    using that by (auto simp: fdir_ex_dev_def fdir_ex_obs_def Let_def split: if_splits)
  have h: "cur fdir_ex_obs (dev_write fdir_ex_dev r x s) =
      (if r = IXGBE_FDIRHASH then x else cur fdir_ex_obs s)" for r x s
    by (simp add: fdir_ex_dev_def fdir_ex_obs_def)
  show ?thesis
    unfolding fdir_engine_def h
    by (intro conjI allI impI r w c b v [THEN conjunct1] v [THEN conjunct2]) simp_all
qed

lemma fdir_ex_cfg: "cfg_regs fdir_ex_dev mask_regs ex_regs"
  by (auto simp: cfg_regs_def fdir_ex_dev_def mask_regs_def Let_def)

lemma atr_example_mask_ok: "fdir_mask_ok atr_example_mask" "fdir_cloud_mask_ok atr_example_mask"
  by (simp_all add: fdir_mask_ok_def fdir_cloud_mask_ok_def atr_example_mask_def vm_pool_def flow_type_def vlan_id_def
    flex_bytes_def inner_mac_def tni_vni_def tunnel_type_def IXGBE_NTOHS_def)

theorem set_input_mask_correct_witness:
  "\<exists>s' c'. run_state (ixgbe_fdir_set_input_mask_82599 fdir_ex_dev ixgbe_mac_82599EB atr_example_mask False) fdir_ex0 = (IXGBE_SUCCESS, s') \<and>
     ex_regs s' IXGBE_FDIRM = IXGBE_FDIRM_POOL OR IXGBE_FDIRM_VLANP OR IXGBE_FDIRM_FLEX OR IXGBE_FDIRM_DIPv6 \<and>
     run_state (ixgbe_fdir_set_input_mask_82599 fdir_ex_dev ixgbe_mac_X550 atr_example_mask True) fdir_ex0 = (IXGBE_SUCCESS, c') \<and>
     ex_regs c' IXGBE_FDIRSCTPM = 0xFFFFFFFF"
proof -
  obtain st s' where r: "run_state (ixgbe_fdir_set_input_mask_82599 fdir_ex_dev ixgbe_mac_82599EB atr_example_mask False) fdir_ex0 = (st, s')"
    by (rule prod.exhaust)
  obtain ct c' where c: "run_state (ixgbe_fdir_set_input_mask_82599 fdir_ex_dev ixgbe_mac_X550 atr_example_mask True) fdir_ex0 = (ct, c')"
    by (rule prod.exhaust)
  have "fdirm_spec atr_example_mask = IXGBE_FDIRM_POOL OR IXGBE_FDIRM_VLANP OR IXGBE_FDIRM_FLEX OR IXGBE_FDIRM_DIPv6"
    by (simp add: fdirm_spec_def atr_example_mask_def vm_pool_def flow_type_def vlan_id_def flex_bytes_def IXGBE_NTOHS_def)
  then show ?thesis
    using set_input_mask_correct [OF fdir_ex_cfg r] set_input_mask_correct [OF fdir_ex_cfg c] r c atr_example_mask_ok
    by (auto simp: mask_regs_spec_def fdir_sctp_mac_def Let_def)
qed

text \<open>
  C8. From an idle engine, when adding a perfect filter reports success the filter is in the hardware's
  table under its bucket and software index, unless the engine counted a failed addition; when erasing
  it afterwards reports success, then once the engine reports completion the filter is gone, unless
  the engine counted a failed removal.  No other filter appears or disappears on the way.  The flow
  type has bit 3 clear, as all flow types of the driver have.
\<close>

theorem perfect_filter_add_erase:
  assumes "fdir_engine d ob" "\<not> busy ob s" "\<not> bit (flow_type input) 3"
    and "run_state (ixgbe_fdir_write_perfect_filter_82599 d input soft_id queue cloud) s = (IXGBE_SUCCESS, s1)"
    and "run_state (ixgbe_fdir_erase_perfect_filter_82599 d input soft_id) s1 = (IXGBE_SUCCESS, s2)"
    and "run_state (ixgbe_fdir_check_cmd_complete d) s2 = ((IXGBE_SUCCESS, c), s3)"
    and "k = filter_id ob (fdir_hash_reg input soft_id)"
  shows "(k \<in> tab ob s1 \<or> failed_adds ob s1 = Suc (failed_adds ob s)) \<and>
    (k \<notin> tab ob s3 \<or> failed_removes ob s3 = Suc (failed_removes ob s1)) \<and>
    (\<forall>j. j \<noteq> k \<longrightarrow> (j \<in> tab ob s1) = (j \<in> tab ob s) \<and> (j \<in> tab ob s2) = (j \<in> tab ob s) \<and>
       (j \<in> tab ob s3) = (j \<in> tab ob s))"
proof -
  note w = write_filter_table [OF assms(1-4), folded assms(7)]
  have i: "\<not> busy ob s1" using w(2) by simp
  note q = check_cmd_settles [OF assms(1,6)]
  note e2 = erase_filter_table [OF assms(1) i assms(5) settles_refl, folded assms(7)]
  note e3 = erase_filter_table [OF assms(1) i assms(5) q(1), folded assms(7)]
  have "k \<in> tab ob s1 \<or> failed_adds ob s1 = Suc (failed_adds ob s)" using w(2) by (auto simp: stats_def)
  with w(1) e2(1) e3 q(3) show ?thesis by blast
qed

lemma fdir_ex_check: "run_state (ixgbe_fdir_check_cmd_complete fdir_ex_dev) s =
    ((IXGBE_SUCCESS, fst (dev_read fdir_ex_dev IXGBE_FDIRCMD s)), snd (dev_read fdir_ex_dev IXGBE_FDIRCMD s))"
  by (simp add: ixgbe_fdir_check_cmd_complete_def numeral_eq_Suc) (simp add: fdir_ex_dev_def Let_def)

theorem perfect_filter_add_erase_witness:
  "\<exists>s1 s2 c s3. run_state (ixgbe_fdir_write_perfect_filter_82599 fdir_ex_dev atr_example 5 2 False) fdir_ex0 = (IXGBE_SUCCESS, s1) \<and>
     (fdir_hash_reg atr_example 5 \<in> set (ex_tab s1) \<or> ex_fadd s1 = 1) \<and>
     run_state (ixgbe_fdir_erase_perfect_filter_82599 fdir_ex_dev atr_example 5) s1 = (IXGBE_SUCCESS, s2) \<and>
     run_state (ixgbe_fdir_check_cmd_complete fdir_ex_dev) s2 = ((IXGBE_SUCCESS, c), s3) \<and>
     fdir_hash_reg atr_example 5 \<notin> set (ex_tab s3)"
proof -
  have "fst (run_state (ixgbe_fdir_write_perfect_filter_82599 fdir_ex_dev atr_example 5 2 False) fdir_ex0) = IXGBE_SUCCESS"
    by (simp add: ixgbe_fdir_write_perfect_filter_82599_def IXGBE_WRITE_FLUSH_def Let_def case_prod_beta fdir_ex_check)
  then obtain s1 where w: "run_state (ixgbe_fdir_write_perfect_filter_82599 fdir_ex_dev atr_example 5 2 False) fdir_ex0 = (IXGBE_SUCCESS, s1)"
    by (metis prod.collapse)
  have "fst (run_state (ixgbe_fdir_erase_perfect_filter_82599 fdir_ex_dev atr_example 5) s1) = IXGBE_SUCCESS"
    by (simp add: ixgbe_fdir_erase_perfect_filter_82599_def IXGBE_WRITE_FLUSH_def Let_def case_prod_beta fdir_ex_check)
  then obtain s2 where e: "run_state (ixgbe_fdir_erase_perfect_filter_82599 fdir_ex_dev atr_example 5) s1 = (IXGBE_SUCCESS, s2)"
    by (metis prod.collapse)
  have i: "\<not> busy fdir_ex_obs fdir_ex0" by (simp add: fdir_ex_obs_def fdir_ex0_def)
  have f: "\<not> bit (flow_type atr_example) 3" by (simp add: atr_example_def flow_type_def)
  show ?thesis
    using perfect_filter_add_erase [OF fdir_ex_engine i f w e fdir_ex_check refl] w e fdir_ex_check [of s2]
    by (auto simp: fdir_ex_obs_def fdir_ex0_def)
qed

text \<open>
  C34. A perfect filter is added with the drop action not only when the queue is the drop queue but
  also for every tunneled flow type, because the tunnel bit of the flow type is shifted onto the
  drop bit of the command.
\<close>

theorem perfect_filter_drop_action:
  "fdir_filter_cmd input queue AND IXGBE_FDIRCMD_DROP = 0 \<longleftrightarrow>
     queue \<noteq> IXGBE_FDIR_DROP_QUEUE \<and> flow_type input AND IXGBE_ATR_L4TYPE_TUNNEL_MASK = 0"
  using filter_cmd_drop [of input queue] by blast

end
