(* ===== verification/Ixgbe_Dcb.thy ===== *)
theory Ixgbe_Dcb
  imports Ixgbe_Hw
begin

text \<open>
  Data center bridging configuration (\<open>ixgbe_dcb.c\<close>): the rules a configuration must satisfy, the
  credits of the traffic classes, and the unpacking of a configuration into the arrays that the
  hardware routines take.  \<open>u8\<close> and \<open>u16\<close> fields keep their width; the products of the credit
  calculation are 32 bits wide as in the source.
\<close>

unbundle bit_operations_syntax

section \<open>Data\<close>

abbreviation IXGBE_DCB_CREDIT_QUANTUM :: int where "IXGBE_DCB_CREDIT_QUANTUM \<equiv> 64"
abbreviation IXGBE_DCB_MAX_CREDIT_REFILL :: int where "IXGBE_DCB_MAX_CREDIT_REFILL \<equiv> 511"
abbreviation IXGBE_DCB_MAX_CREDIT :: int where "IXGBE_DCB_MAX_CREDIT \<equiv> 4095"
abbreviation IXGBE_DCB_MIN_TSO_CREDIT :: u32 where "IXGBE_DCB_MIN_TSO_CREDIT \<equiv> 513"
abbreviation IXGBE_DCB_MAX_USER_PRIORITY :: nat where "IXGBE_DCB_MAX_USER_PRIORITY \<equiv> 8"
abbreviation IXGBE_DCB_MAX_BW_GROUP :: nat where "IXGBE_DCB_MAX_BW_GROUP \<equiv> 8"
abbreviation DCB_MAX_TC :: nat where "DCB_MAX_TC \<equiv> 8"
abbreviation IXGBE_DCB_BW_PERCENT :: u8 where "IXGBE_DCB_BW_PERCENT \<equiv> 100"
abbreviation IXGBE_DCB_TX_CONFIG :: nat where "IXGBE_DCB_TX_CONFIG \<equiv> 0"
abbreviation IXGBE_DCB_RX_CONFIG :: nat where "IXGBE_DCB_RX_CONFIG \<equiv> 1"

datatype ixgbe_dcb_tsa = ixgbe_dcb_tsa_ets | ixgbe_dcb_tsa_group_strict_cee | ixgbe_dcb_tsa_strict

datatype ixgbe_dcb_pfc =
  ixgbe_dcb_pfc_disabled | ixgbe_dcb_pfc_enabled | ixgbe_dcb_pfc_enabled_txonly | ixgbe_dcb_pfc_enabled_rxonly

record ixgbe_dcb_tc_path =
  bwg_id :: u8
  bwg_percent :: u8
  link_percent :: u8
  up_to_tc_bitmap :: u8
  data_credits_refill :: u16
  data_credits_max :: u16
  tsa :: ixgbe_dcb_tsa

record ixgbe_dcb_tc_config =
  path :: "ixgbe_dcb_tc_path list"
  pfc :: ixgbe_dcb_pfc
  desc_credits_max :: u16

text \<open>The fields that the modelled code reads or writes; both arrays over directions have two entries.\<close>

record ixgbe_dcb_config =
  tc_config :: "ixgbe_dcb_tc_config list"
  pg_tcs :: u8
  bw_percentage :: "u8 list list"
  pfc_mode_enable :: bool
  vt_mode :: bool

section \<open>Credits\<close>

text \<open>Division of C on \<open>int\<close> by a positive divisor truncates towards zero.\<close>

definition cdiv :: "int \<Rightarrow> int \<Rightarrow> int" where
  "cdiv a b = (if a < 0 then - ((- a) div b) else a div b)"

definition dcb_min_credit :: "int \<Rightarrow> int" where
  "dcb_min_credit max_frame_size =
     cdiv (cdiv max_frame_size 2 + IXGBE_DCB_CREDIT_QUANTUM - 1) IXGBE_DCB_CREDIT_QUANTUM"

definition dcb_min_percent :: "u8 list \<Rightarrow> int" where
  "dcb_min_percent bw =
     for_upto 0 DCB_MAX_TC (\<lambda>i m. if uint (bw ! i) < m \<and> bw ! i \<noteq> 0 then uint (bw ! i) else m) 100"

definition dcb_refill :: "int \<Rightarrow> int \<Rightarrow> u8 \<Rightarrow> u16" where
  "dcb_refill min_credit multiplier b =
     (let val = min (uint b * multiplier) IXGBE_DCB_MAX_CREDIT_REFILL
      in word_of_int (if val < min_credit then min_credit else val))"

definition ixgbe_dcb_calculate_tc_credits :: "u8 list \<Rightarrow> int \<Rightarrow> u16 list \<times> u16 list" where
  "ixgbe_dcb_calculate_tc_credits bw max_frame_size =
     (let min_credit = dcb_min_credit max_frame_size;
          multiplier = cdiv min_credit (dcb_min_percent bw) + 1
      in (map (\<lambda>i. dcb_refill min_credit multiplier (bw ! i)) [0..<DCB_MAX_TC],
          map (\<lambda>i. word_of_int (if bw ! i \<noteq> 0 then (uint (bw ! i) * IXGBE_DCB_MAX_CREDIT) div 100 else min_credit))
            [0..<DCB_MAX_TC]))"

definition tc_path :: "ixgbe_dcb_config \<Rightarrow> nat \<Rightarrow> nat \<Rightarrow> ixgbe_dcb_tc_path" where
  "tc_path c dir i = path (tc_config c ! i) ! dir"

text \<open>The share of the link of a traffic class before and after the correction for small numbers.\<close>

definition raw_link_percent :: "ixgbe_dcb_config \<Rightarrow> nat \<Rightarrow> nat \<Rightarrow> u16" where
  "raw_link_percent c dir i =
     (let p = tc_path c dir i; bw_percent = bw_percentage c ! dir ! unat (bwg_id p)
      in word_of_int ((uint (bwg_percent p) * uint bw_percent) div 100))"

definition min_percent_cee :: "ixgbe_dcb_config \<Rightarrow> nat \<Rightarrow> u16" where
  "min_percent_cee c dir =
     for_upto 0 DCB_MAX_TC (\<lambda>i m. let l = raw_link_percent c dir i in if l \<noteq> 0 \<and> l < m then l else m) 100"

definition min_credit_cee :: "u32 \<Rightarrow> u32" where
  "min_credit_cee max_frame_size = (max_frame_size div 2 + 64 - 1) div 64"

definition tc_credit_max :: "ixgbe_mac_type \<Rightarrow> nat \<Rightarrow> u32 \<Rightarrow> u16 \<Rightarrow> u32" where
  "tc_credit_max t dir min_credit link_percentage =
     (let credit_max = word_of_int ((uint link_percentage * IXGBE_DCB_MAX_CREDIT) div 100);
          credit_max = (if credit_max < min_credit then min_credit else credit_max)
      in if dir = IXGBE_DCB_TX_CONFIG \<and> credit_max \<noteq> 0 \<and> credit_max < IXGBE_DCB_MIN_TSO_CREDIT \<and> t = ixgbe_mac_82598EB
         then IXGBE_DCB_MIN_TSO_CREDIT else credit_max)"

definition tc_credits :: "ixgbe_mac_type \<Rightarrow> nat \<Rightarrow> u32 \<Rightarrow> u32 \<Rightarrow> nat \<Rightarrow> ixgbe_dcb_config \<Rightarrow> ixgbe_dcb_config" where
  "tc_credits t dir min_credit min_multiplier i c =
     (let p = tc_path c dir i;
          l = raw_link_percent c dir i;
          l = (if bwg_percent p > 0 \<and> l = 0 then 1 else l);
          credit_refill = min (ucast l * min_multiplier) (511 :: u32);
          credit_refill = (if credit_refill < min_credit then min_credit else credit_refill);
          credit_max = tc_credit_max t dir min_credit l;
          p = p\<lparr>link_percent := ucast l, data_credits_refill := ucast credit_refill, data_credits_max := ucast credit_max\<rparr>;
          tc = tc_config c ! i;
          tc = tc\<lparr>path := (path tc)[dir := p]\<rparr>;
          tc = (if dir = IXGBE_DCB_TX_CONFIG then tc\<lparr>desc_credits_max := ucast credit_max\<rparr> else tc)
      in c\<lparr>tc_config := (tc_config c)[i := tc]\<rparr>)"

text \<open>The configuration pointer of the source may be \<open>NULL\<close>.\<close>

definition ixgbe_dcb_calculate_tc_credits_cee ::
  "ixgbe_mac_type \<Rightarrow> ixgbe_dcb_config option \<Rightarrow> u32 \<Rightarrow> nat \<Rightarrow> ixgbe_status \<times> ixgbe_dcb_config option" where
  "ixgbe_dcb_calculate_tc_credits_cee t dcb_config max_frame_size dir =
     (case dcb_config of None \<Rightarrow> (IXGBE_ERR_CONFIG, None)
      | Some c \<Rightarrow>
        let min_credit = min_credit_cee max_frame_size;
            min_multiplier = min_credit div ucast (min_percent_cee c dir) + 1
        in (IXGBE_SUCCESS, Some (for_upto 0 DCB_MAX_TC (tc_credits t dir min_credit min_multiplier) c)))"

section \<open>Unpacking\<close>

definition ixgbe_dcb_unpack_pfc_cee :: "ixgbe_dcb_config \<Rightarrow> u8 list \<Rightarrow> u8" where
  "ixgbe_dcb_unpack_pfc_cee c mp =
     for_upto 0 IXGBE_DCB_MAX_USER_PRIORITY
       (\<lambda>up v. if pfc (tc_config c ! unat (mp ! up)) \<noteq> ixgbe_dcb_pfc_disabled then v OR push_bit up 1 else v) 0"

definition ixgbe_dcb_unpack_refill_cee :: "ixgbe_dcb_config \<Rightarrow> nat \<Rightarrow> u16 list" where
  "ixgbe_dcb_unpack_refill_cee c dir = map (\<lambda>tc. data_credits_refill (tc_path c dir tc)) [0..<DCB_MAX_TC]"

definition ixgbe_dcb_unpack_max_cee :: "ixgbe_dcb_config \<Rightarrow> u16 list" where
  "ixgbe_dcb_unpack_max_cee c = map (\<lambda>tc. desc_credits_max (tc_config c ! tc)) [0..<DCB_MAX_TC]"

definition ixgbe_dcb_unpack_bwgid_cee :: "ixgbe_dcb_config \<Rightarrow> nat \<Rightarrow> u8 list" where
  "ixgbe_dcb_unpack_bwgid_cee c dir = map (\<lambda>tc. bwg_id (tc_path c dir tc)) [0..<DCB_MAX_TC]"

definition ixgbe_dcb_unpack_tsa_cee :: "ixgbe_dcb_config \<Rightarrow> nat \<Rightarrow> ixgbe_dcb_tsa list" where
  "ixgbe_dcb_unpack_tsa_cee c dir = map (\<lambda>tc. tsa (tc_path c dir tc)) [0..<DCB_MAX_TC]"

text \<open>The loop that counts \<open>tc\<close> down to 0; the argument is the current value.\<close>

fun tc_search :: "ixgbe_dcb_config \<Rightarrow> nat \<Rightarrow> nat \<Rightarrow> nat \<Rightarrow> nat" where
  "tc_search c dir up 0 = 0"
| "tc_search c dir up (Suc tc) =
     (if push_bit up 1 AND up_to_tc_bitmap (tc_path c dir (Suc tc)) \<noteq> 0 then Suc tc else tc_search c dir up tc)"

definition ixgbe_dcb_get_tc_from_up :: "ixgbe_dcb_config \<Rightarrow> nat \<Rightarrow> nat \<Rightarrow> u8" where
  "ixgbe_dcb_get_tc_from_up c dir up =
     (if pg_tcs c = 0 then 0 else of_nat (tc_search c dir up (unat (pg_tcs c) - 1)))"

definition ixgbe_dcb_unpack_map_cee :: "ixgbe_dcb_config \<Rightarrow> nat \<Rightarrow> u8 list" where
  "ixgbe_dcb_unpack_map_cee c dir = map (ixgbe_dcb_get_tc_from_up c dir) [0..<IXGBE_DCB_MAX_USER_PRIORITY]"

section \<open>Rules\<close>

text \<open>
  One direction of the check keeps a sum and a strictness flag per bandwidth group; \<open>None\<close> is the
  jump to \<open>err_config\<close>.
\<close>

definition check_tc :: "ixgbe_dcb_tc_path \<Rightarrow> u8 list \<times> bool list \<Rightarrow> (u8 list \<times> bool list) option" where
  "check_tc p st = (case st of (bw_sum, link_strict) \<Rightarrow>
     let bw = bwg_percent p; bw_id = unat (bwg_id p) in
     if bw_id \<ge> IXGBE_DCB_MAX_BW_GROUP then None
     else if tsa p = ixgbe_dcb_tsa_strict then
       (if bw \<noteq> 0 then None else Some (bw_sum[bw_id := bw_sum ! bw_id + bw], link_strict[bw_id := True]))
     else if bw = 0 then None
     else Some (bw_sum[bw_id := bw_sum ! bw_id + bw], link_strict))"

fun check_tcs :: "ixgbe_dcb_tc_path list \<Rightarrow> u8 list \<times> bool list \<Rightarrow> (u8 list \<times> bool list) option" where
  "check_tcs [] st = Some st"
| "check_tcs (p # ps) st = (case check_tc p st of None \<Rightarrow> None | Some st \<Rightarrow> check_tcs ps st)"

definition check_group :: "u8 \<Rightarrow> bool \<Rightarrow> bool" where
  "check_group s strict = (if strict then s = 0 else s = IXGBE_DCB_BW_PERCENT \<or> s = 0)"

fun check_groups :: "(u8 \<times> u8 \<times> bool) list \<Rightarrow> u8 \<Rightarrow> u8 option" where
  "check_groups [] bw = Some bw"
| "check_groups ((pc, s, strict) # gs) bw = (if check_group s strict then check_groups gs (bw + pc) else None)"

definition check_direction :: "ixgbe_dcb_config \<Rightarrow> nat \<Rightarrow> bool" where
  "check_direction c dir =
     (case check_tcs (map (tc_path c dir) [0..<DCB_MAX_TC])
         (replicate IXGBE_DCB_MAX_BW_GROUP 0, replicate IXGBE_DCB_MAX_BW_GROUP False) of
        None \<Rightarrow> False
      | Some (bw_sum, link_strict) \<Rightarrow>
        (case check_groups (map (\<lambda>j. (bw_percentage c ! dir ! j, bw_sum ! j, link_strict ! j))
            [0..<IXGBE_DCB_MAX_BW_GROUP]) 0 of
           None \<Rightarrow> False | Some bw \<Rightarrow> bw = IXGBE_DCB_BW_PERCENT))"

definition ixgbe_dcb_check_config_cee :: "ixgbe_dcb_config \<Rightarrow> ixgbe_status" where
  "ixgbe_dcb_check_config_cee c =
     (if check_direction c 0 \<and> check_direction c 1 then IXGBE_SUCCESS else IXGBE_ERR_CONFIG)"

section \<open>The rules in words\<close>

definition path_ok :: "ixgbe_dcb_tc_path \<Rightarrow> bool" where
  "path_ok p \<longleftrightarrow> unat (bwg_id p) < 8 \<and> (tsa p = ixgbe_dcb_tsa_strict \<longleftrightarrow> bwg_percent p = 0)"

text \<open>Sums of percentages wrap at 256, as the 8-bit sums of the source do.\<close>

definition group_percent :: "ixgbe_dcb_tc_path list \<Rightarrow> nat \<Rightarrow> nat" where
  "group_percent ps g = sum_list (map (unat \<circ> bwg_percent) (filter (\<lambda>p. unat (bwg_id p) = g) ps))"

definition group_strict :: "ixgbe_dcb_tc_path list \<Rightarrow> nat \<Rightarrow> bool" where
  "group_strict ps g \<longleftrightarrow> (\<exists>p \<in> set ps. unat (bwg_id p) = g \<and> tsa p = ixgbe_dcb_tsa_strict)"

definition dcb_rules :: "(nat \<Rightarrow> nat) \<Rightarrow> ixgbe_dcb_config \<Rightarrow> nat \<Rightarrow> bool" where
  "dcb_rules wrap c dir \<longleftrightarrow> (let ps = map (tc_path c dir) [0..<8] in
     (\<forall>p \<in> set ps. path_ok p) \<and>
     (\<forall>g < 8. if group_strict ps g then wrap (group_percent ps g) = 0 else wrap (group_percent ps g) \<in> {0, 100}) \<and>
     wrap (\<Sum>g \<leftarrow> [0..<8]. unat (bw_percentage c ! dir ! g)) = 100)"

lemma unat_sum_list: "unat (sum_list ws) = sum_list (map unat ws) mod 2 ^ LENGTH('a)" for ws :: "'a::len word list"
  by (induction ws) (simp_all add: unat_word_ariths mod_simps)

lemma check_tc_iff:
  assumes "length s = 8" "length b = 8"
  shows "check_tc p (s, b) = (if path_ok p
    then Some (s[unat (bwg_id p) := s ! unat (bwg_id p) + bwg_percent p],
               if tsa p = ixgbe_dcb_tsa_strict then b[unat (bwg_id p) := True] else b) else None)"
  by (auto simp: check_tc_def path_ok_def Let_def)

lemma check_tcs_iff:
  assumes "length s = 8" "length b = 8"
  shows "check_tcs ps (s, b) = (if \<forall>p \<in> set ps. path_ok p
    then Some (map (\<lambda>g. s ! g + sum_list (map bwg_percent (filter (\<lambda>p. unat (bwg_id p) = g) ps))) [0..<8],
               map (\<lambda>g. b ! g \<or> group_strict ps g) [0..<8]) else None)"
  using assms
proof (induction ps arbitrary: s b)
  case Nil
  then show ?case using map_nth [of s] map_nth [of b] by (simp add: group_strict_def)
next
  case (Cons p ps)
  let ?g = "unat (bwg_id p)"
  let ?s = "s[?g := s ! ?g + bwg_percent p]"
  let ?b = "if tsa p = ixgbe_dcb_tsa_strict then b[?g := True] else b"
  show ?case
  proof (cases "path_ok p")
    case True
    then have g: "?g < 8" by (simp add: path_ok_def)
    have 1: "map (\<lambda>g. ?s ! g + sum_list (map bwg_percent (filter (\<lambda>p. unat (bwg_id p) = g) ps))) [0..<8] =
      map (\<lambda>g. s ! g + sum_list (map bwg_percent (filter (\<lambda>p. unat (bwg_id p) = g) (p # ps)))) [0..<8]"
      using Cons.prems g by (auto simp: nth_list_update add.assoc)
    have 2: "map (\<lambda>g. ?b ! g \<or> group_strict ps g) [0..<8] = map (\<lambda>g. b ! g \<or> group_strict (p # ps) g) [0..<8]"
      using Cons.prems g by (auto simp: nth_list_update group_strict_def)
    have "check_tcs (p # ps) (s, b) = check_tcs ps (?s, ?b)"
      using True Cons.prems by (simp add: check_tc_iff)
    also have "\<dots> = (if \<forall>p \<in> set ps. path_ok p then Some (map (\<lambda>g. ?s ! g + sum_list (map bwg_percent (filter (\<lambda>p. unat (bwg_id p) = g) ps))) [0..<8],
       map (\<lambda>g. ?b ! g \<or> group_strict ps g) [0..<8]) else None)"
      using Cons.prems by (intro Cons.IH) simp_all
    also have "\<dots> = (if \<forall>p \<in> set (p # ps). path_ok p then Some (map (\<lambda>g. s ! g + sum_list (map bwg_percent (filter (\<lambda>p. unat (bwg_id p) = g) (p # ps)))) [0..<8],
       map (\<lambda>g. b ! g \<or> group_strict (p # ps) g) [0..<8]) else None)"
      using True unfolding 1 2 by simp
    finally show ?thesis .
  next
    case False
    then show ?thesis using Cons.prems by (simp add: check_tc_iff)
  qed
qed

lemma check_groups_iff:
  "check_groups gs bw = (if \<forall>(pc, s, strict) \<in> set gs. check_group s strict then Some (bw + sum_list (map fst gs)) else None)"
  by (induction gs arbitrary: bw) (auto simp: add.assoc)

lemma word8_eq_iff: "(sum_list ws :: u8) = 0 \<longleftrightarrow> sum_list (map unat ws) mod 256 = 0"
  "(sum_list ws :: u8) = 100 \<longleftrightarrow> sum_list (map unat ws) mod 256 = 100"
  using unat_sum_list [of ws] by (simp_all add: word_unat_eq_iff)

lemma check_direction_iff: "check_direction c dir \<longleftrightarrow> dcb_rules (\<lambda>n. n mod 256) c dir"
proof -
  let ?ps = "map (tc_path c dir) [0..<8]"
  have g: "(\<forall>g < 8. check_group (sum_list (map bwg_percent (filter (\<lambda>p. unat (bwg_id p) = g) ?ps))) (group_strict ?ps g))
    \<longleftrightarrow> (\<forall>g < 8. if group_strict ?ps g then group_percent ?ps g mod 256 = 0 else group_percent ?ps g mod 256 \<in> {0, 100})"
    by (auto simp: check_group_def group_percent_def word8_eq_iff comp_def)
  have s: "sum_list (map ((!) (bw_percentage c ! dir)) [0..<8]) = 100 \<longleftrightarrow>
    (\<Sum>g \<leftarrow> [0..<8]. unat (bw_percentage c ! dir ! g)) mod 256 = 100"
    by (simp only: word8_eq_iff map_map comp_def)
  show ?thesis
    unfolding check_direction_def check_tcs_iff [OF length_replicate length_replicate] dcb_rules_def Let_def
    using g s by (auto simp: check_groups_iff comp_def split: if_splits)
qed

section \<open>Credits of a traffic class\<close>

definition dcb_wf :: "ixgbe_dcb_config \<Rightarrow> bool" where
  "dcb_wf c \<longleftrightarrow> length (tc_config c) = 8 \<and> (\<forall>i < 8. length (path (tc_config c ! i)) = 2) \<and>
     length (bw_percentage c) = 2 \<and> (\<forall>d < 2. length (bw_percentage c ! d) = 8)"

text \<open>What one step computes from the configuration before it.\<close>

definition tc_share :: "ixgbe_dcb_config \<Rightarrow> nat \<Rightarrow> nat \<Rightarrow> u16" where
  "tc_share c dir i = (let l = raw_link_percent c dir i in if bwg_percent (tc_path c dir i) > 0 \<and> l = 0 then 1 else l)"

definition tc_refill :: "u32 \<Rightarrow> u32 \<Rightarrow> u16 \<Rightarrow> u32" where
  "tc_refill min_credit mult l =
     (let r = min (ucast l * mult) (511 :: u32) in if r < min_credit then min_credit else r)"

lemma tc_credits_step:
  assumes "dcb_wf c" "dir < 2" "i < 8"
  shows "dcb_wf (tc_credits t dir mc mm i c)" "bw_percentage (tc_credits t dir mc mm i c) = bw_percentage c"
    and "pg_tcs (tc_credits t dir mc mm i c) = pg_tcs c"
    and "j < 8 \<Longrightarrow> tc_path (tc_credits t dir mc mm i c) dir j =
      (if j = i then (tc_path c dir i)\<lparr>link_percent := ucast (tc_share c dir i),
          data_credits_refill := ucast (tc_refill mc mm (tc_share c dir i)),
          data_credits_max := ucast (tc_credit_max t dir mc (tc_share c dir i))\<rparr> else tc_path c dir j)"
    and "j < 8 \<Longrightarrow> desc_credits_max (tc_config (tc_credits t dir mc mm i c) ! j) =
      (if j = i \<and> dir = IXGBE_DCB_TX_CONFIG then ucast (tc_credit_max t dir mc (tc_share c dir i))
       else desc_credits_max (tc_config c ! j))"
  using assms
  by (auto simp: tc_credits_def tc_share_def tc_refill_def Let_def dcb_wf_def tc_path_def nth_list_update)

lemma raw_link_percent_cong:
  "bw_percentage c' = bw_percentage c \<Longrightarrow> tc_path c' dir i = tc_path c dir i \<Longrightarrow>
   raw_link_percent c' dir i = raw_link_percent c dir i \<and> tc_share c' dir i = tc_share c dir i"
  by (simp add: raw_link_percent_def tc_share_def Let_def)

lemma tc_credits_loop:
  fixes t :: ixgbe_mac_type and mc mm :: u32
  assumes "dcb_wf c" "dir < 2" "n \<le> 8"
  defines "c' \<equiv> for_upto 0 n (tc_credits t dir mc mm) c"
  shows "dcb_wf c' \<and> bw_percentage c' = bw_percentage c \<and> pg_tcs c' = pg_tcs c \<and>
    (\<forall>j < 8. tc_path c' dir j = (if j < n then (tc_path c dir j)\<lparr>link_percent := ucast (tc_share c dir j),
          data_credits_refill := ucast (tc_refill mc mm (tc_share c dir j)),
          data_credits_max := ucast (tc_credit_max t dir mc (tc_share c dir j))\<rparr> else tc_path c dir j) \<and>
      (dir = IXGBE_DCB_TX_CONFIG \<longrightarrow> j < n \<longrightarrow>
         desc_credits_max (tc_config c' ! j) = ucast (tc_credit_max t dir mc (tc_share c dir j))))"
  using assms(3) unfolding c'_def
proof (induction n)
  case 0
  with assms(1) show ?case by simp
next
  case (Suc n)
  let ?c = "for_upto 0 n (tc_credits t dir mc mm) c"
  from Suc have IH: "dcb_wf ?c" "bw_percentage ?c = bw_percentage c" "pg_tcs ?c = pg_tcs c"
    "\<And>j. j < 8 \<Longrightarrow> tc_path ?c dir j = (if j < n then (tc_path c dir j)\<lparr>link_percent := ucast (tc_share c dir j),
          data_credits_refill := ucast (tc_refill mc mm (tc_share c dir j)),
          data_credits_max := ucast (tc_credit_max t dir mc (tc_share c dir j))\<rparr> else tc_path c dir j)"
    "\<And>j. j < 8 \<Longrightarrow> dir = IXGBE_DCB_TX_CONFIG \<Longrightarrow> j < n \<Longrightarrow>
         desc_credits_max (tc_config ?c ! j) = ucast (tc_credit_max t dir mc (tc_share c dir j))"
    by auto
  have n: "n < 8" using Suc.prems by simp
  have sh: "tc_share ?c dir n = tc_share c dir n"
    using raw_link_percent_cong [OF IH(2), of dir n] IH(4) [OF n] by simp
  note st = tc_credits_step [OF IH(1) assms(2) n, where t = t and mc = mc and mm = mm]
  have "for_upto 0 (Suc n) (tc_credits t dir mc mm) c = tc_credits t dir mc mm n ?c" by simp
  then show ?case
    using st IH n sh by (auto simp: less_Suc_eq)
qed

lemma credits_cee:
  assumes "dcb_wf c" "dir < 2" "ixgbe_dcb_calculate_tc_credits_cee t (Some c) f dir = (st, Some c')" "j < 8"
  shows "st = IXGBE_SUCCESS" "dcb_wf c'" "bw_percentage c' = bw_percentage c" "pg_tcs c' = pg_tcs c"
    and "tc_path c' dir j = (tc_path c dir j)\<lparr>link_percent := ucast (tc_share c dir j),
      data_credits_refill := ucast (tc_refill (min_credit_cee f) (min_credit_cee f div ucast (min_percent_cee c dir) + 1) (tc_share c dir j)),
      data_credits_max := ucast (tc_credit_max t dir (min_credit_cee f) (tc_share c dir j))\<rparr>"
    and "dir = IXGBE_DCB_TX_CONFIG \<Longrightarrow>
      desc_credits_max (tc_config c' ! j) = ucast (tc_credit_max t dir (min_credit_cee f) (tc_share c dir j))"
  using tc_credits_loop [OF assms(1,2) order.refl, where t = t and mc = "min_credit_cee f" and mm = "min_credit_cee f div ucast (min_percent_cee c dir) + 1"] assms(3,4)
  by (auto simp: ixgbe_dcb_calculate_tc_credits_cee_def Let_def)

text \<open>Ranges of the parts, for percentages up to 100.\<close>

lemma raw_link_percent_le:
  assumes "bwg_percent (tc_path c dir i) \<le> 100" "bw_percentage c ! dir ! unat (bwg_id (tc_path c dir i)) \<le> 100"
  shows "unat (tc_share c dir i) \<le> 100"
proof -
  let ?a = "uint (bwg_percent (tc_path c dir i))" and ?b = "uint (bw_percentage c ! dir ! unat (bwg_id (tc_path c dir i)))"
  have ab: "?a \<le> 100" "?b \<le> 100" "0 \<le> ?a" "0 \<le> ?b" using assms by (simp_all add: word_le_def)
  then have "?a * ?b \<le> 100 * 100" by (intro mult_mono) simp_all
  then have k: "(?a * ?b) div 100 \<le> 100" "0 \<le> (?a * ?b) div 100" using ab by (simp_all add: pos_imp_zdiv_nonneg_iff)
  then have "uint (raw_link_percent c dir i) \<le> 100"
    unfolding raw_link_percent_def Let_def by (simp add: unsigned_of_int take_bit_int_eq_self)
  then have "raw_link_percent c dir i \<le> 100" by (simp add: word_le_def)
  then have "unat (raw_link_percent c dir i) \<le> 100" by (simp add: word_le_nat_alt)
  then show ?thesis by (simp add: tc_share_def Let_def)
qed

lemma rules_percent:
  assumes "dcb_rules (\<lambda>n. n) c dir" "i < 8"
  shows "bwg_percent (tc_path c dir i) \<le> 100" "bw_percentage c ! dir ! unat (bwg_id (tc_path c dir i)) \<le> 100"
    "unat (bwg_id (tc_path c dir i)) < 8"
proof -
  let ?ps = "map (tc_path c dir) [0..<8]" and ?p = "tc_path c dir i"
  let ?g = "unat (bwg_id ?p)"
  have p: "?p \<in> set ?ps" using assms(2) by simp
  then show g: "?g < 8" using assms(1) by (auto simp: dcb_rules_def Let_def path_ok_def)
  have "unat (bwg_percent ?p) \<in> set (map (unat \<circ> bwg_percent) (filter (\<lambda>p. unat (bwg_id p) = ?g) ?ps))"
    using p by (auto simp: image_iff)
  then have "unat (bwg_percent ?p) \<le> group_percent ?ps ?g"
    unfolding group_percent_def by (rule member_le_sum_list) simp
  moreover have "if group_strict ?ps ?g then group_percent ?ps ?g = 0 else group_percent ?ps ?g \<in> {0, 100}"
    using assms(1) g unfolding dcb_rules_def Let_def by blast
  ultimately show "bwg_percent ?p \<le> 100" by (auto simp: word_le_nat_alt split: if_splits)
  have "unat (bw_percentage c ! dir ! ?g) \<in> set (map (\<lambda>g. unat (bw_percentage c ! dir ! g)) [0..<8])"
    using g by auto
  then have "unat (bw_percentage c ! dir ! ?g) \<le> (\<Sum>g \<leftarrow> [0..<8]. unat (bw_percentage c ! dir ! g))"
    by (rule member_le_sum_list) simp
  then show "bw_percentage c ! dir ! ?g \<le> 100"
    using assms(1) by (simp add: dcb_rules_def Let_def word_le_nat_alt)
qed

lemma min_credit_le: 
  assumes "unat f \<le> 65408"
  shows "min_credit_cee f \<le> 511"
proof -
  have d: "unat (f div 2) \<le> 32704" using assms by (simp add: unat_div)
  then have "unat (f div 2 + 63) = unat (f div 2) + 63"
    by (subst unat_add_lem [THEN iffD1]) simp_all
  then have "unat ((f div 2 + 63) div 64) = (unat (f div 2) + 63) div 64" by (simp add: unat_div)
  then have "unat ((f div 2 + 63) div 64) \<le> unat (511 :: u32)" using d by simp
  moreover have "f div 2 + 64 - 1 = f div 2 + 63" by simp
  ultimately show ?thesis by (simp only: min_credit_cee_def word_le_nat_alt)
qed

lemma tc_refill_range: "mc \<le> 511 \<Longrightarrow> mc \<le> tc_refill mc mm l \<and> tc_refill mc mm l \<le> 511"
  by (auto simp: tc_refill_def Let_def min_def not_less)

lemma tc_credit_max_range:
  assumes "mc \<le> 511" "unat l \<le> 100"
  shows "mc \<le> tc_credit_max t dir mc l \<and> tc_credit_max t dir mc l \<le> 4095"
proof -
  have "l \<le> 100" using assms(2) by (simp add: word_le_nat_alt)
  then have l: "uint l \<le> 100" by (simp add: word_le_def)
  have k: "uint l * 4095 div 100 \<le> 4095" "0 \<le> uint l * 4095 div 100" using l by (simp_all add: pos_imp_zdiv_nonneg_iff)
  then have m: "(word_of_int (uint l * 4095 div 100) :: u32) \<le> 4095"
    by (simp add: word_le_def unsigned_of_int take_bit_int_eq_self)
  have t: "mc \<le> 4095" "mc \<le> (513 :: u32)" using assms(1) by (auto intro: order.trans)
  show ?thesis
    using m t unfolding tc_credit_max_def Let_def by (auto simp: not_less)
qed

lemma ucast_u16_small: "x \<le> 4095 \<Longrightarrow> unat (ucast (x :: u32) :: u16) = unat x"
proof -
  assume "x \<le> 4095"
  then have "unat x \<le> 4095" by (simp add: word_le_nat_alt)
  then show ?thesis by (simp add: unsigned_ucast_eq take_bit_nat_eq_self)
qed

section \<open>Properties\<close>

text \<open>
  C28. The check accepts a configuration exactly when both directions satisfy the rules: every traffic
  class is in one of the eight groups and has no bandwidth exactly when it is link strict, the
  classes of a group sum to 100 or to 0, to 0 when one of them is strict, and the groups sum to 100,
  where all sums are taken modulo 256.
\<close>

theorem check_config_cee_rules:
  "ixgbe_dcb_check_config_cee c =
     (if dcb_rules (\<lambda>n. n mod 256) c 0 \<and> dcb_rules (\<lambda>n. n mod 256) c 1 then IXGBE_SUCCESS else IXGBE_ERR_CONFIG)"
  by (simp add: ixgbe_dcb_check_config_cee_def check_direction_iff)

text \<open>
  C29. For a configuration that satisfies the rules without wrapping and frames of at most 65408 bytes,
  every traffic class gets refill credits between the minimum that half a frame needs and the
  hardware maximum 511, and maximum credits between that minimum and 4095, so that all of them fit
  their register fields; its share of the link is at most 100 percent.
\<close>

theorem tc_credits_cee_bounds:
  assumes "dcb_wf c" "dir < 2" "dcb_rules (\<lambda>n. n) c dir" "unat f \<le> 65408" "j < 8"
    and "ixgbe_dcb_calculate_tc_credits_cee t (Some c) f dir = (st, Some c')"
  shows "let p = tc_path c' dir j; mc = unat (min_credit_cee f) in st = IXGBE_SUCCESS \<and>
    mc \<le> unat (data_credits_refill p) \<and> unat (data_credits_refill p) \<le> 511 \<and>
    mc \<le> unat (data_credits_max p) \<and> unat (data_credits_max p) \<le> 4095 \<and> unat (link_percent p) \<le> 100"
proof -
  let ?mm = "min_credit_cee f div ucast (min_percent_cee c dir) + 1"
  have sh: "unat (tc_share c dir j) \<le> 100"
    using raw_link_percent_le rules_percent [OF assms(3,5)] by blast
  have mc: "min_credit_cee f \<le> 511" by (rule min_credit_le [OF assms(4)])
  note r = tc_refill_range [OF mc, of ?mm "tc_share c dir j"] and m = tc_credit_max_range [OF mc sh, of t dir]
  have r4: "tc_refill (min_credit_cee f) ?mm (tc_share c dir j) \<le> 4095" using r by (auto intro: order.trans)
  have "unat (ucast (tc_share c dir j) :: u8) \<le> 100"
    using sh by (simp add: unsigned_ucast_eq take_bit_nat_eq_self)
  then show ?thesis
    using credits_cee [OF assms(1,2,6,5)] r m ucast_u16_small [OF r4] ucast_u16_small [OF conjunct2 [OF m]]
    by (simp add: Let_def word_le_nat_alt)
qed

text \<open>Seven link strict classes and one class with all the bandwidth of group 0.\<close>

definition dcb_example_path :: "nat \<Rightarrow> ixgbe_dcb_tc_path" where
  "dcb_example_path i = \<lparr>bwg_id = (if i = 0 then 0 else 2), bwg_percent = (if i = 0 then 100 else 0), link_percent = 0,
     up_to_tc_bitmap = push_bit i 1, data_credits_refill = 0, data_credits_max = 0,
     tsa = (if i = 0 then ixgbe_dcb_tsa_ets else ixgbe_dcb_tsa_strict)\<rparr>"

definition dcb_example :: "u8 list \<Rightarrow> ixgbe_dcb_config" where
  "dcb_example pc = \<lparr>tc_config = map (\<lambda>i. \<lparr>path = [dcb_example_path i, dcb_example_path i], pfc = ixgbe_dcb_pfc_enabled,
       desc_credits_max = 0\<rparr>) [0..<8], pg_tcs = 8, bw_percentage = [pc, pc], pfc_mode_enable = True, vt_mode = False\<rparr>"

lemma dcb_example_path: "dir < 2 \<Longrightarrow> i < 8 \<Longrightarrow> tc_path (dcb_example pc) dir i = dcb_example_path i"
  by (auto simp: dcb_example_def tc_path_def less_2_cases_iff)

lemma dcb_example_wf: "length pc = 8 \<Longrightarrow> dcb_wf (dcb_example pc)"
  by (simp add: dcb_wf_def dcb_example_def less_2_cases_iff nth_Cons')

lemma dcb_example_rules:
  assumes "dir < 2" "wrap 0 = 0" "wrap 100 = 100"
  shows "dcb_rules wrap (dcb_example pc) dir \<longleftrightarrow> wrap (\<Sum>g \<leftarrow> [0..<8]. unat (pc ! g)) = 100"
proof -
  have ps: "map (tc_path (dcb_example pc) dir) [0..<8] = map dcb_example_path [0..<8]"
    using dcb_example_path [OF assms(1)] by simp
  have bw: "bw_percentage (dcb_example pc) ! dir = pc" using assms(1) by (auto simp: dcb_example_def less_2_cases_iff)
  have ok: "\<forall>p \<in> set (map dcb_example_path [0..<8]). path_ok p"
    by (auto simp: path_ok_def dcb_example_path_def)
  have "group_percent (map dcb_example_path [0..<8]) g = (if g = 0 then 100 else 0)" for g
    by (simp add: group_percent_def dcb_example_path_def upt_rec)
  moreover have "group_strict (map dcb_example_path [0..<8]) g = (g = 2)" for g
    by (auto simp: group_strict_def dcb_example_path_def upt_rec)
  ultimately show ?thesis
    using assms(2,3) ok unfolding dcb_rules_def Let_def ps bw by simp
qed

theorem tc_credits_cee_bounds_witness:
  "\<exists>c'. ixgbe_dcb_calculate_tc_credits_cee ixgbe_mac_82599EB (Some (dcb_example [100, 0, 0, 0, 0, 0, 0, 0])) 1518 0 = (IXGBE_SUCCESS, Some c') \<and>
     12 \<le> unat (data_credits_refill (tc_path c' 0 3)) \<and> unat (data_credits_max (tc_path c' 0 3)) \<le> 4095"
proof -
  let ?c = "dcb_example [100, 0, 0, 0, 0, 0, 0, 0]"
  obtain st c' where r: "ixgbe_dcb_calculate_tc_credits_cee ixgbe_mac_82599EB (Some ?c) 1518 0 = (st, Some c')"
    by (simp add: ixgbe_dcb_calculate_tc_credits_cee_def Let_def)
  have "dcb_rules (\<lambda>n. n) ?c 0" by (simp add: dcb_example_rules upt_rec)
  from tc_credits_cee_bounds [OF dcb_example_wf _ this _ _ r, of 3] r show ?thesis
    by (auto simp: Let_def min_credit_cee_def)
qed

text \<open>
  C35. The sums of the check wrap: a configuration whose bandwidth groups total 356 percent is accepted,
  and the maximum credits computed from it exceed the hardware maximum 4095.
\<close>

theorem check_config_cee_wraps:
  "let c = dcb_example [255, 101, 0, 0, 0, 0, 0, 0] in
     ixgbe_dcb_check_config_cee c = IXGBE_SUCCESS \<and>
     (\<Sum>g \<leftarrow> [0..<8]. unat (bw_percentage c ! 0 ! g)) = 356 \<and>
     (\<exists>c'. ixgbe_dcb_calculate_tc_credits_cee ixgbe_mac_82599EB (Some c) 1518 0 = (IXGBE_SUCCESS, Some c') \<and>
        unat (desc_credits_max (tc_config c' ! 0)) = 10442)"
proof -
  let ?c = "dcb_example [255, 101, 0, 0, 0, 0, 0, 0]"
  have "dcb_rules (\<lambda>n. n mod 256) ?c 0" "dcb_rules (\<lambda>n. n mod 256) ?c 1"
    by (simp_all add: dcb_example_rules upt_rec)
  then have 1: "ixgbe_dcb_check_config_cee ?c = IXGBE_SUCCESS"
    by (simp add: ixgbe_dcb_check_config_cee_def check_direction_iff)
  have 2: "(\<Sum>g \<leftarrow> [0..<8]. unat (bw_percentage ?c ! 0 ! g)) = 356"
    by (simp add: dcb_example_def upt_rec)
  obtain st c' where r: "ixgbe_dcb_calculate_tc_credits_cee ixgbe_mac_82599EB (Some ?c) 1518 0 = (st, Some c')"
    by (simp add: ixgbe_dcb_calculate_tc_credits_cee_def Let_def)
  have "tc_share ?c 0 0 = 255"
    by (simp add: tc_share_def raw_link_percent_def dcb_example_path dcb_example_path_def)
      (simp add: dcb_example_def)
  then have "unat (desc_credits_max (tc_config c' ! 0)) = 10442"
    using credits_cee(6) [OF dcb_example_wf _ r, of 0]
    by (simp add: tc_credit_max_def min_credit_cee_def)
  with 1 2 r credits_cee(1) [OF dcb_example_wf _ r, of 0] show ?thesis by (simp add: Let_def)
qed

end
