(* ===== verification/Ixgbe_DcbHw.thy ===== *)
theory Ixgbe_DcbHw
  imports Ixgbe_Dcb Ixgbe_FlowControl
begin

text \<open>
  Programming a data center bridging configuration into the hardware (\<open>ixgbe_dcb_82598.c\<close>,
  \<open>ixgbe_dcb_82599.c\<close> and the dispatch of \<open>ixgbe_dcb.c\<close>): arbiters, priority flow control,
  queue modes and the mapping of queues to statistics.  The registers are storage.  The lemmas
  decode the programmed registers back into the configuration.
\<close>

unbundle bit_operations_syntax

section \<open>Constants\<close>

abbreviation IXGBE_RTRPCS_RRM :: u32 where "IXGBE_RTRPCS_RRM \<equiv> 0x00000002"
abbreviation IXGBE_RTRPCS_RAC :: u32 where "IXGBE_RTRPCS_RAC \<equiv> 0x00000004"
abbreviation IXGBE_RTRPCS_ARBDIS :: u32 where "IXGBE_RTRPCS_ARBDIS \<equiv> 0x00000040"
abbreviation IXGBE_TC_GSP :: u32 where "IXGBE_TC_GSP \<equiv> 0x40000000"
abbreviation IXGBE_TC_LSP :: u32 where "IXGBE_TC_LSP \<equiv> 0x80000000"
abbreviation IXGBE_RTTDCS_TDPAC :: u32 where "IXGBE_RTTDCS_TDPAC \<equiv> 0x00000001"
abbreviation IXGBE_RTTDCS_TDRM :: u32 where "IXGBE_RTTDCS_TDRM \<equiv> 0x00000010"
abbreviation IXGBE_RTTDCS_ARBDIS :: u32 where "IXGBE_RTTDCS_ARBDIS \<equiv> 0x00000040"
abbreviation IXGBE_RTTPCS_TPPAC :: u32 where "IXGBE_RTTPCS_TPPAC \<equiv> 0x00000020"
abbreviation IXGBE_RTTPCS_ARBDIS :: u32 where "IXGBE_RTTPCS_ARBDIS \<equiv> 0x00000040"
abbreviation IXGBE_RTTPCS_TPRM :: u32 where "IXGBE_RTTPCS_TPRM \<equiv> 0x00000100"
abbreviation IXGBE_RTTPCS_ARBD_DCB :: u32 where "IXGBE_RTTPCS_ARBD_DCB \<equiv> 0x4"
abbreviation IXGBE_SECTX_DCB :: u32 where "IXGBE_SECTX_DCB \<equiv> 0x00001F00"
abbreviation IXGBE_MFLCN_RPFCE :: u32 where "IXGBE_MFLCN_RPFCE \<equiv> 0x00000004"
abbreviation IXGBE_MRQC_RSSEN :: u32 where "IXGBE_MRQC_RSSEN \<equiv> 0x1"
abbreviation IXGBE_MRQC_MRQE_MASK :: u32 where "IXGBE_MRQC_MRQE_MASK \<equiv> 0xF"
abbreviation IXGBE_MRQC_RT8TCEN :: u32 where "IXGBE_MRQC_RT8TCEN \<equiv> 0x2"
abbreviation IXGBE_MRQC_RT4TCEN :: u32 where "IXGBE_MRQC_RT4TCEN \<equiv> 0x3"
abbreviation IXGBE_MRQC_RTRSS8TCEN :: u32 where "IXGBE_MRQC_RTRSS8TCEN \<equiv> 0x4"
abbreviation IXGBE_MRQC_RTRSS4TCEN :: u32 where "IXGBE_MRQC_RTRSS4TCEN \<equiv> 0x5"
abbreviation IXGBE_MRQC_VMDQRT4TCEN :: u32 where "IXGBE_MRQC_VMDQRT4TCEN \<equiv> 0xD"
abbreviation IXGBE_MTQC_RT_ENA :: u32 where "IXGBE_MTQC_RT_ENA \<equiv> 0x1"
abbreviation IXGBE_MTQC_VT_ENA :: u32 where "IXGBE_MTQC_VT_ENA \<equiv> 0x2"
abbreviation IXGBE_MTQC_4TC_4TQ :: u32 where "IXGBE_MTQC_4TC_4TQ \<equiv> 0x8"
abbreviation IXGBE_MTQC_8TC_8TQ :: u32 where "IXGBE_MTQC_8TC_8TQ \<equiv> 0xC"
abbreviation IXGBE_QDE_WRITE :: u32 where "IXGBE_QDE_WRITE \<equiv> 0x00010000"
abbreviation IXGBE_RMCS_RRM :: u32 where "IXGBE_RMCS_RRM \<equiv> 0x00000002"
abbreviation IXGBE_RMCS_DFP :: u32 where "IXGBE_RMCS_DFP \<equiv> 0x00000004"
abbreviation IXGBE_RMCS_TFCE_802_3X :: u32 where "IXGBE_RMCS_TFCE_802_3X \<equiv> 0x00000008"
abbreviation IXGBE_RMCS_TFCE_PRIORITY :: u32 where "IXGBE_RMCS_TFCE_PRIORITY \<equiv> 0x00000010"
abbreviation IXGBE_RMCS_ARBDIS :: u32 where "IXGBE_RMCS_ARBDIS \<equiv> 0x00000040"
abbreviation IXGBE_RUPPBMR_MQA :: u32 where "IXGBE_RUPPBMR_MQA \<equiv> 0x80000000"
abbreviation IXGBE_RDRXCTL_RDMTS_1_2 :: u32 where "IXGBE_RDRXCTL_RDMTS_1_2 \<equiv> 0x00000000"
abbreviation IXGBE_RDRXCTL_MPBEN :: u32 where "IXGBE_RDRXCTL_MPBEN \<equiv> 0x00000010"
abbreviation IXGBE_RDRXCTL_MCEN :: u32 where "IXGBE_RDRXCTL_MCEN \<equiv> 0x00000040"
abbreviation IXGBE_RXCTRL_DMBYPS :: u32 where "IXGBE_RXCTRL_DMBYPS \<equiv> 0x00000002"
abbreviation IXGBE_DPMCS_ARBDIS :: u32 where "IXGBE_DPMCS_ARBDIS \<equiv> 0x00000040"
abbreviation IXGBE_DPMCS_TSOEF :: u32 where "IXGBE_DPMCS_TSOEF \<equiv> 0x00080000"
abbreviation IXGBE_PDPMCS_TPPAC :: u32 where "IXGBE_PDPMCS_TPPAC \<equiv> 0x00000020"
abbreviation IXGBE_PDPMCS_ARBDIS :: u32 where "IXGBE_PDPMCS_ARBDIS \<equiv> 0x00000040"
abbreviation IXGBE_PDPMCS_TRM :: u32 where "IXGBE_PDPMCS_TRM \<equiv> 0x00000100"
abbreviation IXGBE_DTXCTL_ENDBUBD :: u32 where "IXGBE_DTXCTL_ENDBUBD \<equiv> 0x00000004"
abbreviation IXGBE_FCTRL_RPFCE :: u32 where "IXGBE_FCTRL_RPFCE \<equiv> 0x00004000"
abbreviation IXGBE_FCTRL_RFCE :: u32 where "IXGBE_FCTRL_RFCE \<equiv> 0x00008000"

section \<open>82599 and later\<close>

text \<open>The unpacked configuration that the hardware routines take.\<close>

record dcb_arrays =
  a_refill :: "u16 list"
  a_max :: "u16 list"
  a_bwg_id :: "u8 list"
  a_tsa :: "ixgbe_dcb_tsa list"
  a_map :: "u8 list"

definition up2tc_reg :: "u8 list \<Rightarrow> u32" where
  "up2tc_reg mp = for_upto 0 IXGBE_DCB_MAX_USER_PRIORITY (\<lambda>i reg. reg OR push_bit (i * 3) (ucast (mp ! i))) 0"

text \<open>Credits, group and strictness of a traffic class; the receive arbiter has no group strict bit.\<close>

definition tc_reg :: "bool \<Rightarrow> dcb_arrays \<Rightarrow> nat \<Rightarrow> u32" where
  "tc_reg gsp a i =
     (let reg = ucast (a_refill a ! i) OR push_bit 12 (ucast (a_max a ! i)) OR push_bit 9 (ucast (a_bwg_id a ! i));
          reg = (if gsp \<and> a_tsa a ! i = ixgbe_dcb_tsa_group_strict_cee then reg OR IXGBE_TC_GSP else reg)
      in if a_tsa a ! i = ixgbe_dcb_tsa_strict then reg OR IXGBE_TC_LSP else reg)"

definition ixgbe_dcb_config_rx_arbiter_82599 :: "dcb_arrays \<Rightarrow> ixgbe_hw \<Rightarrow> ixgbe_status \<times> ixgbe_hw" where
  "ixgbe_dcb_config_rx_arbiter_82599 a hw =
     (let hw = IXGBE_WRITE_REG hw IXGBE_RTRPCS (IXGBE_RTRPCS_RRM OR IXGBE_RTRPCS_RAC OR IXGBE_RTRPCS_ARBDIS);
          hw = IXGBE_WRITE_REG hw IXGBE_RTRUP2TC (up2tc_reg (a_map a));
          hw = for_upto 0 DCB_MAX_TC (\<lambda>i hw. IXGBE_WRITE_REG hw (IXGBE_RTRPT4C i) (tc_reg False a i)) hw;
          hw = IXGBE_WRITE_REG hw IXGBE_RTRPCS (IXGBE_RTRPCS_RRM OR IXGBE_RTRPCS_RAC)
      in (IXGBE_SUCCESS, hw))"

definition ixgbe_dcb_config_tx_desc_arbiter_82599 :: "dcb_arrays \<Rightarrow> ixgbe_hw \<Rightarrow> ixgbe_status \<times> ixgbe_hw" where
  "ixgbe_dcb_config_tx_desc_arbiter_82599 a hw =
     (let hw = for_upto 0 128 (\<lambda>i hw. IXGBE_WRITE_REG (IXGBE_WRITE_REG hw IXGBE_RTTDQSEL (of_nat i)) IXGBE_RTTDT1C 0) hw;
          hw = for_upto 0 DCB_MAX_TC (\<lambda>i hw. IXGBE_WRITE_REG hw (IXGBE_RTTDT2C i) (tc_reg True a i)) hw;
          hw = IXGBE_WRITE_REG hw IXGBE_RTTDCS (IXGBE_RTTDCS_TDPAC OR IXGBE_RTTDCS_TDRM)
      in (IXGBE_SUCCESS, hw))"

definition ixgbe_dcb_config_tx_data_arbiter_82599 :: "dcb_arrays \<Rightarrow> ixgbe_hw \<Rightarrow> ixgbe_status \<times> ixgbe_hw" where
  "ixgbe_dcb_config_tx_data_arbiter_82599 a hw =
     (let en = IXGBE_RTTPCS_TPPAC OR IXGBE_RTTPCS_TPRM OR push_bit 22 IXGBE_RTTPCS_ARBD_DCB;
          hw = IXGBE_WRITE_REG hw IXGBE_RTTPCS (en OR IXGBE_RTTPCS_ARBDIS);
          hw = IXGBE_WRITE_REG hw IXGBE_RTTUP2TC (up2tc_reg (a_map a));
          hw = for_upto 0 DCB_MAX_TC (\<lambda>i hw. IXGBE_WRITE_REG hw (IXGBE_RTTPT2C i) (tc_reg True a i)) hw;
          hw = IXGBE_WRITE_REG hw IXGBE_RTTPCS en
      in (IXGBE_SUCCESS, hw))"

definition pfc_tc_enabled :: "u8 \<Rightarrow> u8 list \<Rightarrow> nat \<Rightarrow> bool" where
  "pfc_tc_enabled pfc_en mp i =
     list_ex (\<lambda>j. unat (mp ! j) = i \<and> pfc_en AND push_bit j 1 \<noteq> 0) [0..<IXGBE_DCB_MAX_USER_PRIORITY]"

definition pfc_set_tc :: "u8 \<Rightarrow> u8 list \<Rightarrow> nat \<Rightarrow> ixgbe_hw \<Rightarrow> ixgbe_hw" where
  "pfc_set_tc pfc_en mp i hw =
     (if pfc_tc_enabled pfc_en mp i then
        let reg = push_bit 10 (high_water (fc hw) ! i) OR IXGBE_FCRTH_FCEN;
            hw = IXGBE_WRITE_REG hw (IXGBE_FCRTL_82599 i) (push_bit 10 (low_water (fc hw) ! i) OR IXGBE_FCRTL_XONE)
        in IXGBE_WRITE_REG hw (IXGBE_FCRTH_82599 i) reg
      else
        let reg = IXGBE_READ_REG hw (IXGBE_RXPBSIZE i) - 24576;
            hw = IXGBE_WRITE_REG hw (IXGBE_FCRTL_82599 i) 0
        in IXGBE_WRITE_REG hw (IXGBE_FCRTH_82599 i) reg)"

definition pfc_max_tc :: "u8 list \<Rightarrow> nat" where
  "pfc_max_tc mp = for_upto 0 IXGBE_DCB_MAX_USER_PRIORITY (\<lambda>i m. if unat (mp ! i) > m then unat (mp ! i) else m) 0"

definition pfc_pause_time :: "ixgbe_hw \<Rightarrow> ixgbe_hw" where
  "pfc_pause_time hw =
     (let reg = ucast (pause_time (fc hw)) OR push_bit 16 (ucast (pause_time (fc hw)));
          hw = for_upto 0 (DCB_MAX_TC div 2) (\<lambda>i hw. IXGBE_WRITE_REG hw (IXGBE_FCTTV i) reg) hw
      in IXGBE_WRITE_REG hw IXGBE_FCRTV (ucast (pause_time (fc hw) div 2)))"

definition ixgbe_dcb_config_pfc_82599 :: "u8 \<Rightarrow> u8 list \<Rightarrow> ixgbe_hw \<Rightarrow> ixgbe_status \<times> ixgbe_hw" where
  "ixgbe_dcb_config_pfc_82599 pfc_en mp hw =
     (let hw = IXGBE_WRITE_REG hw IXGBE_FCCFG IXGBE_FCCFG_TFCE_PRIORITY;
          reg = IXGBE_READ_REG hw IXGBE_MFLCN OR IXGBE_MFLCN_DPF;
          reg = reg AND NOT (IXGBE_MFLCN_RPFCE_MASK OR IXGBE_MFLCN_RFCE);
          reg = (if mac_type_val (mac_type (mac hw)) \<ge> mac_type_val ixgbe_mac_X540 then reg OR push_bit 4 (ucast pfc_en) else reg);
          reg = (if pfc_en \<noteq> 0 then reg OR IXGBE_MFLCN_RPFCE else reg);
          hw = IXGBE_WRITE_REG hw IXGBE_MFLCN reg;
          max_tc = pfc_max_tc mp;
          hw = for_upto 0 (Suc max_tc) (pfc_set_tc pfc_en mp) hw;
          hw = for_upto (Suc max_tc) DCB_MAX_TC
                 (\<lambda>i hw. IXGBE_WRITE_REG (IXGBE_WRITE_REG hw (IXGBE_FCRTL_82599 i) 0) (IXGBE_FCRTH_82599 i) 0) hw
      in (IXGBE_SUCCESS, pfc_pause_time hw))"

text \<open>The statistics counter of the four queues of a \<open>TQSM\<close> register.\<close>

definition tqsm_tc8 :: "nat \<Rightarrow> u32" where
  "tqsm_tc8 i = (if i < 8 then 0x00000000 else if i < 16 then 0x01010101 else if i < 20 then 0x02020202
     else if i < 24 then 0x03030303 else if i < 26 then 0x04040404 else if i < 28 then 0x05050505
     else if i < 30 then 0x06060606 else 0x07070707)"

definition tqsm_tc4 :: "nat \<Rightarrow> u32" where
  "tqsm_tc4 i = (if i < 16 then 0x00000000 else if i < 24 then 0x01010101 else if i < 28 then 0x02020202 else 0x03030303)"

definition ixgbe_dcb_config_tc_stats_82599 :: "ixgbe_dcb_config option \<Rightarrow> ixgbe_hw \<Rightarrow> ixgbe_status \<times> ixgbe_hw" where
  "ixgbe_dcb_config_tc_stats_82599 dcb_config hw =
     (let tc_count = (case dcb_config of None \<Rightarrow> 8 | Some c \<Rightarrow> pg_tcs c);
          vt = (case dcb_config of None \<Rightarrow> False | Some c \<Rightarrow> vt_mode c)
      in if \<not> ((tc_count = 8 \<and> \<not> vt) \<or> tc_count = 4) then (IXGBE_ERR_PARAM, hw)
         else if tc_count = 8 \<and> \<not> vt then
           (IXGBE_SUCCESS,
            for_upto 0 32 (\<lambda>i hw. IXGBE_WRITE_REG hw (IXGBE_TQSM i) (tqsm_tc8 i))
              (for_upto 0 32 (\<lambda>i hw. IXGBE_WRITE_REG hw (IXGBE_RQSMR i) (0x01010101 * of_nat (i div 4))) hw))
         else if \<not> vt then
           (IXGBE_SUCCESS,
            for_upto 0 32 (\<lambda>i hw. IXGBE_WRITE_REG hw (IXGBE_TQSM i) (tqsm_tc4 i))
              (for_upto 0 32 (\<lambda>i hw. if i mod 8 > 3 then hw
                 else IXGBE_WRITE_REG hw (IXGBE_RQSMR i) (0x01010101 * of_nat (i div 8))) hw))
         else
           (IXGBE_SUCCESS,
            for_upto 0 32 (\<lambda>i hw. IXGBE_WRITE_REG hw (IXGBE_TQSM i) 0x03020100)
              (for_upto 0 32 (\<lambda>i hw. IXGBE_WRITE_REG hw (IXGBE_RQSMR i) 0x03020100) hw)))"

definition dcb_mrqc :: "ixgbe_dcb_config \<Rightarrow> u32 \<Rightarrow> u32" where
  "dcb_mrqc c reg =
     (let base = reg AND NOT IXGBE_MRQC_MRQE_MASK; mode = reg AND IXGBE_MRQC_MRQE_MASK in
      if pg_tcs c = 8 then
        (if mode = 0 \<or> mode = IXGBE_MRQC_RT4TCEN then base OR IXGBE_MRQC_RT8TCEN
         else if mode = IXGBE_MRQC_RSSEN \<or> mode = IXGBE_MRQC_RTRSS4TCEN then base OR IXGBE_MRQC_RTRSS8TCEN
         else base OR IXGBE_MRQC_RT8TCEN)
      else if pg_tcs c = 4 then
        (if vt_mode c then base OR IXGBE_MRQC_VMDQRT4TCEN else base OR IXGBE_MRQC_RTRSS4TCEN)
      else reg)"

definition ixgbe_dcb_config_82599 :: "ixgbe_dcb_config \<Rightarrow> ixgbe_hw \<Rightarrow> ixgbe_status \<times> ixgbe_hw" where
  "ixgbe_dcb_config_82599 c hw =
     (let hw = IXGBE_WRITE_REG hw IXGBE_RTTDCS (IXGBE_READ_REG hw IXGBE_RTTDCS OR IXGBE_RTTDCS_ARBDIS);
          hw = IXGBE_WRITE_REG hw IXGBE_MRQC (dcb_mrqc c (IXGBE_READ_REG hw IXGBE_MRQC));
          reg = (if pg_tcs c = 8 then IXGBE_MTQC_RT_ENA OR IXGBE_MTQC_8TC_8TQ
                 else let reg = IXGBE_MTQC_RT_ENA OR IXGBE_MTQC_4TC_4TQ
                      in if vt_mode c then reg OR IXGBE_MTQC_VT_ENA else reg);
          hw = IXGBE_WRITE_REG hw IXGBE_MTQC reg;
          hw = for_upto 0 128 (\<lambda>q hw. IXGBE_WRITE_REG hw IXGBE_QDE (IXGBE_QDE_WRITE OR push_bit 8 (of_nat q))) hw;
          hw = IXGBE_WRITE_REG hw IXGBE_RTTDCS (IXGBE_READ_REG hw IXGBE_RTTDCS AND NOT IXGBE_RTTDCS_ARBDIS);
          hw = IXGBE_WRITE_REG hw IXGBE_SECTXMINIFG (IXGBE_READ_REG hw IXGBE_SECTXMINIFG OR IXGBE_SECTX_DCB)
      in (IXGBE_SUCCESS, hw))"

definition ixgbe_dcb_hw_config_82599 :: "dcb_arrays \<Rightarrow> ixgbe_hw \<Rightarrow> ixgbe_status \<times> ixgbe_hw" where
  "ixgbe_dcb_hw_config_82599 a hw =
     (let hw = snd (ixgbe_dcb_config_rx_arbiter_82599 a hw);
          hw = snd (ixgbe_dcb_config_tx_desc_arbiter_82599 a hw);
          hw = snd (ixgbe_dcb_config_tx_data_arbiter_82599 a hw)
      in (IXGBE_SUCCESS, hw))"

section \<open>82598\<close>

definition ixgbe_dcb_config_rx_arbiter_82598 :: "dcb_arrays \<Rightarrow> ixgbe_hw \<Rightarrow> ixgbe_status \<times> ixgbe_hw" where
  "ixgbe_dcb_config_rx_arbiter_82598 a hw =
     (let hw = IXGBE_WRITE_REG hw IXGBE_RUPPBMR (IXGBE_READ_REG hw IXGBE_RUPPBMR OR IXGBE_RUPPBMR_MQA);
          reg = IXGBE_READ_REG hw IXGBE_RMCS AND NOT IXGBE_RMCS_ARBDIS;
          hw = IXGBE_WRITE_REG hw IXGBE_RMCS (reg OR IXGBE_RMCS_RRM OR IXGBE_RMCS_DFP);
          hw = for_upto 0 DCB_MAX_TC (\<lambda>i hw.
                 let reg = ucast (a_refill a ! i) OR push_bit 12 (ucast (a_max a ! i));
                     reg = (if a_tsa a ! i = ixgbe_dcb_tsa_strict then reg OR IXGBE_TC_LSP else reg)
                 in IXGBE_WRITE_REG hw (IXGBE_RT2CR i) reg) hw;
          hw = IXGBE_WRITE_REG hw IXGBE_RDRXCTL
                 (IXGBE_READ_REG hw IXGBE_RDRXCTL OR IXGBE_RDRXCTL_RDMTS_1_2 OR IXGBE_RDRXCTL_MPBEN OR IXGBE_RDRXCTL_MCEN);
          hw = IXGBE_WRITE_REG hw IXGBE_RXCTRL (IXGBE_READ_REG hw IXGBE_RXCTRL AND NOT IXGBE_RXCTRL_DMBYPS)
      in (IXGBE_SUCCESS, hw))"

definition ixgbe_dcb_config_tx_desc_arbiter_82598 :: "dcb_arrays \<Rightarrow> ixgbe_hw \<Rightarrow> ixgbe_status \<times> ixgbe_hw" where
  "ixgbe_dcb_config_tx_desc_arbiter_82598 a hw =
     (let reg = IXGBE_READ_REG hw IXGBE_DPMCS AND NOT IXGBE_DPMCS_ARBDIS;
          hw = IXGBE_WRITE_REG hw IXGBE_DPMCS (reg OR IXGBE_DPMCS_TSOEF OR push_bit 16 0x4);
          hw = for_upto 0 DCB_MAX_TC (\<lambda>i hw. IXGBE_WRITE_REG hw (IXGBE_TDTQ2TCCR i) (tc_reg True a i)) hw
      in (IXGBE_SUCCESS, hw))"

definition ixgbe_dcb_config_tx_data_arbiter_82598 :: "dcb_arrays \<Rightarrow> ixgbe_hw \<Rightarrow> ixgbe_status \<times> ixgbe_hw" where
  "ixgbe_dcb_config_tx_data_arbiter_82598 a hw =
     (let reg = IXGBE_READ_REG hw IXGBE_PDPMCS AND NOT IXGBE_PDPMCS_ARBDIS;
          hw = IXGBE_WRITE_REG hw IXGBE_PDPMCS (reg OR (IXGBE_PDPMCS_TPPAC OR IXGBE_PDPMCS_TRM));
          hw = for_upto 0 DCB_MAX_TC (\<lambda>i hw. IXGBE_WRITE_REG hw (IXGBE_TDPT2TCCR i) (tc_reg True a i)) hw;
          hw = IXGBE_WRITE_REG hw IXGBE_DTXCTL (IXGBE_READ_REG hw IXGBE_DTXCTL OR IXGBE_DTXCTL_ENDBUBD)
      in (IXGBE_SUCCESS, hw))"

definition ixgbe_dcb_config_pfc_82598 :: "u8 \<Rightarrow> ixgbe_hw \<Rightarrow> ixgbe_status \<times> ixgbe_hw" where
  "ixgbe_dcb_config_pfc_82598 pfc_en hw =
     (let reg = IXGBE_READ_REG hw IXGBE_RMCS AND NOT IXGBE_RMCS_TFCE_802_3X;
          hw = IXGBE_WRITE_REG hw IXGBE_RMCS (reg OR IXGBE_RMCS_TFCE_PRIORITY);
          reg = IXGBE_READ_REG hw IXGBE_FCTRL AND NOT (IXGBE_FCTRL_RPFCE OR IXGBE_FCTRL_RFCE);
          hw = IXGBE_WRITE_REG hw IXGBE_FCTRL (if pfc_en \<noteq> 0 then reg OR IXGBE_FCTRL_RPFCE else reg);
          hw = for_upto 0 DCB_MAX_TC (\<lambda>i hw.
                 if pfc_en AND push_bit i 1 = 0
                 then IXGBE_WRITE_REG (IXGBE_WRITE_REG hw (IXGBE_FCRTL i) 0) (IXGBE_FCRTH i) 0
                 else let fcrtl = push_bit 10 (low_water (fc hw) ! i) OR IXGBE_FCRTL_XONE;
                          reg = push_bit 10 (high_water (fc hw) ! i) OR IXGBE_FCRTH_FCEN
                      in IXGBE_WRITE_REG (IXGBE_WRITE_REG hw (IXGBE_FCRTL i) fcrtl) (IXGBE_FCRTH i) reg) hw
      in (IXGBE_SUCCESS, pfc_pause_time hw))"

text \<open>The receive loop runs for \<open>j\<close> from 0 to 7 with \<open>i = 2 * j\<close>.\<close>

definition stats_or :: "reg \<Rightarrow> nat \<Rightarrow> ixgbe_hw \<Rightarrow> ixgbe_hw" where
  "stats_or r j hw = IXGBE_WRITE_REG hw r (IXGBE_READ_REG hw r OR 0x1010101 * of_nat j)"

definition ixgbe_dcb_config_tc_stats_82598 :: "ixgbe_hw \<Rightarrow> ixgbe_status \<times> ixgbe_hw" where
  "ixgbe_dcb_config_tc_stats_82598 hw =
     (let hw = for_upto 0 8 (\<lambda>j hw. stats_or (IXGBE_RQSMR (2 * j + 1)) j (stats_or (IXGBE_RQSMR (2 * j)) j hw)) hw;
          hw = for_upto 0 8 (\<lambda>i hw. stats_or (IXGBE_TQSMR i) i hw) hw
      in (IXGBE_SUCCESS, hw))"

definition ixgbe_dcb_hw_config_82598 :: "dcb_arrays \<Rightarrow> ixgbe_hw \<Rightarrow> ixgbe_status \<times> ixgbe_hw" where
  "ixgbe_dcb_hw_config_82598 a hw =
     (let hw = snd (ixgbe_dcb_config_rx_arbiter_82598 a hw);
          hw = snd (ixgbe_dcb_config_tx_desc_arbiter_82598 a hw);
          hw = snd (ixgbe_dcb_config_tx_data_arbiter_82598 a hw);
          hw = snd (ixgbe_dcb_config_tc_stats_82598 hw)
      in (IXGBE_SUCCESS, hw))"

section \<open>Dispatch\<close>

definition dcb_82599_like :: "ixgbe_mac_type \<Rightarrow> bool" where
  "dcb_82599_like t \<longleftrightarrow> t \<in> {ixgbe_mac_82599EB, ixgbe_mac_X540, ixgbe_mac_X550, ixgbe_mac_X550EM_x, ixgbe_mac_X550EM_a}"

text \<open>The dispatch of the source: the 82598, the 82599 and its successors, or the default value.\<close>

definition dcb_dispatch ::
  "ixgbe_status \<Rightarrow> (ixgbe_hw \<Rightarrow> ixgbe_status \<times> ixgbe_hw) \<Rightarrow> (ixgbe_hw \<Rightarrow> ixgbe_status \<times> ixgbe_hw) \<Rightarrow>
   ixgbe_hw \<Rightarrow> ixgbe_status \<times> ixgbe_hw" where
  "dcb_dispatch dflt f98 f99 hw =
     (let t = mac_type (mac hw) in
      if t = ixgbe_mac_82598EB then f98 hw else if dcb_82599_like t then f99 hw else (dflt, hw))"

definition dcb_unpack :: "ixgbe_dcb_config \<Rightarrow> dcb_arrays" where
  "dcb_unpack c =
     \<lparr>a_refill = ixgbe_dcb_unpack_refill_cee c IXGBE_DCB_TX_CONFIG,
      a_max = ixgbe_dcb_unpack_max_cee c,
      a_bwg_id = ixgbe_dcb_unpack_bwgid_cee c IXGBE_DCB_TX_CONFIG,
      a_tsa = ixgbe_dcb_unpack_tsa_cee c IXGBE_DCB_TX_CONFIG,
      a_map = ixgbe_dcb_unpack_map_cee c IXGBE_DCB_TX_CONFIG\<rparr>"

definition ixgbe_dcb_config_rx_arbiter_cee :: "ixgbe_dcb_config \<Rightarrow> ixgbe_hw \<Rightarrow> ixgbe_status \<times> ixgbe_hw" where
  "ixgbe_dcb_config_rx_arbiter_cee c = dcb_dispatch IXGBE_NOT_IMPLEMENTED
     (ixgbe_dcb_config_rx_arbiter_82598 (dcb_unpack c)) (ixgbe_dcb_config_rx_arbiter_82599 (dcb_unpack c))"

definition ixgbe_dcb_config_tx_desc_arbiter_cee :: "ixgbe_dcb_config \<Rightarrow> ixgbe_hw \<Rightarrow> ixgbe_status \<times> ixgbe_hw" where
  "ixgbe_dcb_config_tx_desc_arbiter_cee c = dcb_dispatch IXGBE_NOT_IMPLEMENTED
     (ixgbe_dcb_config_tx_desc_arbiter_82598 (dcb_unpack c)) (ixgbe_dcb_config_tx_desc_arbiter_82599 (dcb_unpack c))"

definition ixgbe_dcb_config_tx_data_arbiter_cee :: "ixgbe_dcb_config \<Rightarrow> ixgbe_hw \<Rightarrow> ixgbe_status \<times> ixgbe_hw" where
  "ixgbe_dcb_config_tx_data_arbiter_cee c = dcb_dispatch IXGBE_NOT_IMPLEMENTED
     (ixgbe_dcb_config_tx_data_arbiter_82598 (dcb_unpack c)) (ixgbe_dcb_config_tx_data_arbiter_82599 (dcb_unpack c))"

definition ixgbe_dcb_config_pfc_cee :: "ixgbe_dcb_config \<Rightarrow> ixgbe_hw \<Rightarrow> ixgbe_status \<times> ixgbe_hw" where
  "ixgbe_dcb_config_pfc_cee c =
     (let mp = ixgbe_dcb_unpack_map_cee c IXGBE_DCB_TX_CONFIG; pfc_en = ixgbe_dcb_unpack_pfc_cee c mp
      in dcb_dispatch IXGBE_NOT_IMPLEMENTED (ixgbe_dcb_config_pfc_82598 pfc_en) (ixgbe_dcb_config_pfc_82599 pfc_en mp))"

definition ixgbe_dcb_config_tc_stats :: "ixgbe_hw \<Rightarrow> ixgbe_status \<times> ixgbe_hw" where
  "ixgbe_dcb_config_tc_stats = dcb_dispatch IXGBE_NOT_IMPLEMENTED ixgbe_dcb_config_tc_stats_82598
     (ixgbe_dcb_config_tc_stats_82599 None)"

definition ixgbe_dcb_config_pfc :: "u8 \<Rightarrow> u8 list \<Rightarrow> ixgbe_hw \<Rightarrow> ixgbe_status \<times> ixgbe_hw" where
  "ixgbe_dcb_config_pfc pfc_en mp = dcb_dispatch IXGBE_ERR_PARAM (ixgbe_dcb_config_pfc_82598 pfc_en)
     (ixgbe_dcb_config_pfc_82599 pfc_en mp)"

definition ixgbe_dcb_hw_config_cee :: "ixgbe_dcb_config \<Rightarrow> ixgbe_hw \<Rightarrow> ixgbe_status \<times> ixgbe_hw" where
  "ixgbe_dcb_hw_config_cee c hw =
     (let a = dcb_unpack c;
          (ret, hw) = dcb_dispatch IXGBE_NOT_IMPLEMENTED (ixgbe_dcb_hw_config_82598 a)
            (\<lambda>hw. let hw = snd (ixgbe_dcb_config_82599 c hw);
                       (ret, hw) = ixgbe_dcb_hw_config_82599 a hw
                   in (ret, snd (ixgbe_dcb_config_tc_stats_82599 (Some c) hw))) hw
      in if ret = IXGBE_SUCCESS \<and> pfc_mode_enable c
         then ixgbe_dcb_config_pfc (ixgbe_dcb_unpack_pfc_cee c (a_map a)) (a_map a) hw
         else (ret, hw))"

definition ixgbe_dcb_hw_config :: "dcb_arrays \<Rightarrow> ixgbe_hw \<Rightarrow> ixgbe_status \<times> ixgbe_hw" where
  "ixgbe_dcb_hw_config a hw =
     (let f98 = (\<lambda>hw. (IXGBE_SUCCESS, snd (ixgbe_dcb_config_tx_data_arbiter_82598 a
                    (snd (ixgbe_dcb_config_tx_desc_arbiter_82598 a (snd (ixgbe_dcb_config_rx_arbiter_82598 a hw)))))))
      in (IXGBE_SUCCESS, snd (dcb_dispatch IXGBE_SUCCESS f98 (ixgbe_dcb_hw_config_82599 a) hw)))"

section \<open>Reading back what the loops write\<close>

lemma write_loop_at:
  assumes "\<not> hw_removed hw" "inj f" "m \<le> i" "i < n"
  shows "IXGBE_READ_REG (for_upto m n (\<lambda>i hw. IXGBE_WRITE_REG hw (f i) (g i)) hw) (f i) = g i"
  using assms(3,4)
proof (induction n)
  case 0
  then show ?case by simp
next
  case (Suc n)
  then show ?case using assms(1,2) by (cases "i = n") (auto simp: inj_eq)
qed

lemma write_loop_other:
  assumes "\<not> hw_removed hw" "\<And>i. f i \<noteq> r"
  shows "IXGBE_READ_REG (for_upto m n (\<lambda>i hw. IXGBE_WRITE_REG hw (f i) (g i)) hw) r = IXGBE_READ_REG hw r"
  using assms by (induction n) auto

lemma queue_credits_loop:
  "hw_removed (for_upto m n (\<lambda>i hw. IXGBE_WRITE_REG (IXGBE_WRITE_REG hw r (g i)) s v) hw) = hw_removed hw"
  "mac (for_upto m n (\<lambda>i hw. IXGBE_WRITE_REG (IXGBE_WRITE_REG hw r (g i)) s v) hw) = mac hw"
  by (rule for_upto_frame; simp)+

lemma queue_credits_other:
  assumes "\<not> hw_removed hw" "r \<noteq> q" "s \<noteq> q"
  shows "IXGBE_READ_REG (for_upto m n (\<lambda>i hw. IXGBE_WRITE_REG (IXGBE_WRITE_REG hw r (g i)) s v) hw) q = IXGBE_READ_REG hw q"
  using assms by (induction n) (auto simp: queue_credits_loop)

lemmas dcb_loops = write_loop_at [where f = "\<lambda>i. DcbReg (h i)" for h] write_loop_other queue_credits_loop queue_credits_other inj_def

lemma hw_config_82599:
  fixes a :: dcb_arrays
  assumes "\<not> hw_removed hw" "i < 8"
  defines "hw' \<equiv> snd (ixgbe_dcb_hw_config_82599 a hw)"
  shows "\<not> hw_removed hw'" "mac hw' = mac hw" "fst (ixgbe_dcb_hw_config_82599 a hw) = IXGBE_SUCCESS"
    and "IXGBE_READ_REG hw' IXGBE_RTRUP2TC = up2tc_reg (a_map a)" "IXGBE_READ_REG hw' IXGBE_RTTUP2TC = up2tc_reg (a_map a)"
    and "IXGBE_READ_REG hw' (IXGBE_RTRPT4C i) = tc_reg False a i" "IXGBE_READ_REG hw' (IXGBE_RTTDT2C i) = tc_reg True a i"
    and "IXGBE_READ_REG hw' (IXGBE_RTTPT2C i) = tc_reg True a i"
    and "IXGBE_READ_REG hw' IXGBE_RTRPCS AND IXGBE_RTRPCS_ARBDIS = 0" "IXGBE_READ_REG hw' IXGBE_RTTDCS AND IXGBE_RTTDCS_ARBDIS = 0"
    and "IXGBE_READ_REG hw' IXGBE_RTTPCS AND IXGBE_RTTPCS_ARBDIS = 0"
  using assms(1,2) unfolding hw'_def
  by (simp_all add: ixgbe_dcb_hw_config_82599_def ixgbe_dcb_config_rx_arbiter_82599_def ixgbe_dcb_config_tx_desc_arbiter_82599_def
      ixgbe_dcb_config_tx_data_arbiter_82599_def Let_def dcb_loops del: upt_rec_numeral)

lemma config_82599_frame:
  "hw_removed (snd (ixgbe_dcb_config_82599 c hw)) = hw_removed hw" "mac (snd (ixgbe_dcb_config_82599 c hw)) = mac hw"
  by (simp_all add: ixgbe_dcb_config_82599_def Let_def)

lemma tc_stats_82599_frame:
  assumes "\<not> hw_removed hw"
  shows "hw_removed (snd (ixgbe_dcb_config_tc_stats_82599 d hw)) = hw_removed hw"
    and "mac (snd (ixgbe_dcb_config_tc_stats_82599 d hw)) = mac hw"
    and "(\<And>n. IXGBE_RQSMR n \<noteq> r) \<Longrightarrow> (\<And>n. IXGBE_TQSM n \<noteq> r) \<Longrightarrow>
      IXGBE_READ_REG (snd (ixgbe_dcb_config_tc_stats_82599 d hw)) r = IXGBE_READ_REG hw r"
proof -
  have f: "hw_removed (for_upto m n (\<lambda>i hw. if P i then hw else IXGBE_WRITE_REG hw (IXGBE_RQSMR i) (g i)) hw) = hw_removed hw"
    "mac (for_upto m n (\<lambda>i hw. if P i then hw else IXGBE_WRITE_REG hw (IXGBE_RQSMR i) (g i)) hw) = mac hw" for m n g P
    by (rule for_upto_frame; simp)+
  have o: "(\<And>n. IXGBE_RQSMR n \<noteq> r) \<Longrightarrow>
    IXGBE_READ_REG (for_upto m n (\<lambda>i hw. if P i then hw else IXGBE_WRITE_REG hw (IXGBE_RQSMR i) (g i)) hw) r = IXGBE_READ_REG hw r" for m n g P
    using assms by (induction n) (auto simp: f)
  show "hw_removed (snd (ixgbe_dcb_config_tc_stats_82599 d hw)) = hw_removed hw" 
    "mac (snd (ixgbe_dcb_config_tc_stats_82599 d hw)) = mac hw"
    by (simp_all add: ixgbe_dcb_config_tc_stats_82599_def Let_def f del: upt_rec_numeral)
  show "(\<And>n. IXGBE_RQSMR n \<noteq> r) \<Longrightarrow> (\<And>n. IXGBE_TQSM n \<noteq> r) \<Longrightarrow>
      IXGBE_READ_REG (snd (ixgbe_dcb_config_tc_stats_82599 d hw)) r = IXGBE_READ_REG hw r"
    using assms by (simp add: ixgbe_dcb_config_tc_stats_82599_def Let_def f o write_loop_other del: upt_rec_numeral)
qed

lemma pfc_82599_frame:
  assumes "\<not> hw_removed hw"
  shows "hw_removed (snd (ixgbe_dcb_config_pfc_82599 pfc_en mp hw)) = hw_removed hw"
    and "IXGBE_READ_REG (snd (ixgbe_dcb_config_pfc_82599 pfc_en mp hw)) (DcbReg r) = IXGBE_READ_REG hw (DcbReg r)"
    and "fst (ixgbe_dcb_config_pfc_82599 pfc_en mp hw) = IXGBE_SUCCESS"
proof -
  let ?P = "\<lambda>h. \<not> hw_removed h \<and> IXGBE_READ_REG h (DcbReg r) = IXGBE_READ_REG hw (DcbReg r)"
  have set_tc: "?P h \<Longrightarrow> ?P (pfc_set_tc pfc_en mp i h)" for h i
    by (simp add: pfc_set_tc_def Let_def)
  have pause: "?P h \<Longrightarrow> ?P (pfc_pause_time h)" for h
    unfolding pfc_pause_time_def Let_def
    by (simp add: write_loop_other del: upt_rec_numeral)
  have "?P (snd (ixgbe_dcb_config_pfc_82599 pfc_en mp hw))"
    unfolding ixgbe_dcb_config_pfc_82599_def Let_def snd_conv
    using assms by (intro pause for_upto_invariant [where P = ?P] set_tc) (simp_all split: if_split)
  then show "hw_removed (snd (ixgbe_dcb_config_pfc_82599 pfc_en mp hw)) = hw_removed hw"
    "IXGBE_READ_REG (snd (ixgbe_dcb_config_pfc_82599 pfc_en mp hw)) (DcbReg r) = IXGBE_READ_REG hw (DcbReg r)"
    using assms by simp_all
  show "fst (ixgbe_dcb_config_pfc_82599 pfc_en mp hw) = IXGBE_SUCCESS"
    by (simp add: ixgbe_dcb_config_pfc_82599_def Let_def)
qed

text \<open>All of it: the configuration survives the statistics and the priority flow control setup.\<close>

lemma hw_config_cee_82599:
  assumes "\<not> hw_removed hw" "dcb_82599_like (mac_type (mac hw))"
    and "\<And>n. IXGBE_RQSMR n \<noteq> DcbReg r" "\<And>n. IXGBE_TQSM n \<noteq> DcbReg r"
  shows "fst (ixgbe_dcb_hw_config_cee c hw) = IXGBE_SUCCESS"
    and "IXGBE_READ_REG (snd (ixgbe_dcb_hw_config_cee c hw)) (DcbReg r) =
      IXGBE_READ_REG (snd (ixgbe_dcb_hw_config_82599 (dcb_unpack c) (snd (ixgbe_dcb_config_82599 c hw)))) (DcbReg r)"
proof -
  let ?h = "snd (ixgbe_dcb_hw_config_82599 (dcb_unpack c) (snd (ixgbe_dcb_config_82599 c hw)))"
  let ?s = "snd (ixgbe_dcb_config_tc_stats_82599 (Some c) ?h)"
  have h: "\<not> hw_removed ?h" "mac ?h = mac hw"
    using hw_config_82599(1,2) [of "snd (ixgbe_dcb_config_82599 c hw)" 0] assms(1)
    by (simp_all add: config_82599_frame)
  note s = tc_stats_82599_frame [OF h(1), where d = "Some c"]
  have t: "mac_type (mac hw) \<noteq> ixgbe_mac_82598EB" using assms(2) by (auto simp: dcb_82599_like_def)
  have "ixgbe_dcb_hw_config_cee c hw = (if pfc_mode_enable c
      then ixgbe_dcb_config_pfc_82599 (ixgbe_dcb_unpack_pfc_cee c (a_map (dcb_unpack c))) (a_map (dcb_unpack c)) ?s
      else (IXGBE_SUCCESS, ?s))"
    using t assms(2) hw_config_82599(3) [of "snd (ixgbe_dcb_config_82599 c hw)" 0 "dcb_unpack c"] assms(1) h(2) s(2)
    by (simp add: ixgbe_dcb_hw_config_cee_def dcb_dispatch_def Let_def case_prod_beta config_82599_frame ixgbe_dcb_config_pfc_def)
  then show "fst (ixgbe_dcb_hw_config_cee c hw) = IXGBE_SUCCESS"
    "IXGBE_READ_REG (snd (ixgbe_dcb_hw_config_cee c hw)) (DcbReg r) = IXGBE_READ_REG ?h (DcbReg r)"
    using pfc_82599_frame [of ?s] s(1) h(1) s(3) [where r = "DcbReg r", OF assms(3,4)] by (simp_all)
qed

section \<open>Decoding\<close>

text \<open>The fields fit.\<close>

definition dcb_fits :: "dcb_arrays \<Rightarrow> nat \<Rightarrow> bool" where
  "dcb_fits a i \<longleftrightarrow> a_refill a ! i \<le> 511 \<and> a_max a ! i \<le> 4095 \<and> a_bwg_id a ! i < 8"

text \<open>Reading a credit register.\<close>

definition tc_reg_is :: "bool \<Rightarrow> dcb_arrays \<Rightarrow> nat \<Rightarrow> u32 \<Rightarrow> bool" where
  "tc_reg_is gsp a i r \<longleftrightarrow> unat (take_bit 9 r) = unat (a_refill a ! i) \<and> unat (take_bit 3 (drop_bit 9 r)) = unat (a_bwg_id a ! i) \<and>
     unat (take_bit 12 (drop_bit 12 r)) = unat (a_max a ! i) \<and>
     (bit r 30 \<longleftrightarrow> gsp \<and> a_tsa a ! i = ixgbe_dcb_tsa_group_strict_cee) \<and> (bit r 31 \<longleftrightarrow> a_tsa a ! i = ixgbe_dcb_tsa_strict)"

lemma dcb_fits_bits:
  assumes "dcb_fits a i"
  shows "bit (a_refill a ! i) n \<Longrightarrow> n < 9" "bit (a_bwg_id a ! i) n \<Longrightarrow> n < 3" "bit (a_max a ! i) n \<Longrightarrow> n < 12"
  using assms small_bit [of "a_refill a ! i" 9 n] small_bit [of "a_bwg_id a ! i" 3 n] small_bit [of "a_max a ! i" 12 n]
  by (auto simp: dcb_fits_def word_less_nat_alt word_le_nat_alt)

lemma bit_GSP_LSP: "bit (0x40000000 :: u32) n \<longleftrightarrow> n = 30" "bit (0x80000000 :: u32) n \<longleftrightarrow> n = 31"
  using bit_exp_iff [of 30 n, where 'a = u32] bit_exp_iff [of 31 n, where 'a = u32] by auto

lemma tc_reg_fields:
  "tc_reg gsp a i = ucast (a_refill a ! i) OR push_bit 12 (ucast (a_max a ! i)) OR push_bit 9 (ucast (a_bwg_id a ! i)) OR
     (if gsp \<and> a_tsa a ! i = ixgbe_dcb_tsa_group_strict_cee then IXGBE_TC_GSP else 0) OR
     (if a_tsa a ! i = ixgbe_dcb_tsa_strict then IXGBE_TC_LSP else 0)"
  by (simp add: tc_reg_def Let_def or.assoc)

lemma tc_reg_bit:
  assumes "dcb_fits a i" "n < 32"
  shows "bit (tc_reg gsp a i) n \<longleftrightarrow> bit (a_refill a ! i) n \<or> 12 \<le> n \<and> bit (a_max a ! i) (n - 12) \<or>
    9 \<le> n \<and> bit (a_bwg_id a ! i) (n - 9) \<or> n = 30 \<and> gsp \<and> a_tsa a ! i = ixgbe_dcb_tsa_group_strict_cee \<or>
    n = 31 \<and> a_tsa a ! i = ixgbe_dcb_tsa_strict"
proof -
  have "bit (ucast (a_refill a ! i) :: u32) n = bit (a_refill a ! i) n"
    "bit (push_bit 12 (ucast (a_max a ! i) :: u32)) n \<longleftrightarrow> 12 \<le> n \<and> bit (a_max a ! i) (n - 12)"
    "bit (push_bit 9 (ucast (a_bwg_id a ! i)) :: u32) n \<longleftrightarrow> 9 \<le> n \<and> bit (a_bwg_id a ! i) (n - 9)"
    using assms(2) by (auto simp: bit_unsigned_iff bit_push_bit_iff)
  moreover have "bit (if P then IXGBE_TC_GSP else 0) n \<longleftrightarrow> n = 30 \<and> P" "bit (if P then IXGBE_TC_LSP else 0) n \<longleftrightarrow> n = 31 \<and> P" for P
    by (simp_all only: bit_GSP_LSP bit_0_eq bot_apply bot_bool_def split: if_split) blast+
  ultimately show ?thesis unfolding tc_reg_fields bit_or_iff by (simp only: simp_thms disj_assoc)
qed

lemma tc_reg_decodes:
  assumes "dcb_fits a i"
  shows "tc_reg_is gsp a i (tc_reg gsp a i)"
proof -
  let ?r = "tc_reg gsp a i"
  note b = tc_reg_bit [OF assms, of _ gsp] and s = bit_take_bit_iff bit_drop_bit_eq bit_unsigned_iff and d = dcb_fits_bits [OF assms]
  have "take_bit 9 ?r = ucast (a_refill a ! i)"
    by (rule bit_word_eqI) (auto simp: s b dest: d)
  moreover have "take_bit 3 (drop_bit 9 ?r) = ucast (a_bwg_id a ! i)"
  proof (rule bit_word_eqI)
    show "bit (take_bit 3 (drop_bit 9 ?r)) n = bit (ucast (a_bwg_id a ! i) :: u32) n" if "n < LENGTH(32)" for n
      using that by (cases "n < 3") (auto simp: s b dest: d)
  qed
  moreover have "take_bit 12 (drop_bit 12 ?r) = ucast (a_max a ! i)"
  proof (rule bit_word_eqI)
    show "bit (take_bit 12 (drop_bit 12 ?r)) n = bit (ucast (a_max a ! i) :: u32) n" if "n < LENGTH(32)" for n
      using that by (cases "n < 12") (auto simp: s b dest: d)
  qed
  moreover have "bit ?r 30 \<longleftrightarrow> gsp \<and> a_tsa a ! i = ixgbe_dcb_tsa_group_strict_cee" "bit ?r 31 \<longleftrightarrow> a_tsa a ! i = ixgbe_dcb_tsa_strict"
    by (auto simp: b dest: d)
  ultimately show ?thesis unfolding tc_reg_is_def by (simp add: unat_ucast_up)
qed

lemma up2tc_loop_bit:
  assumes "\<And>up. up < 8 \<Longrightarrow> mp ! up < (8 :: u8)" "m \<le> 8"
  shows "bit (for_upto 0 m (\<lambda>i reg. reg OR push_bit (i * 3) (ucast (mp ! i))) (0 :: u32)) n \<longleftrightarrow> n div 3 < m \<and> bit (mp ! (n div 3)) (n mod 3)"
  using assms(2)
proof (induction m)
  case 0
  then show ?case by simp
next
  case (Suc m)
  have out: "\<not> bit (mp ! m) k" if "3 \<le> k" for k
    using that small_bit [of "mp ! m" 3 k] assms(1) [of m] Suc.prems by (auto simp: word_less_nat_alt)
  have "bit (push_bit (m * 3) (ucast (mp ! m)) :: u32) n \<longleftrightarrow> n div 3 = m \<and> bit (mp ! m) (n mod 3)"
  proof (cases "n div 3 = m")
    case True
    then have n: "n = m * 3 + n mod 3" by presburger
    have "n - m * 3 = n mod 3" "m * 3 \<le> n" "n < 32" using n Suc.prems by linarith+
    moreover have "n mod 3 < 32" by (rule less_trans [of _ 3]) simp_all
    ultimately show ?thesis using True by (simp add: bit_simps)
  next
    case False
    then have "n < m * 3 \<or> 3 \<le> n - m * 3" by presburger
    then show ?thesis using False out by (auto simp: bit_simps)
  qed
  then show ?case using Suc by (auto simp: bit_or_iff less_Suc_eq)
qed

lemma up2tc_decodes:
  assumes "\<And>up. up < 8 \<Longrightarrow> mp ! up < 8" "up < 8"
  shows "unat (take_bit 3 (drop_bit (3 * up) (up2tc_reg mp))) = unat (mp ! up)"
proof -
  have out: "\<not> bit (mp ! up) k" if "3 \<le> k" for k
    using that small_bit [of "mp ! up" 3 k] assms(1) [OF assms(2)] by (auto simp: word_less_nat_alt)
  have "take_bit 3 (drop_bit (3 * up) (up2tc_reg mp)) = ucast (mp ! up)"
  proof (rule bit_word_eqI)
    fix n assume "n < LENGTH(32)"
    moreover have "n < 3 \<Longrightarrow> (3 * up + n) div 3 = up \<and> (3 * up + n) mod 3 = n" by simp
    ultimately show "bit (take_bit 3 (drop_bit (3 * up) (up2tc_reg mp))) n = bit (ucast (mp ! up) :: u32) n"
      using assms(2) out unfolding up2tc_reg_def
      by (cases "n < 3") (auto simp: bit_take_bit_iff bit_drop_bit_eq bit_unsigned_iff up2tc_loop_bit [OF assms(1) order.refl] simp del: upt_rec_numeral)
  qed
  then show ?thesis by (simp add: unat_ucast_up)
qed

section \<open>From a configuration to the registers\<close>

lemma tc_search_le: "tc_search c dir up k \<le> k"
  by (induction k) auto

lemma tc_search_numeral:
  "tc_search c dir up (numeral k) =
     (if push_bit up 1 AND up_to_tc_bitmap (tc_path c dir (numeral k)) \<noteq> 0 then numeral k else tc_search c dir up (pred_numeral k))"
  by (simp add: numeral_eq_Suc)

lemma tc_search_cong:
  "(\<And>j. j \<le> k \<Longrightarrow> up_to_tc_bitmap (tc_path c' dir j) = up_to_tc_bitmap (tc_path c dir j)) \<Longrightarrow>
   tc_search c' dir up k = tc_search c dir up k"
  by (induction k) auto

lemma tc_from_up_less: "unat (pg_tcs c) \<le> 8 \<Longrightarrow> ixgbe_dcb_get_tc_from_up c dir up < 8"
proof -
  assume "unat (pg_tcs c) \<le> 8"
  with tc_search_le [of c dir up "unat (pg_tcs c) - 1"] have "tc_search c dir up (unat (pg_tcs c) - 1) \<le> 7" by linarith
  then show ?thesis by (simp add: ixgbe_dcb_get_tc_from_up_def word_less_nat_alt unsigned_of_nat take_bit_nat_eq_self)
qed

lemma credits_cee_fit:
  assumes "dcb_wf c" "dcb_rules (\<lambda>n. n) c 0" "unat f \<le> 65408" "unat (pg_tcs c) \<le> 8"
    and "ixgbe_dcb_calculate_tc_credits_cee t (Some c) f 0 = (st, Some c')" "i < 8"
  shows "dcb_fits (dcb_unpack c') i"
    and "up < 8 \<Longrightarrow> a_map (dcb_unpack c') ! up = ixgbe_dcb_get_tc_from_up c 0 up"
    and "a_bwg_id (dcb_unpack c') ! i = bwg_id (tc_path c 0 i)" "a_tsa (dcb_unpack c') ! i = tsa (tc_path c 0 i)"
proof -
  let ?mm = "min_credit_cee f div ucast (min_percent_cee c 0) + 1"
  have sh: "unat (tc_share c 0 i) \<le> 100"
    using raw_link_percent_le rules_percent [OF assms(2,6)] by blast
  have mc: "min_credit_cee f \<le> 511" by (rule min_credit_le [OF assms(3)])
  note r = tc_refill_range [OF mc, of ?mm "tc_share c 0 i"] and m = tc_credit_max_range [OF mc sh, of t 0]
  have r4: "tc_refill (min_credit_cee f) ?mm (tc_share c 0 i) \<le> 4095" using r by (auto intro: order.trans)
  note cr = credits_cee [OF assms(1) _ assms(5)]
  have ok: "path_ok (tc_path c 0 i)" using assms(2,6) by (auto simp: dcb_rules_def Let_def)
  show "dcb_fits (dcb_unpack c') i"
    using cr(5,6) [OF _ assms(6)] r m ucast_u16_small [OF r4] ucast_u16_small [OF conjunct2 [OF m]] ok assms(6)
    by (simp add: dcb_fits_def dcb_unpack_def ixgbe_dcb_unpack_refill_cee_def ixgbe_dcb_unpack_max_cee_def
        ixgbe_dcb_unpack_bwgid_cee_def path_ok_def word_le_nat_alt word_less_nat_alt del: upt_rec_numeral)
  show "a_bwg_id (dcb_unpack c') ! i = bwg_id (tc_path c 0 i)" "a_tsa (dcb_unpack c') ! i = tsa (tc_path c 0 i)"
    using cr(5) [OF _ assms(6)] assms(6)
    by (simp_all add: dcb_unpack_def ixgbe_dcb_unpack_bwgid_cee_def ixgbe_dcb_unpack_tsa_cee_def del: upt_rec_numeral)
  have "tc_search c' 0 up (unat (pg_tcs c) - 1) = tc_search c 0 up (unat (pg_tcs c) - 1)" for up
    using assms(4) cr(5) by (intro tc_search_cong) simp
  then show "up < 8 \<Longrightarrow> a_map (dcb_unpack c') ! up = ixgbe_dcb_get_tc_from_up c 0 up"
    using cr(4) [OF _ assms(6)]
    by (simp add: dcb_unpack_def ixgbe_dcb_unpack_map_cee_def ixgbe_dcb_get_tc_from_up_def del: upt_rec_numeral)
qed

text \<open>
  C7. A configuration that satisfies the rules reaches the registers of an 82599 or later intact: after
  computing the transmit credits and configuring the hardware, every credit register of the three
  arbiters decodes to the refill and maximum credits, the bandwidth group and the strictness of its
  traffic class, both priority maps decode to the traffic class of each priority, and the arbiters
  are enabled, whatever priority flow control and statistics setup follows.
\<close>

theorem dcb_cee_reaches_hardware:
  assumes "dcb_wf c" "dcb_rules (\<lambda>n. n) c 0" "unat f \<le> 65408" "unat (pg_tcs c) \<le> 8"
    and "\<not> hw_removed hw" "dcb_82599_like (mac_type (mac hw))" "i < 8" "up < 8"
    and "ixgbe_dcb_calculate_tc_credits_cee (mac_type (mac hw)) (Some c) f IXGBE_DCB_TX_CONFIG = (st, Some c')"
    and "ixgbe_dcb_hw_config_cee c' hw = (st', hw')"
  shows "st' = IXGBE_SUCCESS \<and>
    tc_reg_is False (dcb_unpack c') i (IXGBE_READ_REG hw' (IXGBE_RTRPT4C i)) \<and>
    tc_reg_is True (dcb_unpack c') i (IXGBE_READ_REG hw' (IXGBE_RTTDT2C i)) \<and>
    tc_reg_is True (dcb_unpack c') i (IXGBE_READ_REG hw' (IXGBE_RTTPT2C i)) \<and>
    a_bwg_id (dcb_unpack c') ! i = bwg_id (tc_path c 0 i) \<and> a_tsa (dcb_unpack c') ! i = tsa (tc_path c 0 i) \<and>
    unat (take_bit 3 (drop_bit (3 * up) (IXGBE_READ_REG hw' IXGBE_RTRUP2TC))) = unat (ixgbe_dcb_get_tc_from_up c 0 up) \<and>
    unat (take_bit 3 (drop_bit (3 * up) (IXGBE_READ_REG hw' IXGBE_RTTUP2TC))) = unat (ixgbe_dcb_get_tc_from_up c 0 up) \<and>
    IXGBE_READ_REG hw' IXGBE_RTRPCS AND IXGBE_RTRPCS_ARBDIS = 0 \<and> IXGBE_READ_REG hw' IXGBE_RTTDCS AND IXGBE_RTTDCS_ARBDIS = 0 \<and>
    IXGBE_READ_REG hw' IXGBE_RTTPCS AND IXGBE_RTTPCS_ARBDIS = 0"
proof -
  let ?a = "dcb_unpack c'"
  note fit = credits_cee_fit [OF assms(1-4,9)]
  have "\<not> hw_removed (snd (ixgbe_dcb_config_82599 c' hw))" using assms(5) by (simp add: config_82599_frame)
  note h = hw_config_82599 [OF this assms(7), where a = ?a] and k = hw_config_cee_82599 [OF assms(5,6), where c = c']
  have mp: "\<And>up. up < 8 \<Longrightarrow> a_map ?a ! up < 8"
    using fit(2) [OF assms(7)] tc_from_up_less [OF assms(4)] by simp
  have st: "st' = IXGBE_SUCCESS" "hw' = snd (ixgbe_dcb_hw_config_cee c' hw)"
    using k(1) [where r = RTRPCS] assms(10) by simp_all
  show ?thesis
    using st(1) fit(3,4) [OF assms(7)] up2tc_decodes [OF mp assms(8)] fit(2) [OF assms(7,8)]
      tc_reg_decodes [OF fit(1) [OF assms(7)]]
    by (simp add: st(2) k(2) h)
qed

theorem dcb_cee_reaches_hardware_witness:
  "\<exists>c'. ixgbe_dcb_calculate_tc_credits_cee ixgbe_mac_82599EB (Some (dcb_example [100, 0, 0, 0, 0, 0, 0, 0])) 1518 0 = (IXGBE_SUCCESS, Some c') \<and>
     bit (IXGBE_READ_REG (snd (ixgbe_dcb_hw_config_cee c' hw_reset)) (IXGBE_RTTDT2C 3)) 31 \<and>
     unat (take_bit 3 (drop_bit 15 (IXGBE_READ_REG (snd (ixgbe_dcb_hw_config_cee c' hw_reset)) IXGBE_RTTUP2TC))) = 5"
proof -
  let ?c = "dcb_example [100, 0, 0, 0, 0, 0, 0, 0]"
  obtain st c' where r: "ixgbe_dcb_calculate_tc_credits_cee (mac_type (mac hw_reset)) (Some ?c) 1518 0 = (st, Some c')"
    by (simp add: ixgbe_dcb_calculate_tc_credits_cee_def Let_def)
  obtain st' hw' where q: "ixgbe_dcb_hw_config_cee c' hw_reset = (st', hw')" by (metis surj_pair)
  have rules: "dcb_rules (\<lambda>n. n) ?c 0" by (simp add: dcb_example_rules upt_rec)
  have pgtcs: "pg_tcs ?c = 8" by (simp add: dcb_example_def)
  then have p: "unat (pg_tcs ?c) \<le> 8" by simp
  have m: "dcb_82599_like (mac_type (mac hw_reset))" "\<not> hw_removed hw_reset" by (simp_all add: hw_reset_def dcb_82599_like_def)
  have up: "ixgbe_dcb_get_tc_from_up ?c 0 5 = 5"
    by (simp add: ixgbe_dcb_get_tc_from_up_def tc_search_numeral dcb_example_path dcb_example_path_def pgtcs)
  from dcb_cee_reaches_hardware [OF dcb_example_wf rules _ p m(2,1) _ _ r q, of 3 5] r q up credits_cee(1) [OF dcb_example_wf _ r, of 0]
  show ?thesis
    by (auto simp: tc_reg_is_def dcb_example_path dcb_example_path_def hw_reset_def)
qed

end
