(* ===== verification/Ixgbe_Adapter.thy ===== *)
theory Ixgbe_Adapter
  imports Ixgbe_Rar Ixgbe_Vlan Ixgbe_Mta "HOL-Library.Multiset"
begin

text \<open>
  The adapter structure of the Linux driver (\<open>struct ixgbe_adapter\<close>, \<open>ixgbe.h\<close>) and the software
  table of MAC filters (\<open>ixgbe_main.c\<close>), which is the owner of the receive address registers.  The
  lemmas relate the software table to a multiset of (address, pool) pairs and to what the hardware
  delivers.
\<close>

unbundle bit_operations_syntax

section \<open>Data\<close>

record ixgbe_mac_addr =
  tbl_addr :: "u8 list"
  tbl_pool :: u16
  tbl_state :: u16

abbreviation IXGBE_MAC_STATE_DEFAULT :: u16 where "IXGBE_MAC_STATE_DEFAULT \<equiv> 0x1"
abbreviation IXGBE_MAC_STATE_MODIFIED :: u16 where "IXGBE_MAC_STATE_MODIFIED \<equiv> 0x2"
abbreviation IXGBE_MAC_STATE_IN_USE :: u16 where "IXGBE_MAC_STATE_IN_USE \<equiv> 0x4"

record vf_data_storage =
  vf_mac_addresses :: "u8 list"
  vf_mc_hashes :: "u16 list"
  num_vf_mc_hashes :: nat
  clear_to_send :: bool
  pf_set_mac :: bool
  pf_vlan :: u16
  pf_qos :: u16
  tx_rate :: u16
  link_enable :: bool
  link_state :: int
  spoofchk_enabled :: bool
  rss_query_enabled :: bool
  trusted :: bool
  xcast_mode :: int
  vf_api :: u32

record vf_macvlans =
  mv_vf :: int
  mv_free :: bool
  is_macvlan :: bool
  vf_macvlan :: "u8 list"

text \<open>What the modelled code reads of the network device.\<close>

record net_device =
  running :: bool
  promisc :: bool
  allmulti :: bool
  mc_list :: "u8 list list"
  mtu :: int
  num_tc :: u8
  prio_tc_map :: "u8 \<Rightarrow> u8"
  vlan_ctag_filter :: bool
  vlan_ctag_rx :: bool

text \<open>
  The flags that the modelled code tests are Boolean fields; \<open>vmdq_offset\<close> and \<open>vmdq_mask\<close> are those
  of \<open>ring_feature[RING_F_VMDQ]\<close>, \<open>rx_reg_idx\<close> has the register index of each receive ring.
\<close>

record ixgbe_adapter =
  hw :: ixgbe_hw
  netdev :: net_device
  mac_table :: "ixgbe_mac_addr list"
  vmdq_offset :: nat
  vmdq_mask :: u16
  sriov_enabled :: bool
  vmdq_enabled :: bool
  dcb_enabled :: bool
  mdd_enabled :: bool
  vlan_promisc :: bool
  is_down :: bool
  active_vlans :: "nat \<Rightarrow> bool"
  num_rx_pools :: nat
  rx_reg_idx :: "nat list"
  num_vfs :: nat
  vfinfo :: "vf_data_storage list"
  vf_mvs :: "vf_macvlans list"
  default_up :: u8
  rss_indir_tbl :: "u8 list"
  rss_key :: "u32 list"
  link_speed :: u32
  link_up :: bool
  vf_rate_link_speed :: int
  stray_write :: bool

abbreviation VMDQ_P :: "ixgbe_adapter \<Rightarrow> nat \<Rightarrow> nat" where
  "VMDQ_P a p \<equiv> p + vmdq_offset a"

definition is_zero_ether_addr :: "u8 list \<Rightarrow> bool" where
  "is_zero_ether_addr a \<longleftrightarrow> list_all (\<lambda>b. b = 0) a"

definition is_valid_ether_addr :: "u8 list \<Rightarrow> bool" where
  "is_valid_ether_addr a \<longleftrightarrow> a ! 0 AND 1 = 0 \<and> \<not> is_zero_ether_addr a"

section \<open>The table of MAC filters\<close>

definition in_use :: "ixgbe_mac_addr \<Rightarrow> bool" where
  "in_use e \<longleftrightarrow> tbl_state e AND IXGBE_MAC_STATE_IN_USE \<noteq> 0"

definition modified :: "ixgbe_mac_addr \<Rightarrow> bool" where
  "modified e \<longleftrightarrow> tbl_state e AND IXGBE_MAC_STATE_MODIFIED \<noteq> 0"

abbreviation num_rars :: "ixgbe_adapter \<Rightarrow> nat" where
  "num_rars a \<equiv> unat (num_rar_entries (mac (hw a)))"

text \<open>The body of both synchronization loops: entry \<open>i\<close> is written to or removed from the hardware.\<close>

definition sync_entry :: "nat \<Rightarrow> ixgbe_adapter \<Rightarrow> ixgbe_adapter" where
  "sync_entry i a =
     (let e = mac_table a ! i;
          e = e\<lparr>tbl_state := tbl_state e AND NOT IXGBE_MAC_STATE_MODIFIED\<rparr>;
          a = a\<lparr>mac_table := (mac_table a)[i := e]\<rparr>
      in if in_use e
         then a\<lparr>hw := snd (ixgbe_set_rar_generic (hw a) (of_nat i) (tbl_addr e) (ucast (tbl_pool e)) IXGBE_RAH_AV)\<rparr>
         else a\<lparr>hw := snd (ixgbe_clear_rar_generic (hw a) (of_nat i))\<rparr>)"

definition ixgbe_full_sync_mac_table :: "ixgbe_adapter \<Rightarrow> ixgbe_adapter" where
  "ixgbe_full_sync_mac_table a = for_upto 0 (num_rars a) sync_entry a"

definition ixgbe_sync_mac_table :: "ixgbe_adapter \<Rightarrow> ixgbe_adapter" where
  "ixgbe_sync_mac_table a =
     for_upto 0 (num_rars a) (\<lambda>i a. if \<not> modified (mac_table a ! i) then a else sync_entry i a) a"

definition ixgbe_available_rars :: "ixgbe_adapter \<Rightarrow> u16 \<Rightarrow> nat" where
  "ixgbe_available_rars a pool =
     for_upto 0 (num_rars a) (\<lambda>i count.
       let e = mac_table a ! i in
       if tbl_state e AND IXGBE_MAC_STATE_DEFAULT \<noteq> 0 then count
       else if in_use e \<and> tbl_pool e \<noteq> pool then count
       else count + 1) 0"

definition ixgbe_mac_set_default_filter :: "ixgbe_adapter \<Rightarrow> ixgbe_adapter" where
  "ixgbe_mac_set_default_filter a =
     (let e = \<lparr>tbl_addr = mac_addr (mac (hw a)), tbl_pool = of_nat (VMDQ_P a 0),
               tbl_state = IXGBE_MAC_STATE_DEFAULT OR IXGBE_MAC_STATE_IN_USE\<rparr>
      in a\<lparr>mac_table := (mac_table a)[0 := e],
           hw := snd (ixgbe_set_rar_generic (hw a) 0 (tbl_addr e) (ucast (tbl_pool e)) IXGBE_RAH_AV)\<rparr>)"

text \<open>
  The loops that search the table return in their body; \<open>List.find\<close> gives the index at which
  they do.
\<close>

definition ixgbe_add_mac_filter :: "ixgbe_adapter \<Rightarrow> u8 list \<Rightarrow> u16 \<Rightarrow> int \<times> ixgbe_adapter" where
  "ixgbe_add_mac_filter a addr pool =
     (if is_zero_ether_addr addr then (- EINVAL, a)
      else case List.find (\<lambda>i. \<not> in_use (mac_table a ! i)) [0..<num_rars a] of
          None \<Rightarrow> (- ENOMEM, a)
        | Some i \<Rightarrow>
            let e = mac_table a ! i;
                e = e\<lparr>tbl_addr := addr, tbl_pool := pool,
                      tbl_state := tbl_state e OR IXGBE_MAC_STATE_MODIFIED OR IXGBE_MAC_STATE_IN_USE\<rparr>
            in (int i, ixgbe_sync_mac_table (a\<lparr>mac_table := (mac_table a)[i := e]\<rparr>)))"

definition drop_entry :: "ixgbe_mac_addr \<Rightarrow> ixgbe_mac_addr" where
  "drop_entry e = e\<lparr>tbl_state := (tbl_state e OR IXGBE_MAC_STATE_MODIFIED) AND NOT IXGBE_MAC_STATE_IN_USE\<rparr>"

definition ixgbe_flush_sw_mac_table :: "ixgbe_adapter \<Rightarrow> ixgbe_adapter" where
  "ixgbe_flush_sw_mac_table a =
     ixgbe_sync_mac_table
       (for_upto 0 (num_rars a) (\<lambda>i a. a\<lparr>mac_table := (mac_table a)[i := drop_entry (mac_table a ! i)]\<rparr>) a)"

definition ixgbe_del_mac_filter :: "ixgbe_adapter \<Rightarrow> u8 list \<Rightarrow> u16 \<Rightarrow> int \<times> ixgbe_adapter" where
  "ixgbe_del_mac_filter a addr pool =
     (if is_zero_ether_addr addr then (- EINVAL, a)
      else case List.find (\<lambda>i. let e = mac_table a ! i in in_use e \<and> tbl_pool e = pool \<and> tbl_addr e = addr)
            [0..<num_rars a] of
          None \<Rightarrow> (- ENOMEM, a)
        | Some i \<Rightarrow>
            (0, ixgbe_sync_mac_table (a\<lparr>mac_table := (mac_table a)[i := drop_entry (mac_table a ! i)]\<rparr>)))"

definition ixgbe_uc_sync :: "ixgbe_adapter \<Rightarrow> u8 list \<Rightarrow> int \<times> ixgbe_adapter" where
  "ixgbe_uc_sync a addr = (case ixgbe_add_mac_filter a addr (of_nat (VMDQ_P a 0)) of (r, a) \<Rightarrow> (min r 0, a))"

definition ixgbe_uc_unsync :: "ixgbe_adapter \<Rightarrow> u8 list \<Rightarrow> int \<times> ixgbe_adapter" where
  "ixgbe_uc_unsync a addr = (0, snd (ixgbe_del_mac_filter a addr (of_nat (VMDQ_P a 0))))"

section \<open>Synchronization\<close>

lemma in_use_bit: "in_use e \<longleftrightarrow> bit (tbl_state e) 2" and modified_bit: "modified e \<longleftrightarrow> bit (tbl_state e) 1"
  using and_exp_eq_0_iff_not_bit [of "tbl_state e" 2] and_exp_eq_0_iff_not_bit [of "tbl_state e" 1]
  by (simp_all add: in_use_def modified_def)

lemma tbl_flags [simp]:
  "modified (drop_entry e)" "\<not> in_use (drop_entry e)"
  "tbl_addr (drop_entry e) = tbl_addr e" "tbl_pool (drop_entry e) = tbl_pool e"
  by (simp_all add: in_use_bit modified_bit drop_entry_def bit_and_iff bit_or_iff)

definition unmodify :: "ixgbe_mac_addr \<Rightarrow> ixgbe_mac_addr" where
  "unmodify e = e\<lparr>tbl_state := tbl_state e AND NOT IXGBE_MAC_STATE_MODIFIED\<rparr>"

lemma unmodify [simp]:
  "in_use (unmodify e) = in_use e" "\<not> modified (unmodify e)" "tbl_addr (unmodify e) = tbl_addr e" "tbl_pool (unmodify e) = tbl_pool e"
  by (simp_all add: unmodify_def in_use_bit modified_bit bit_and_iff)

lemma of_nat_rar: "i < unat (n :: u32) \<Longrightarrow> of_nat i < n \<and> unat (of_nat i :: u32) = i"
proof -
  assume i: "i < unat n"
  then have "i < 2 ^ 32" using unsigned_less [where 'a = nat, of n] by simp
  then have "unat (of_nat i :: u32) = i" by (simp add: unsigned_of_nat take_bit_nat_eq_self)
  with i show ?thesis by (simp add: word_less_nat_alt)
qed

lemma sync_entry_unmodify:
  "sync_entry i a =
     (let e = unmodify (mac_table a ! i); a = a\<lparr>mac_table := (mac_table a)[i := e]\<rparr>
      in if in_use e
         then a\<lparr>hw := snd (ixgbe_set_rar_generic (hw a) (of_nat i) (tbl_addr e) (ucast (tbl_pool e)) IXGBE_RAH_AV)\<rparr>
         else a\<lparr>hw := snd (ixgbe_clear_rar_generic (hw a) (of_nat i))\<rparr>)"
  unfolding sync_entry_def unmodify_def Let_def ..

lemma sync_entry_frame:
  "mac_table (sync_entry i a) = (mac_table a)[i := unmodify (mac_table a ! i)]"
  "sync_entry i a = a\<lparr>hw := hw (sync_entry i a), mac_table := mac_table (sync_entry i a)\<rparr>"
  by (simp_all add: sync_entry_unmodify Let_def)

lemma sync_entry_hw:
  assumes "\<not> hw_removed (hw a)" "i < num_rars a" "in_use (mac_table a ! i) \<Longrightarrow> tbl_pool (mac_table a ! i) < 64"
  defines "e \<equiv> mac_table a ! i" and "a' \<equiv> sync_entry i a"
  shows "\<not> hw_removed (hw a')" "mac (hw a') = mac (hw a)" "addr_ctrl (hw a') = addr_ctrl (hw a)"
    and "rar_valid (hw a') j \<longleftrightarrow> (if j = i then in_use e else rar_valid (hw a) j)"
    and "rar_image (hw a') j = (if j = i then if in_use e then (addr_low (tbl_addr e), addr_high (tbl_addr e)) else (0, 0) else rar_image (hw a) j)"
    and "p < 64 \<Longrightarrow> rar_pool (hw a') j p \<longleftrightarrow> (if j = i then in_use e \<and> (rar_pool (hw a) i p \<or> p = unat (tbl_pool e)) else rar_pool (hw a) j p)"
proof -
  note i = of_nat_rar [OF assms(2)]
  have pool: "unat (ucast (tbl_pool e) :: u32) = unat (tbl_pool e)" by (rule unat_ucast_up) simp
  have "\<not> hw_removed (hw a') \<and> mac (hw a') = mac (hw a) \<and> addr_ctrl (hw a') = addr_ctrl (hw a) \<and>
    rar_valid (hw a') j = (if j = i then in_use e else rar_valid (hw a) j) \<and>
    rar_image (hw a') j = (if j = i then if in_use e then (addr_low (tbl_addr e), addr_high (tbl_addr e)) else (0, 0) else rar_image (hw a) j) \<and>
    (p < 64 \<longrightarrow> rar_pool (hw a') j p = (if j = i then in_use e \<and> (rar_pool (hw a) i p \<or> p = unat (tbl_pool e)) else rar_pool (hw a) j p))"
  proof (cases "in_use e")
    case True
    obtain st h where r: "ixgbe_set_rar_generic (hw a) (of_nat i) (tbl_addr e) (ucast (tbl_pool e)) IXGBE_RAH_AV = (st, h)"
      by (metis surj_pair)
    have "hw a' = h" using True r by (simp add: a'_def sync_entry_unmodify Let_def e_def [symmetric])
    moreover have "(ucast (tbl_pool e) :: u32) < 64" using assms(3) True pool by (simp add: word_less_nat_alt e_def)
    ultimately show ?thesis using set_rar_effect [OF assms(1) conjunct1 [OF i] _ r] i pool assms(1) True by auto
  next
    case False
    obtain st h where r: "ixgbe_clear_rar_generic (hw a) (of_nat i) = (st, h)" by (metis surj_pair)
    have "hw a' = h" using False r by (simp add: a'_def sync_entry_unmodify Let_def e_def [symmetric])
    then show ?thesis using clear_rar_effect [OF assms(1) conjunct1 [OF i] r] i assms(1) False by auto
  qed
  then show "\<not> hw_removed (hw a')" "mac (hw a') = mac (hw a)" "addr_ctrl (hw a') = addr_ctrl (hw a)"
    "rar_valid (hw a') j \<longleftrightarrow> (if j = i then in_use e else rar_valid (hw a) j)"
    "rar_image (hw a') j = (if j = i then if in_use e then (addr_low (tbl_addr e), addr_high (tbl_addr e)) else (0, 0) else rar_image (hw a) j)"
    "p < 64 \<Longrightarrow> rar_pool (hw a') j p \<longleftrightarrow> (if j = i then in_use e \<and> (rar_pool (hw a) i p \<or> p = unat (tbl_pool e)) else rar_pool (hw a) j p)"
    by blast+
qed

lemma fold_skip: "(\<And>i. i \<in> set xs \<Longrightarrow> f i s = s) \<Longrightarrow> fold f xs s = s"
  by (induction xs) auto

lemma sync_single:
  assumes "i < num_rars a" "length (mac_table a) = num_rars a" "modified (mac_table a ! i)"
    and "\<And>j. j < num_rars a \<Longrightarrow> j \<noteq> i \<Longrightarrow> \<not> modified (mac_table a ! j)"
  shows "ixgbe_sync_mac_table a = sync_entry i a"
proof -
  let ?f = "\<lambda>i a. if \<not> modified (mac_table a ! i) then a else sync_entry i a"
  let ?n = "num_rars a"
  have split: "[0..<?n] = [0..<i] @ i # [Suc i..<?n]"
  proof -
    have "[0..<?n] = [0..<i] @ [i..<?n]" using upt_add_eq_append [of 0 i "?n - i"] assms(1) by simp
    also have "[i..<?n] = i # [Suc i..<?n]" using assms(1) by (rule upt_conv_Cons)
    finally show ?thesis .
  qed
  have "fold ?f [0..<i] a = a" using assms(1,4) by (intro fold_skip) auto
  moreover have "fold ?f [Suc i..<?n] (sync_entry i a) = sync_entry i a"
    using assms(2,4) by (intro fold_skip) (auto simp: sync_entry_frame(1))
  ultimately show ?thesis
    using assms(3) unfolding ixgbe_sync_mac_table_def split fold_append fold.simps o_apply by presburger
qed

section \<open>The multiset of filters\<close>

definition mac_filters :: "ixgbe_adapter \<Rightarrow> (u8 list \<times> nat) multiset" where
  "mac_filters a = image_mset (\<lambda>e. (tbl_addr e, unat (tbl_pool e))) (filter_mset in_use (mset (mac_table a)))"

text \<open>
  The invariant: the hardware holds exactly the entries in use, each for exactly its pool, and
  no entry waits for synchronization.
\<close>

definition mac_inv :: "ixgbe_adapter \<Rightarrow> bool" where
  "mac_inv a \<longleftrightarrow> \<not> hw_removed (hw a) \<and> length (mac_table a) = num_rars a \<and>
     (\<forall>i < num_rars a. let e = mac_table a ! i in
        \<not> modified e \<and> (in_use e \<longrightarrow> length (tbl_addr e) = 6 \<and> tbl_pool e < 64) \<and>
        (if in_use e then rar_holds (hw a) i (tbl_addr e) else \<not> rar_valid (hw a) i) \<and>
        (\<forall>p < 64. rar_pool (hw a) i p \<longleftrightarrow> in_use e \<and> p = unat (tbl_pool e)))"

lemma mac_filters_mem:
  "(addr, p) \<in># mac_filters a \<longleftrightarrow> (\<exists>i < length (mac_table a). in_use (mac_table a ! i) \<and>
     tbl_addr (mac_table a ! i) = addr \<and> unat (tbl_pool (mac_table a ! i)) = p)"
  by (auto simp: mac_filters_def in_set_conv_nth image_iff) 

lemma mac_inv_delivers:
  assumes "mac_inv a" "p < 64" "length addr = 6"
  shows "(\<exists>i < num_rars a. rar_holds (hw a) i addr \<and> rar_pool (hw a) i p) \<longleftrightarrow> (addr, p) \<in># mac_filters a"
proof -
  have "rar_holds (hw a) i addr \<and> rar_pool (hw a) i p \<longleftrightarrow>
    in_use (mac_table a ! i) \<and> tbl_addr (mac_table a ! i) = addr \<and> unat (tbl_pool (mac_table a ! i)) = p" if "i < num_rars a" for i
  proof -
    have "if in_use (mac_table a ! i) then rar_holds (hw a) i (tbl_addr (mac_table a ! i)) else \<not> rar_valid (hw a) i"
      "in_use (mac_table a ! i) \<Longrightarrow> length (tbl_addr (mac_table a ! i)) = 6"
      "rar_pool (hw a) i p \<longleftrightarrow> in_use (mac_table a ! i) \<and> p = unat (tbl_pool (mac_table a ! i))"
      using assms(1,2) that by (simp_all add: mac_inv_def Let_def)
    then show ?thesis using addr_image_inject [OF _ assms(3), of "tbl_addr (mac_table a ! i)"] by (auto simp: rar_holds_def split: if_splits)
  qed
  moreover have "length (mac_table a) = num_rars a" using assms(1) by (simp add: mac_inv_def)
  ultimately show ?thesis unfolding mac_filters_mem by auto
qed

lemma mset_list_update: "i < length xs \<Longrightarrow> mset (xs[i := x]) = add_mset x (mset xs - {#xs ! i#})"
  by (simp add: mset_update)

lemma mac_inv_update:
  assumes "mac_inv a" "i < num_rars a" "modified e" "in_use e \<Longrightarrow> length (tbl_addr e) = 6 \<and> tbl_pool e < 64"
    and "in_use e \<Longrightarrow> \<not> in_use (mac_table a ! i)"
  defines "a' \<equiv> ixgbe_sync_mac_table (a\<lparr>mac_table := (mac_table a)[i := e]\<rparr>)"
  shows "mac_inv a'" "mac_filters a' = (if in_use e then {#(tbl_addr e, unat (tbl_pool e))#} else {#}) +
    (mac_filters a - (if in_use (mac_table a ! i) then {#(tbl_addr (mac_table a ! i), unat (tbl_pool (mac_table a ! i)))#} else {#}))"
    and "a' = a\<lparr>hw := hw a', mac_table := mac_table a'\<rparr>" "num_rars a' = num_rars a"
proof -
  let ?b = "a\<lparr>mac_table := (mac_table a)[i := e]\<rparr>"
  have len: "length (mac_table a) = num_rars a" and nr: "\<not> hw_removed (hw a)" using assms(1) by (simp_all add: mac_inv_def)
  have e: "mac_table ?b ! i = e" using assms(2) len by simp
  have s: "a' = sync_entry i ?b"
    unfolding a'_def using assms(1-3) len by (intro sync_single) (auto simp: mac_inv_def Let_def)
  have h: "\<not> hw_removed (hw ?b)" "i < num_rars ?b" "in_use (mac_table ?b ! i) \<Longrightarrow> tbl_pool (mac_table ?b ! i) < 64"
    using assms(2,4) nr e by simp_all
  note k = sync_entry_hw [OF h, folded s, unfolded e]
  have t: "mac_table a' = (mac_table a)[i := unmodify e]"
    unfolding s using e by (simp add: sync_entry_frame(1))
  show "a' = a\<lparr>hw := hw a', mac_table := mac_table a'\<rparr>"
    using sync_entry_frame(2) [of i ?b] unfolding s [symmetric] by (cases a) simp
  show n: "num_rars a' = num_rars a" using k(2) by simp
  show "mac_inv a'"
    unfolding mac_inv_def
  proof (intro conjI allI impI)
    show "\<not> hw_removed (hw a')" by (rule k(1))
    show "length (mac_table a') = num_rars a'" using t len n by simp
  next
    fix j assume "j < num_rars a'"
    then have j: "j < num_rars a" using n by simp
    then have old: "\<not> modified (mac_table a ! j)"
      "in_use (mac_table a ! j) \<Longrightarrow> length (tbl_addr (mac_table a ! j)) = 6 \<and> tbl_pool (mac_table a ! j) < 64"
      "if in_use (mac_table a ! j) then rar_holds (hw a) j (tbl_addr (mac_table a ! j)) else \<not> rar_valid (hw a) j"
      "\<And>p. p < 64 \<Longrightarrow> rar_pool (hw a) j p \<longleftrightarrow> in_use (mac_table a ! j) \<and> p = unat (tbl_pool (mac_table a ! j))"
      using assms(1) by (auto simp: mac_inv_def Let_def)
    show "let e = mac_table a' ! j in \<not> modified e \<and> (in_use e \<longrightarrow> length (tbl_addr e) = 6 \<and> tbl_pool e < 64) \<and>
        (if in_use e then rar_holds (hw a') j (tbl_addr e) else \<not> rar_valid (hw a') j) \<and>
        (\<forall>p<64. rar_pool (hw a') j p \<longleftrightarrow> in_use e \<and> p = unat (tbl_pool e))"
    proof (cases "j = i")
      case True
      then show ?thesis using assms(4,5) k(4-6) old(4) t j len by (auto simp: Let_def rar_holds_def)
    next
      case False
      then show ?thesis using old k(4-6) t by (auto simp: Let_def rar_holds_def split: if_splits)
    qed
  qed
  let ?v = "\<lambda>e. (tbl_addr e, unat (tbl_pool e))"
  have "mac_table a ! i \<in># mset (mac_table a)" using assms(2) len by simp
  then obtain M where M: "mset (mac_table a) = add_mset (mac_table a ! i) M" by (metis insert_DiffM)
  then have "mset (mac_table a') = add_mset (unmodify e) M" using t assms(2) len by (simp add: mset_update)
  with M show "mac_filters a' = (if in_use e then {#?v e#} else {#}) +
    (mac_filters a - (if in_use (mac_table a ! i) then {#?v (mac_table a ! i)#} else {#}))"
    by (simp add: mac_filters_def)
qed

section \<open>Registers that the table does not touch\<close>

fun rar_reg :: "reg \<Rightarrow> bool" where
  "rar_reg (RxReg (RAL i)) = True"
| "rar_reg (RxReg (RAH i)) = True"
| "rar_reg (RxReg (MPSAR_LO i)) = True"
| "rar_reg (RxReg (MPSAR_HI i)) = True"
| "rar_reg r = False"

lemma rar_reg_neq: "\<not> rar_reg r \<Longrightarrow> r \<noteq> IXGBE_RAL i \<and> r \<noteq> IXGBE_RAH i \<and> r \<noteq> IXGBE_MPSAR_LO i \<and> r \<noteq> IXGBE_MPSAR_HI i"
  by auto

lemma set_rar_regs: "\<not> rar_reg r \<Longrightarrow> IXGBE_READ_REG (snd (ixgbe_set_rar_generic h i x p en)) r = IXGBE_READ_REG h r"
  by (simp add: ixgbe_set_rar_generic_def ixgbe_set_vmdq_generic_def Let_def rar_reg_neq)

lemma clear_pools_frame:
  "\<not> rar_reg r \<Longrightarrow> clear_vmdq_pools h i v lo hi = (lo', hi', h') \<Longrightarrow> IXGBE_READ_REG h' r = IXGBE_READ_REG h r"
  by (auto simp: clear_vmdq_pools_def Let_def rar_reg_neq split: if_splits)

lemma clear_rar_frames:
  "\<not> rar_reg r \<Longrightarrow> IXGBE_READ_REG (snd (ixgbe_clear_rar_generic h i)) r = IXGBE_READ_REG h r"
  "\<not> rar_reg r \<Longrightarrow> IXGBE_READ_REG (snd (ixgbe_clear_vmdq_generic h i v)) r = IXGBE_READ_REG h r"
proof (induction h i and h i v rule: ixgbe_clear_rar_generic_ixgbe_clear_vmdq_generic.induct)
  case (1 h i)
  then show ?case
    by (subst ixgbe_clear_rar_generic.simps) (auto simp: Let_def rar_reg_neq)
next
  case (2 h i v)
  then show ?case
    by (subst ixgbe_clear_vmdq_generic.simps) (auto simp: Let_def clear_pools_frame split: prod.split)
qed

lemma sync_entry_reg: "\<not> rar_reg r \<Longrightarrow> IXGBE_READ_REG (hw (sync_entry i a)) r = IXGBE_READ_REG (hw a) r"
  by (simp add: sync_entry_unmodify Let_def set_rar_regs clear_rar_frames)

lemma sync_table_reg:
  "\<not> rar_reg r \<Longrightarrow> IXGBE_READ_REG (hw (ixgbe_sync_mac_table a)) r = IXGBE_READ_REG (hw a) r"
  "\<not> rar_reg r \<Longrightarrow> IXGBE_READ_REG (hw (ixgbe_full_sync_mac_table a)) r = IXGBE_READ_REG (hw a) r"
  unfolding ixgbe_sync_mac_table_def ixgbe_full_sync_mac_table_def
  by (rule for_upto_frame [where f = "\<lambda>a. IXGBE_READ_REG (hw a) r"]; simp add: sync_entry_reg)+

lemma mac_filter_reg:
  assumes "\<not> rar_reg r"
  shows "IXGBE_READ_REG (hw (snd (ixgbe_add_mac_filter a x p))) r = IXGBE_READ_REG (hw a) r"
    and "IXGBE_READ_REG (hw (snd (ixgbe_del_mac_filter a x p))) r = IXGBE_READ_REG (hw a) r"
  using sync_table_reg(1) [OF assms]
  by (auto simp: ixgbe_add_mac_filter_def ixgbe_del_mac_filter_def Let_def split: option.split)

section \<open>Properties\<close>

lemma find_upt_Some: "List.find P [0..<n] = Some i \<Longrightarrow> i < n \<and> P i"
  by (auto simp: find_Some_iff)

lemma find_upt_None: "List.find P [0..<n] = None \<longleftrightarrow> (\<forall>i < n. \<not> P i)"
  by (auto simp: find_None_iff)

lemma add_mac_filter_cases:
  assumes "mac_inv a" "length addr = 6" "pool < 64" "\<not> is_zero_ether_addr addr"
    and "ixgbe_add_mac_filter a addr pool = (r, a')"
  shows "(\<forall>i < num_rars a. in_use (mac_table a ! i)) \<and> r = - ENOMEM \<and> a' = a \<or>
    0 \<le> r \<and> mac_inv a' \<and> mac_filters a' = add_mset (addr, unat pool) (mac_filters a) \<and>
    a' = a\<lparr>hw := hw a', mac_table := mac_table a'\<rparr> \<and> num_rars a' = num_rars a"
proof (cases "List.find (\<lambda>i. \<not> in_use (mac_table a ! i)) [0..<num_rars a]")
  case None
  then show ?thesis using assms(4,5) iffD1 [OF find_upt_None None] by (simp add: ixgbe_add_mac_filter_def)
next
  case (Some i)
  then have i: "i < num_rars a" "\<not> in_use (mac_table a ! i)" using find_upt_Some by blast+
  define e where "e = (mac_table a ! i)\<lparr>tbl_addr := addr, tbl_pool := pool,
    tbl_state := tbl_state (mac_table a ! i) OR IXGBE_MAC_STATE_MODIFIED OR IXGBE_MAC_STATE_IN_USE\<rparr>"
  have e: "in_use e" "modified e" "tbl_addr e = addr" "tbl_pool e = pool"
    by (simp_all add: e_def in_use_bit modified_bit bit_or_iff)
  have "r = int i" "a' = ixgbe_sync_mac_table (a\<lparr>mac_table := (mac_table a)[i := e]\<rparr>)"
    using assms(4,5) Some by (simp_all add: ixgbe_add_mac_filter_def Let_def e_def)
  with mac_inv_update [OF assms(1) i(1) e(2)] assms(2,3) i(2) e show ?thesis by simp
qed

lemma del_mac_filter_cases:
  assumes "mac_inv a" "\<not> is_zero_ether_addr addr" "ixgbe_del_mac_filter a addr pool = (r, a')"
  shows "(addr, unat pool) \<notin># mac_filters a \<and> r = - ENOMEM \<and> a' = a \<or>
    (addr, unat pool) \<in># mac_filters a \<and> r = 0 \<and> mac_inv a' \<and> mac_filters a' = mac_filters a - {#(addr, unat pool)#} \<and>
    a' = a\<lparr>hw := hw a', mac_table := mac_table a'\<rparr> \<and> num_rars a' = num_rars a"
proof -
  let ?P = "\<lambda>i. let e = mac_table a ! i in in_use e \<and> tbl_pool e = pool \<and> tbl_addr e = addr"
  have len: "length (mac_table a) = num_rars a" using assms(1) by (simp add: mac_inv_def)
  have mem: "(addr, unat pool) \<in># mac_filters a \<longleftrightarrow> (\<exists>i < num_rars a. ?P i)"
    unfolding mac_filters_mem len Let_def by (metis unsigned_word_eqI)
  show ?thesis
  proof (cases "List.find ?P [0..<num_rars a]")
    case None
    then show ?thesis using assms(2,3) mem iffD1 [OF find_upt_None None] by (simp add: ixgbe_del_mac_filter_def)
  next
    case (Some i)
    then have i: "i < num_rars a" "?P i" using find_upt_Some by blast+
    have "r = 0" "a' = ixgbe_sync_mac_table (a\<lparr>mac_table := (mac_table a)[i := drop_entry (mac_table a ! i)]\<rparr>)"
      using assms(2,3) Some by (simp_all add: ixgbe_del_mac_filter_def)
    with mac_inv_update [OF assms(1) i(1), of "drop_entry (mac_table a ! i)"] i(2) mem i(1) show ?thesis
      by (auto simp: Let_def)
  qed
qed

text \<open>
  C5. The software table and the receive address registers together implement a multiset of (address,
  pool) pairs.  Adding a filter inserts the pair, or fails with ENOMEM and changes nothing when every
  entry is taken; deleting removes one copy of the pair, or fails with ENOMEM when there is none; a
  zero address is refused.  Whenever the invariant holds, the hardware delivers an address to a
  pool exactly when the multiset has the pair.
\<close>

theorem mac_filters_refine:
  assumes "mac_inv a" "length addr = 6" "pool < 64"
    and "ixgbe_add_mac_filter a addr pool = (r, a1)" "ixgbe_del_mac_filter a addr pool = (s, a2)"
  shows "(if is_zero_ether_addr addr then r = - EINVAL \<and> a1 = a \<and> s = - EINVAL \<and> a2 = a
     else (if \<forall>i < num_rars a. in_use (mac_table a ! i) then r = - ENOMEM \<and> a1 = a
           else 0 \<le> r \<and> mac_inv a1 \<and> mac_filters a1 = add_mset (addr, unat pool) (mac_filters a)) \<and>
       (if (addr, unat pool) \<in># mac_filters a
        then s = 0 \<and> mac_inv a2 \<and> mac_filters a2 = mac_filters a - {#(addr, unat pool)#}
        else s = - ENOMEM \<and> a2 = a)) \<and>
    ((\<exists>i < num_rars a. rar_holds (hw a) i addr \<and> rar_pool (hw a) i (unat pool)) \<longleftrightarrow>
       (addr, unat pool) \<in># mac_filters a)"
proof -
  have p: "unat pool < 64" using assms(3) by (simp add: word_less_nat_alt)
  have full: "a1 = a" if "\<not> is_zero_ether_addr addr" "\<forall>i < num_rars a. in_use (mac_table a ! i)"
    using that assms(4) iffD2 [OF find_upt_None, of "num_rars a" "\<lambda>i. \<not> in_use (mac_table a ! i)"] by (simp add: ixgbe_add_mac_filter_def)
  have full': "r = - ENOMEM" if "\<not> is_zero_ether_addr addr" "\<forall>i < num_rars a. in_use (mac_table a ! i)"
    using that assms(4) iffD2 [OF find_upt_None, of "num_rars a" "\<lambda>i. \<not> in_use (mac_table a ! i)"] by (simp add: ixgbe_add_mac_filter_def)
  show ?thesis
  proof (cases "is_zero_ether_addr addr")
    case True
    then show ?thesis using assms(4,5) mac_inv_delivers [OF assms(1) p assms(2)]
      by (simp add: ixgbe_add_mac_filter_def ixgbe_del_mac_filter_def)
  next
    case False
    then show ?thesis
      using add_mac_filter_cases [OF assms(1-3) False assms(4)] del_mac_filter_cases [OF assms(1) False assms(5)]
        full full' mac_inv_delivers [OF assms(1) p assms(2)] by auto
  qed
qed

section \<open>The table as an interface\<close>

text \<open>
  What the users of the table rely on: adding puts in the pair or nothing, deleting takes out the pair or
  nothing, and both keep the invariant.  Pools do not disturb each other.
\<close>

locale filter_table =
  fixes inv :: "'s \<Rightarrow> bool"
    and filters :: "'s \<Rightarrow> ('x \<times> nat) multiset"
    and addr_ok :: "'x \<Rightarrow> bool"
    and pool_ok :: "nat \<Rightarrow> bool"
    and add del :: "'s \<Rightarrow> 'x \<Rightarrow> nat \<Rightarrow> 's"
  assumes add_law: "inv s \<Longrightarrow> addr_ok x \<Longrightarrow> pool_ok p \<Longrightarrow> inv (add s x p)"
      "inv s \<Longrightarrow> addr_ok x \<Longrightarrow> pool_ok p \<Longrightarrow> filters (add s x p) \<in> {filters s, add_mset (x, p) (filters s)}"
    and del_law: "inv s \<Longrightarrow> pool_ok p \<Longrightarrow> inv (del s x p)"
      "inv s \<Longrightarrow> pool_ok p \<Longrightarrow> filters (del s x p) \<in> {filters s, filters s - {#(x, p)#}}"
begin

lemma add_others:
  assumes "inv s" "addr_ok x" "pool_ok p" "q \<noteq> p"
  shows "filter_mset (\<lambda>f. snd f = q) (filters (add s x p)) = filter_mset (\<lambda>f. snd f = q) (filters s)"
  using add_law(2) [OF assms(1-3)] assms(4) by auto

lemma del_others:
  assumes "inv s" "pool_ok p" "q \<noteq> p"
  shows "filter_mset (\<lambda>f. snd f = q) (filters (del s x p)) = filter_mset (\<lambda>f. snd f = q) (filters s)"
  using del_law(2) [OF assms(1,2), of x] assms(3) by auto

lemma add_subset:
  assumes "inv s" "addr_ok x" "pool_ok p"
  shows "set_mset (filters (add s x p)) \<subseteq> insert (x, p) (set_mset (filters s))"
  using add_law(2) [OF assms] by auto

lemma del_subset:
  assumes "inv s" "pool_ok p"
  shows "set_mset (filters (del s x p)) \<subseteq> set_mset (filters s)"
  using del_law(2) [OF assms, of x] by (auto dest: in_diffD)

end

lemma pool_of_nat: "p < 64 \<Longrightarrow> unat (of_nat p :: u16) = p" "p < 64 \<Longrightarrow> (of_nat p :: u16) < 64"
  by (simp_all add: word_less_nat_alt unsigned_of_nat take_bit_nat_eq_self)

lemma adapter_frame_eq:
  assumes "a\<lparr>hw := h, mac_table := t\<rparr> = b\<lparr>hw := h, mac_table := t\<rparr>"
  shows "b = a\<lparr>hw := hw b, mac_table := mac_table b\<rparr>"
proof -
  have "b = (b\<lparr>hw := h, mac_table := t\<rparr>)\<lparr>hw := hw b, mac_table := mac_table b\<rparr>" by simp
  then show ?thesis unfolding assms [symmetric] by simp
qed

lemma sync_frame: "(ixgbe_sync_mac_table b)\<lparr>hw := h, mac_table := t\<rparr> = b\<lparr>hw := h, mac_table := t\<rparr>"
  unfolding ixgbe_sync_mac_table_def
  by (rule for_upto_frame [where f = "\<lambda>b. b\<lparr>hw := h, mac_table := t\<rparr>"]) (simp add: sync_entry_unmodify Let_def)

lemma mac_filter_frame:
  "snd (ixgbe_add_mac_filter a x p) = a\<lparr>hw := hw (snd (ixgbe_add_mac_filter a x p)), mac_table := mac_table (snd (ixgbe_add_mac_filter a x p))\<rparr>"
  "snd (ixgbe_del_mac_filter a x p) = a\<lparr>hw := hw (snd (ixgbe_del_mac_filter a x p)), mac_table := mac_table (snd (ixgbe_del_mac_filter a x p))\<rparr>"
  by (rule adapter_frame_eq [where h = hw_reset and t = "[]"],
      simp add: ixgbe_add_mac_filter_def ixgbe_del_mac_filter_def Let_def sync_frame split: option.split)+

interpretation mt: filter_table mac_inv mac_filters "\<lambda>x. length x = 6" "\<lambda>p. p < 64"
  "\<lambda>a x p. snd (ixgbe_add_mac_filter a x (of_nat p))" "\<lambda>a x p. snd (ixgbe_del_mac_filter a x (of_nat p))"
proof
  fix a :: ixgbe_adapter and x :: "u8 list" and p :: nat
  assume p: "p < 64" and a: "mac_inv a"
  obtain r b s c where r: "ixgbe_add_mac_filter a x (of_nat p) = (r, b)" "ixgbe_del_mac_filter a x (of_nat p) = (s, c)" by (metis surj_pair)
  have z: "b = a \<and> c = a" if "is_zero_ether_addr x" using that r by (simp add: ixgbe_add_mac_filter_def ixgbe_del_mac_filter_def)
  note q = pool_of_nat [OF p]
  have d: "mac_inv c \<and> mac_filters c \<in> {mac_filters a, mac_filters a - {#(x, p)#}}"
    using del_mac_filter_cases [OF a _ r(2)] z a q(1) by (cases "is_zero_ether_addr x") auto
  then show "mac_inv (snd (ixgbe_del_mac_filter a x (of_nat p)))"
    "mac_filters (snd (ixgbe_del_mac_filter a x (of_nat p))) \<in> {mac_filters a, mac_filters a - {#(x, p)#}}" using r by simp_all
  assume x: "length x = 6"
  have "mac_inv b \<and> mac_filters b \<in> {mac_filters a, add_mset (x, p) (mac_filters a)}"
    using add_mac_filter_cases [OF a x q(2) _ r(1)] z a q(1) by (cases "is_zero_ether_addr x") auto
  then show "mac_inv (snd (ixgbe_add_mac_filter a x (of_nat p)))"
    "mac_filters (snd (ixgbe_add_mac_filter a x (of_nat p))) \<in> {mac_filters a, add_mset (x, p) (mac_filters a)}" using r by simp_all
qed

text \<open>An adapter with an empty table.\<close>

definition vf_reset_data :: vf_data_storage where
  "vf_reset_data = \<lparr>vf_mac_addresses = replicate 6 0, vf_mc_hashes = replicate 30 0, num_vf_mc_hashes = 0, clear_to_send = False,
     pf_set_mac = False, pf_vlan = 0, pf_qos = 0, tx_rate = 0, link_enable = True, link_state = 0, spoofchk_enabled = True,
     rss_query_enabled = False, trusted = False, xcast_mode = 0, vf_api = 0\<rparr>"

definition adapter_reset :: ixgbe_adapter where
  "adapter_reset = \<lparr>hw = hw_reset,
     netdev = \<lparr>running = True, promisc = False, allmulti = False, mc_list = [], mtu = 1500, num_tc = 0,
       prio_tc_map = (\<lambda>_. 0), vlan_ctag_filter = True, vlan_ctag_rx = True\<rparr>,
     mac_table = replicate 128 \<lparr>tbl_addr = replicate 6 0, tbl_pool = 0, tbl_state = 0\<rparr>,
     vmdq_offset = 2, vmdq_mask = 0x7E, sriov_enabled = True, vmdq_enabled = True, dcb_enabled = False, mdd_enabled = False,
     vlan_promisc = False, is_down = False, active_vlans = (\<lambda>_. False), num_rx_pools = 1, rx_reg_idx = [4, 5], num_vfs = 2,
     vfinfo = replicate 2 vf_reset_data, vf_mvs = [\<lparr>mv_vf = - 1, mv_free = True, is_macvlan = False, vf_macvlan = replicate 6 0\<rparr>],
     default_up = 0, rss_indir_tbl = replicate 128 0, rss_key = replicate 10 0, link_speed = 0x80, link_up = True,
     vf_rate_link_speed = 0, stray_write = False\<rparr>"

lemma adapter_reset_inv: "mac_inv adapter_reset" "mac_filters adapter_reset = {#}" "num_rars adapter_reset = 128"
proof -
  have r: "IXGBE_READ_REG hw_reset r = 0" for r
    by (simp add: hw_reset_def IXGBE_READ_REG_def IXGBE_REMOVED_def)
  show "num_rars adapter_reset = 128" by (simp add: adapter_reset_def hw_reset_def)
  then show "mac_inv adapter_reset"
    by (auto simp: mac_inv_def adapter_reset_def in_use_def modified_def Let_def rar_valid_def rar_pool_def r)
  show "mac_filters adapter_reset = {#}"
    by (simp add: mac_filters_def adapter_reset_def in_use_def)
qed

theorem mac_filters_refine_witness:
  "\<exists>a1. ixgbe_add_mac_filter adapter_reset [2, 0, 0, 0, 0, 1] 5 = (0, a1) \<and>
     mac_filters a1 = {#([2, 0, 0, 0, 0, 1], 5)#} \<and> mac_inv a1 \<and>
     fst (ixgbe_del_mac_filter adapter_reset [2, 0, 0, 0, 0, 1] 5) = - ENOMEM"
proof -
  let ?m = "[2, 0, 0, 0, 0, 1] :: u8 list"
  obtain r a1 s a2 where r: "ixgbe_add_mac_filter adapter_reset ?m 5 = (r, a1)" "ixgbe_del_mac_filter adapter_reset ?m 5 = (s, a2)"
    by (metis surj_pair)
  have "[0..<128] = 0 # [1..<128]" by (simp add: upt_conv_Cons)
  then have "r = 0" using r(1) adapter_reset_inv(3)
    by (auto simp: ixgbe_add_mac_filter_def is_zero_ether_addr_def adapter_reset_def in_use_def Let_def simp del: upt_rec_numeral)
  moreover have "\<not> (\<forall>i < num_rars adapter_reset. in_use (mac_table adapter_reset ! i))"
    using adapter_reset_inv(3) by (auto simp: adapter_reset_def in_use_def intro: exI [of _ 0])
  ultimately show ?thesis
    using mac_filters_refine [OF adapter_reset_inv(1) _ _ r] r adapter_reset_inv(2) by (simp add: is_zero_ether_addr_def)
qed

end
