(* ===== verification/Ixgbe_Sriov.thy ===== *)
theory Ixgbe_Sriov
  imports Ixgbe_Adapter Ixgbe_Mbx
begin

text \<open>
  Virtual functions as seen by the physical function driver (\<open>ixgbe_sriov.c\<close> and the receive mode
  and VLAN parts of \<open>ixgbe_main.c\<close>): the requests a VF sends through its mailbox, VF reset, and the
  administrator's settings.  The conditional compilation is that of a current kernel: SR-IOV,
  port VLANs, VF trust, link state and RSS queries are configured, FCoE is not.
\<close>

unbundle bit_operations_syntax

section \<open>Constants\<close>

abbreviation EPROTONOSUPPORT :: int where "EPROTONOSUPPORT \<equiv> 93"
abbreviation ETH_P_8021Q :: u16 where "ETH_P_8021Q \<equiv> 0x8100"
abbreviation IXGBE_VMOLR_UPE :: u32 where "IXGBE_VMOLR_UPE \<equiv> 0x00400000"
abbreviation IXGBE_VMOLR_VPE :: u32 where "IXGBE_VMOLR_VPE \<equiv> 0x00800000"
abbreviation IXGBE_VMOLR_AUPE :: u32 where "IXGBE_VMOLR_AUPE \<equiv> 0x01000000"
abbreviation IXGBE_VMOLR_ROMPE :: u32 where "IXGBE_VMOLR_ROMPE \<equiv> 0x02000000"
abbreviation IXGBE_VMOLR_ROPE :: u32 where "IXGBE_VMOLR_ROPE \<equiv> 0x04000000"
abbreviation IXGBE_VMOLR_BAM :: u32 where "IXGBE_VMOLR_BAM \<equiv> 0x08000000"
abbreviation IXGBE_VMOLR_MPE :: u32 where "IXGBE_VMOLR_MPE \<equiv> 0x10000000"
abbreviation IXGBE_FCTRL_MPE :: u32 where "IXGBE_FCTRL_MPE \<equiv> 0x00000100"
abbreviation IXGBE_FCTRL_BAM :: u32 where "IXGBE_FCTRL_BAM \<equiv> 0x00000400"
abbreviation IXGBE_FCTRL_PMCF :: u32 where "IXGBE_FCTRL_PMCF \<equiv> 0x00001000"
abbreviation IXGBE_FCTRL_DPF :: u32 where "IXGBE_FCTRL_DPF \<equiv> 0x00002000"
abbreviation IXGBE_VLNCTRL_VFE :: u32 where "IXGBE_VLNCTRL_VFE \<equiv> 0x40000000"
abbreviation IXGBE_VLNCTRL_VME :: u32 where "IXGBE_VLNCTRL_VME \<equiv> 0x80000000"
abbreviation IXGBE_RXDCTL_VME :: u32 where "IXGBE_RXDCTL_VME \<equiv> 0x40000000"
abbreviation IXGBE_VMVIR_VLANA_DEFAULT :: u32 where "IXGBE_VMVIR_VLANA_DEFAULT \<equiv> 0x40000000"
abbreviation IXGBE_QDE_ENABLE :: u32 where "IXGBE_QDE_ENABLE \<equiv> 0x1"
abbreviation IXGBE_QDE_HIDE_VLAN :: u32 where "IXGBE_QDE_HIDE_VLAN \<equiv> 0x2"
abbreviation SRIOV_QDE_WRITE :: u32 where "SRIOV_QDE_WRITE \<equiv> 0x00010000"
abbreviation IXGBE_MHADD_MFS_MASK :: u32 where "IXGBE_MHADD_MFS_MASK \<equiv> 0xFFFF0000"
abbreviation VLAN_VID_MASK :: u32 where "VLAN_VID_MASK \<equiv> 0xFFF"
abbreviation ETH_HLEN :: int where "ETH_HLEN \<equiv> 14"
abbreviation ETH_FRAME_LEN :: int where "ETH_FRAME_LEN \<equiv> 1514"
abbreviation IXGBE_MAX_VF_MC_ENTRIES :: nat where "IXGBE_MAX_VF_MC_ENTRIES \<equiv> 30"
abbreviation IXGBE_MAX_JUMBO_FRAME_SIZE :: u32 where "IXGBE_MAX_JUMBO_FRAME_SIZE \<equiv> 9728"
abbreviation IXGBE_VT_MSGTYPE_SUCCESS :: u32 where "IXGBE_VT_MSGTYPE_SUCCESS \<equiv> 0x80000000"
abbreviation IXGBE_VT_MSGTYPE_FAILURE :: u32 where "IXGBE_VT_MSGTYPE_FAILURE \<equiv> 0x40000000"
abbreviation IXGBE_VT_MSGTYPE_CTS :: u32 where "IXGBE_VT_MSGTYPE_CTS \<equiv> 0x20000000"
abbreviation IXGBE_VF_RESET :: u32 where "IXGBE_VF_RESET \<equiv> 0x01"
abbreviation IXGBE_VF_SET_MAC_ADDR :: u32 where "IXGBE_VF_SET_MAC_ADDR \<equiv> 0x02"
abbreviation IXGBE_VF_SET_MULTICAST :: u32 where "IXGBE_VF_SET_MULTICAST \<equiv> 0x03"
abbreviation IXGBE_VF_SET_VLAN :: u32 where "IXGBE_VF_SET_VLAN \<equiv> 0x04"
abbreviation IXGBE_VF_SET_LPE :: u32 where "IXGBE_VF_SET_LPE \<equiv> 0x05"
abbreviation IXGBE_VF_SET_MACVLAN :: u32 where "IXGBE_VF_SET_MACVLAN \<equiv> 0x06"
abbreviation IXGBE_VF_API_NEGOTIATE :: u32 where "IXGBE_VF_API_NEGOTIATE \<equiv> 0x08"
abbreviation IXGBE_VF_GET_QUEUES :: u32 where "IXGBE_VF_GET_QUEUES \<equiv> 0x09"
abbreviation IXGBE_VF_GET_RETA :: u32 where "IXGBE_VF_GET_RETA \<equiv> 0x0a"
abbreviation IXGBE_VF_GET_RSS_KEY :: u32 where "IXGBE_VF_GET_RSS_KEY \<equiv> 0x0b"
abbreviation IXGBE_VF_UPDATE_XCAST_MODE :: u32 where "IXGBE_VF_UPDATE_XCAST_MODE \<equiv> 0x0c"
abbreviation IXGBE_VF_GET_LINK_STATE :: u32 where "IXGBE_VF_GET_LINK_STATE \<equiv> 0x10"
abbreviation IXGBE_VF_GET_PF_LINK_STATE :: u32 where "IXGBE_VF_GET_PF_LINK_STATE \<equiv> 0x11"
abbreviation IXGBE_VF_FEATURES_NEGOTIATE :: u32 where "IXGBE_VF_FEATURES_NEGOTIATE \<equiv> 0x12"
abbreviation IXGBE_PF_CONTROL_MSG :: u32 where "IXGBE_PF_CONTROL_MSG \<equiv> 0x0100"
abbreviation IXGBE_SUPPORTED_FEATURES :: u32 where "IXGBE_SUPPORTED_FEATURES \<equiv> 0"
abbreviation ixgbe_mbox_api_10 :: u32 where "ixgbe_mbox_api_10 \<equiv> 0"
abbreviation ixgbe_mbox_api_20 :: u32 where "ixgbe_mbox_api_20 \<equiv> 1"
abbreviation ixgbe_mbox_api_11 :: u32 where "ixgbe_mbox_api_11 \<equiv> 2"
abbreviation ixgbe_mbox_api_12 :: u32 where "ixgbe_mbox_api_12 \<equiv> 3"
abbreviation ixgbe_mbox_api_13 :: u32 where "ixgbe_mbox_api_13 \<equiv> 4"
abbreviation ixgbe_mbox_api_16 :: u32 where "ixgbe_mbox_api_16 \<equiv> 7"
abbreviation ixgbe_mbox_api_17 :: u32 where "ixgbe_mbox_api_17 \<equiv> 8"
abbreviation IXGBEVF_XCAST_MODE_NONE :: int where "IXGBEVF_XCAST_MODE_NONE \<equiv> 0"
abbreviation IXGBEVF_XCAST_MODE_MULTI :: int where "IXGBEVF_XCAST_MODE_MULTI \<equiv> 1"
abbreviation IXGBEVF_XCAST_MODE_ALLMULTI :: int where "IXGBEVF_XCAST_MODE_ALLMULTI \<equiv> 2"
abbreviation IXGBEVF_XCAST_MODE_PROMISC :: int where "IXGBEVF_XCAST_MODE_PROMISC \<equiv> 3"

section \<open>Registers of the adapter\<close>

abbreviation rdreg :: "ixgbe_adapter \<Rightarrow> reg \<Rightarrow> u32" where
  "rdreg a r \<equiv> IXGBE_READ_REG (hw a) r"

definition wrreg :: "reg \<Rightarrow> u32 \<Rightarrow> ixgbe_adapter \<Rightarrow> ixgbe_adapter" where
  "wrreg r v a = a\<lparr>hw := IXGBE_WRITE_REG (hw a) r v\<rparr>"

text \<open>
  A store to \<open>vfinfo[vf]\<close>.  The array has \<open>num_vfs\<close> elements; a store past its end changes memory that
  is not the adapter's, and the model records that this happened and nothing more about it.
\<close>

definition set_vf :: "nat \<Rightarrow> (vf_data_storage \<Rightarrow> vf_data_storage) \<Rightarrow> ixgbe_adapter \<Rightarrow> ixgbe_adapter" where
  "set_vf vf f a = (if vf < length (vfinfo a) then a\<lparr>vfinfo := (vfinfo a)[vf := f (vfinfo a ! vf)]\<rparr>
     else a\<lparr>stray_write := True\<rparr>)"

text \<open>The number of queues of a pool, \<open>__ALIGN_MASK(1, ~mask)\<close>.\<close>

definition q_per_pool :: "ixgbe_adapter \<Rightarrow> nat" where
  "q_per_pool a = (let m = ucast (vmdq_mask a) :: u32 in unat ((1 + NOT m) AND NOT (NOT m)))"

section \<open>Multicast\<close>

text \<open>The MTA bit of a hash.\<close>

definition vf_mta_bit :: "u16 \<Rightarrow> ixgbe_hw \<Rightarrow> ixgbe_hw" where
  "vf_mta_bit hash h =
     (let vector_reg = unat (drop_bit 5 hash AND 0x7F); vector_bit = unat (hash AND 0x1F);
          sh = mta_shadow (mac h)
      in h\<lparr>addr_ctrl := (addr_ctrl h)\<lparr>mta_in_use := mta_in_use (addr_ctrl h) + 1\<rparr>,
          mac := (mac h)\<lparr>mta_shadow := sh[vector_reg := sh ! vector_reg OR BIT vector_bit]\<rparr>\<rparr>)"

definition restore_vf :: "nat \<Rightarrow> ixgbe_adapter \<Rightarrow> ixgbe_adapter" where
  "restore_vf i a =
     (let vmolr = rdreg a (IXGBE_VMOLR i); v = vfinfo a ! i;
          a = for_upto 0 (num_vf_mc_hashes v) (\<lambda>j a. a\<lparr>hw := vf_mta_bit (vf_mc_hashes v ! j) (hw a)\<rparr>) a
      in wrreg (IXGBE_VMOLR i)
           (if num_vf_mc_hashes v \<noteq> 0 then vmolr OR IXGBE_VMOLR_ROMPE else vmolr AND NOT IXGBE_VMOLR_ROMPE) a)"

definition ixgbe_restore_vf_multicasts :: "ixgbe_adapter \<Rightarrow> ixgbe_adapter" where
  "ixgbe_restore_vf_multicasts a =
     (let h = hw a; a = a\<lparr>hw := h\<lparr>mac := (mac h)\<lparr>mta_shadow := replicate (length (mta_shadow (mac h))) 0\<rparr>\<rparr>\<rparr>;
          a = for_upto 0 (num_vfs a) restore_vf a
      in ixgbe_full_sync_mac_table a)"

definition ixgbe_write_mc_addr_list :: "ixgbe_adapter \<Rightarrow> int \<times> ixgbe_adapter" where
  "ixgbe_write_mc_addr_list a =
     (if \<not> running (netdev a) then (0, a)
      else let a = ixgbe_restore_vf_multicasts a
           in (int (length (mc_list (netdev a))),
               a\<lparr>hw := snd (ixgbe_update_mc_addr_list_generic (hw a) (mc_list (netdev a)) False)\<rparr>))"

definition msg_info :: "u32 list \<Rightarrow> nat" where
  "msg_info msg = unat (drop_bit 16 (msg ! 0 AND 0x00FF0000))"

text \<open>Word 1 of the message, seen as an array of 16-bit values or of bytes.\<close>

definition msg_hash :: "u32 list \<Rightarrow> nat \<Rightarrow> u16" where
  "msg_hash msg i = ucast (drop_bit (16 * (i mod 2)) (msg ! (1 + i div 2)))"

definition msg_mac :: "u32 list \<Rightarrow> u8 list" where
  "msg_mac msg = map (\<lambda>i. ucast (drop_bit (8 * (i mod 4)) (msg ! (1 + i div 4)))) [0..<6]"

definition ixgbe_set_vf_multicasts :: "ixgbe_adapter \<Rightarrow> u32 list \<Rightarrow> nat \<Rightarrow> int \<times> ixgbe_adapter" where
  "ixgbe_set_vf_multicasts a msg vf =
     (let entries = min (msg_info msg) IXGBE_MAX_VF_MC_ENTRIES;
          vmolr = rdreg a (IXGBE_VMOLR vf);
          a = set_vf vf (\<lambda>v. v\<lparr>num_vf_mc_hashes := entries\<rparr>) a;
          a = for_upto 0 entries (\<lambda>i. set_vf vf (\<lambda>v. v\<lparr>vf_mc_hashes := (vf_mc_hashes v)[i := msg_hash msg i]\<rparr>)) a;
          a = wrreg (IXGBE_VMOLR vf) (vmolr OR IXGBE_VMOLR_ROMPE) a
      in (0, snd (ixgbe_write_mc_addr_list a)))"

section \<open>VLAN filters of a VF\<close>

fun vlvf_entry_search :: "ixgbe_hw \<Rightarrow> u32 \<Rightarrow> nat \<Rightarrow> nat" where
  "vlvf_entry_search h vlan 0 = 0"
| "vlvf_entry_search h vlan (Suc idx) =
     (if IXGBE_READ_REG h (IXGBE_VLVF (Suc idx)) AND VLAN_VID_MASK = vlan then Suc idx else vlvf_entry_search h vlan idx)"

definition ixgbe_find_vlvf_entry :: "ixgbe_hw \<Rightarrow> u32 \<Rightarrow> nat" where
  "ixgbe_find_vlvf_entry h vlan = (if vlan = 0 then 0 else vlvf_entry_search h vlan (IXGBE_VLVF_ENTRIES - 1))"

text \<open>\<open>word ^ 1\<close>, the other half of a slot.\<close>

definition other_word :: "nat \<Rightarrow> nat" where
  "other_word w = (if even w then w + 1 else w - 1)"

definition ixgbe_update_pf_promisc_vlvf :: "ixgbe_adapter \<Rightarrow> u32 \<Rightarrow> ixgbe_adapter" where
  "ixgbe_update_pf_promisc_vlvf a vid =
     (let idx = ixgbe_find_vlvf_entry (hw a) vid in
      if idx = 0 then a
      else let word = idx * 2 + VMDQ_P a 0 div 32;
               bits = NOT (BIT (VMDQ_P a 0 mod 32)) AND rdreg a (IXGBE_VLVFB word)
           in if bits = 0 \<and> rdreg a (IXGBE_VLVFB (other_word word)) = 0
              then let a = (if \<not> vlan_promisc a then wrreg (IXGBE_VLVFB word) 0 a else a)
                   in wrreg (IXGBE_VLVF idx) 0 a
              else a)"

definition set_vfta :: "ixgbe_adapter \<Rightarrow> u32 \<Rightarrow> nat \<Rightarrow> bool \<Rightarrow> bool \<Rightarrow> int \<times> ixgbe_adapter" where
  "set_vfta a vid pool on bypass =
     (case ixgbe_set_vfta_generic (hw a) vid (of_nat pool) on bypass of (st, h) \<Rightarrow> (ixgbe_status_code st, a\<lparr>hw := h\<rparr>))"

definition ixgbe_set_vf_vlan :: "ixgbe_adapter \<Rightarrow> bool \<Rightarrow> u32 \<Rightarrow> nat \<Rightarrow> int \<times> ixgbe_adapter" where
  "ixgbe_set_vf_vlan a add vid vf =
     (let (err, a) = (if add \<and> active_vlans a (unat vid) then set_vfta a vid (VMDQ_P a 0) True False else (0, a))
      in if err \<noteq> 0 then (err, a)
         else let (err, a) = set_vfta a vid vf add False
              in if add \<and> err = 0 then (err, a)
                 else (err, if active_vlans a (unat vid) \<or> vlan_promisc a then ixgbe_update_pf_promisc_vlvf a vid else a))"

text \<open>One round of the loop: slot \<open>i\<close>.\<close>

definition clear_vf_vlan_slot :: "nat \<Rightarrow> nat \<Rightarrow> ixgbe_adapter \<Rightarrow> ixgbe_adapter" where
  "clear_vf_vlan_slot vf i a =
     (let p = VMDQ_P a 0;
          pool_mask = NOT (BIT (p mod 32));
          vlvfb_mask = BIT (vf mod 32);
          word = i * 2 + vf div 32;
          vlvfb = rdreg a (IXGBE_VLVFB word)
      in if vlvfb AND vlvfb_mask = 0 then a
         else
           let vlvfb = vlvfb XOR vlvfb_mask;
               other = rdreg a (IXGBE_VLVFB (other_word word));
               bits = (\<lambda>k. if k = word mod 2 then vlvfb else other)
           in if bits (1 - p div 32) \<noteq> 0 \<or> bits (p div 32) AND pool_mask \<noteq> 0
              then wrreg (IXGBE_VLVFB word) vlvfb a
              else
                let vlvf = rdreg a (IXGBE_VLVF i);
                    vid = vlvf AND VLAN_VID_MASK;
                    update_vlvf = (\<lambda>a. let a = wrreg (IXGBE_VLVF i) 0 a
                                        in wrreg (IXGBE_VLVFB word) (if \<not> vlan_promisc a then 0 else vlvfb) a)
                in if bits 0 \<noteq> 0 \<or> bits 1 \<noteq> 0 then update_vlvf a
                   else if vlvf = 0 then wrreg (IXGBE_VLVFB word) vlvfb a
                   else
                     let mask = BIT (unat (vid mod 32)); vfta = rdreg a (IXGBE_VFTA (unat (vid div 32)))
                     in update_vlvf (if vfta AND mask \<noteq> 0 then wrreg (IXGBE_VFTA (unat (vid div 32))) (vfta XOR mask) a else a))"

definition ixgbe_clear_vf_vlans :: "ixgbe_adapter \<Rightarrow> nat \<Rightarrow> ixgbe_adapter" where
  "ixgbe_clear_vf_vlans a vf = fold (clear_vf_vlan_slot vf) (rev [0..<IXGBE_VLVF_ENTRIES]) a"

section \<open>Frame size, offloads and tags\<close>

definition ixgbe_set_vf_lpe :: "ixgbe_adapter \<Rightarrow> u32 \<Rightarrow> nat \<Rightarrow> int \<times> ixgbe_adapter" where
  "ixgbe_set_vf_lpe a max_frame vf =
     (let pf_max_frame = mtu (netdev a) + ETH_HLEN;
          api = vf_api (vfinfo a ! vf);
          newer = api \<in> {ixgbe_mbox_api_11, ixgbe_mbox_api_12, ixgbe_mbox_api_13, ixgbe_mbox_api_16, ixgbe_mbox_api_17};
          is82599 = (mac_type (mac (hw a)) = ixgbe_mac_82599EB);
          err = is82599 \<and> \<not> (newer \<and> pf_max_frame > ETH_FRAME_LEN) \<and>
                (pf_max_frame > ETH_FRAME_LEN \<or> max_frame > 1518);
          a = (if is82599 then
                 let vfre = rdreg a (IXGBE_VFRE (vf div 32))
                 in wrreg (IXGBE_VFRE (vf div 32))
                      (if err then vfre AND NOT (BIT (vf mod 32)) else vfre OR BIT (vf mod 32)) a
               else a)
      in if err then (- EINVAL, a)
         else
           let max_frs = drop_bit 16 (rdreg a IXGBE_MAXFRS AND IXGBE_MHADD_MFS_MASK)
           in (0, if max_frs < max_frame then wrreg IXGBE_MAXFRS (push_bit 16 max_frame) a else a))"

definition ixgbe_set_vmolr :: "nat \<Rightarrow> bool \<Rightarrow> ixgbe_adapter \<Rightarrow> ixgbe_adapter" where
  "ixgbe_set_vmolr vf aupe a =
     (let vmolr = rdreg a (IXGBE_VMOLR vf) OR IXGBE_VMOLR_BAM
      in wrreg (IXGBE_VMOLR vf) (if aupe then vmolr OR IXGBE_VMOLR_AUPE else vmolr AND NOT IXGBE_VMOLR_AUPE) a)"

definition ixgbe_set_vmvir :: "ixgbe_adapter \<Rightarrow> u16 \<Rightarrow> u16 \<Rightarrow> nat \<Rightarrow> ixgbe_adapter" where
  "ixgbe_set_vmvir a vid qos vf =
     wrreg (IXGBE_VMVIR vf) (ucast vid OR push_bit 13 (ucast qos) OR IXGBE_VMVIR_VLANA_DEFAULT) a"

definition ixgbe_clear_vmvir :: "ixgbe_adapter \<Rightarrow> nat \<Rightarrow> ixgbe_adapter" where
  "ixgbe_clear_vmvir a vf = wrreg (IXGBE_VMVIR vf) 0 a"

definition ixgbe_write_qde :: "ixgbe_adapter \<Rightarrow> nat \<Rightarrow> u32 \<Rightarrow> ixgbe_adapter" where
  "ixgbe_write_qde a vf qde =
     for_upto (vf * q_per_pool a) ((vf + 1) * q_per_pool a)
       (\<lambda>i. wrreg IXGBE_QDE (SRIOV_QDE_WRITE OR qde OR push_bit 8 (of_nat i))) a"

definition ixgbe_set_vf_rx_tx :: "ixgbe_adapter \<Rightarrow> nat \<Rightarrow> ixgbe_adapter" where
  "ixgbe_set_vf_rx_tx a vf =
     (let vf_shift = vf mod 32; reg_offset = vf div 32;
          reg_cur_tx = rdreg a (IXGBE_VFTE reg_offset);
          reg_cur_rx = rdreg a (IXGBE_VFRE reg_offset);
          on = link_enable (vfinfo a ! vf);
          reg_req_tx = (if on then reg_cur_tx OR BIT vf_shift else reg_cur_tx AND NOT (BIT vf_shift));
          reg_req_rx = (if on then reg_cur_rx OR BIT vf_shift else reg_cur_rx AND NOT (BIT vf_shift));
          reg_req_rx = (if mac_type (mac (hw a)) = ixgbe_mac_82599EB \<and> mtu (netdev a) + ETH_HLEN > ETH_FRAME_LEN
                        then reg_cur_rx AND NOT (BIT vf_shift) else reg_req_rx);
          a = (if reg_cur_tx \<noteq> reg_req_tx then wrreg (IXGBE_VFTE reg_offset) reg_req_tx a else a)
      in if reg_cur_rx \<noteq> reg_req_rx then wrreg (IXGBE_VFRE reg_offset) reg_req_rx a else a)"

section \<open>MAC addresses of a VF\<close>

text \<open>The first loop of \<open>ixgbe_set_vf_macvlan\<close>: one list element.\<close>

definition drop_macvlan :: "nat \<Rightarrow> nat \<Rightarrow> ixgbe_adapter \<Rightarrow> ixgbe_adapter" where
  "drop_macvlan vf k a =
     (let e = vf_mvs a ! k in
      if mv_vf e = int vf then
        let a = a\<lparr>vf_mvs := (vf_mvs a)[k := e\<lparr>mv_vf := - 1, mv_free := True, is_macvlan := False\<rparr>]\<rparr>
        in snd (ixgbe_del_mac_filter a (vf_macvlan e) (of_nat vf))
      else a)"

definition ixgbe_set_vf_macvlan :: "ixgbe_adapter \<Rightarrow> nat \<Rightarrow> nat \<Rightarrow> u8 list \<Rightarrow> int \<times> ixgbe_adapter" where
  "ixgbe_set_vf_macvlan a vf index addr =
     (let a = (if index \<le> 1 then for_upto 0 (length (vf_mvs a)) (drop_macvlan vf) a else a)
      in if index = 0 then (0, a)
         else case List.find (\<lambda>k. mv_free (vf_mvs a ! k)) [0..<length (vf_mvs a)] of
             None \<Rightarrow> (- ENOSPC, a)
           | Some k \<Rightarrow>
               let (retval, a) = ixgbe_add_mac_filter a addr (of_nat vf)
               in if retval < 0 then (retval, a)
                  else (0, a\<lparr>vf_mvs := (vf_mvs a)[k := \<lparr>mv_vf = int vf, mv_free = False, is_macvlan = True, vf_macvlan = addr\<rparr>]\<rparr>))"

definition ixgbe_set_vf_mac :: "ixgbe_adapter \<Rightarrow> nat \<Rightarrow> u8 list \<Rightarrow> int \<times> ixgbe_adapter" where
  "ixgbe_set_vf_mac a vf addr =
     (let a = snd (ixgbe_del_mac_filter a (vf_mac_addresses (vfinfo a ! vf)) (of_nat vf));
          (retval, a) = ixgbe_add_mac_filter a addr (of_nat vf)
      in (retval, set_vf vf (\<lambda>v. v\<lparr>vf_mac_addresses := (if retval \<ge> 0 then addr else replicate 6 0)\<rparr>) a))"

section \<open>VLAN stripping, VLAN promiscuity and the receive mode of the PF\<close>

text \<open>
  Stripping is set per receive ring from the 82599 on.  On the E610 the source also tells the PHY
  time stamp unit, which is not part of this model.
\<close>

definition vlan_strip :: "bool \<Rightarrow> ixgbe_adapter \<Rightarrow> ixgbe_adapter" where
  "vlan_strip on a =
     (case mac_type (mac (hw a)) of
        ixgbe_mac_82598EB \<Rightarrow>
          wrreg IXGBE_VLNCTRL (if on then rdreg a IXGBE_VLNCTRL OR IXGBE_VLNCTRL_VME
            else rdreg a IXGBE_VLNCTRL AND NOT IXGBE_VLNCTRL_VME) a
      | ixgbe_mac_unknown \<Rightarrow> a
      | ixgbe_num_macs \<Rightarrow> a
      | _ \<Rightarrow> fold (\<lambda>j a. wrreg (IXGBE_RXDCTL j) (if on then rdreg a (IXGBE_RXDCTL j) OR IXGBE_RXDCTL_VME
              else rdreg a (IXGBE_RXDCTL j) AND NOT IXGBE_RXDCTL_VME) a) (rx_reg_idx a) a)"

definition ixgbe_vlan_strip_enable :: "ixgbe_adapter \<Rightarrow> ixgbe_adapter" where
  "ixgbe_vlan_strip_enable = vlan_strip True"

definition ixgbe_vlan_strip_disable :: "ixgbe_adapter \<Rightarrow> ixgbe_adapter" where
  "ixgbe_vlan_strip_disable a = (if dcb_enabled a then a else vlan_strip False a)"

definition ixgbe_vlan_promisc_enable :: "ixgbe_adapter \<Rightarrow> ixgbe_adapter" where
  "ixgbe_vlan_promisc_enable a =
     (let vlnctrl = rdreg a IXGBE_VLNCTRL in
      if \<not> vmdq_enabled a then wrreg IXGBE_VLNCTRL (vlnctrl AND NOT IXGBE_VLNCTRL_VFE) a
      else
        let a = wrreg IXGBE_VLNCTRL (vlnctrl OR IXGBE_VLNCTRL_VFE) a in
        if mac_type (mac (hw a)) = ixgbe_mac_82598EB \<or> vlan_promisc a then a
        else
          let a = a\<lparr>vlan_promisc := True\<rparr>;
              a = fold (\<lambda>i a. let r = IXGBE_VLVFB (i * 2 + VMDQ_P a 0 div 32)
                              in wrreg r (rdreg a r OR BIT (VMDQ_P a 0 mod 32)) a) (rev [1..<IXGBE_VLVF_ENTRIES]) a
          in fold (\<lambda>i. wrreg (IXGBE_VFTA i) 0xFFFFFFFF) (rev [0..<unat (vft_size (mac (hw a)))]) a)"

text \<open>
  One block of eight VFTA words.  The local array \<open>vfta\<close> is a list; \<open>active_vlans\<close> is read
  as words of 32 bits.
\<close>

definition active_word :: "ixgbe_adapter \<Rightarrow> nat \<Rightarrow> u32" where
  "active_word a w = foldr (\<lambda>b acc. if active_vlans a (w * 32 + b) then acc OR BIT b else acc) [0..<32] 0"

definition scrub_slot :: "nat \<Rightarrow> nat \<Rightarrow> u32 list \<times> ixgbe_adapter \<Rightarrow> u32 list \<times> ixgbe_adapter" where
  "scrub_slot vfta_offset i s = (case s of (vfta, a) \<Rightarrow>
     let vlvf = rdreg a (IXGBE_VLVF i);
         vid = unat (vlvf AND VLAN_VID_MASK);
         vid_start = vfta_offset * 32;
         word = i * 2 + VMDQ_P a 0 div 32;
         remove_pf = (\<lambda>a. wrreg (IXGBE_VLVFB word) (NOT (BIT (VMDQ_P a 0 mod 32)) AND rdreg a (IXGBE_VLVFB word)) a)
     in if vid < vid_start \<or> vid \<ge> vid_start + 8 * 32 then (vfta, a)
        else if vlvf \<noteq> 0 then
          let k = (vid - vid_start) div 32; vfta = vfta[k := vfta ! k OR BIT (vid mod 32)]
          in if active_vlans a vid then (vfta, a) else (vfta, remove_pf a)
        else (vfta, remove_pf a))"

definition ixgbe_scrub_vfta :: "nat \<Rightarrow> ixgbe_adapter \<Rightarrow> ixgbe_adapter" where
  "ixgbe_scrub_vfta vfta_offset a =
     (let (vfta, a) = fold (scrub_slot vfta_offset) (rev [1..<IXGBE_VLVF_ENTRIES]) (replicate 8 0, a)
      in fold (\<lambda>i a. wrreg (IXGBE_VFTA (vfta_offset + i)) (vfta ! i OR active_word a (vfta_offset + i)) a) (rev [0..<8]) a)"

definition ixgbe_vlan_promisc_disable :: "ixgbe_adapter \<Rightarrow> ixgbe_adapter" where
  "ixgbe_vlan_promisc_disable a =
     (let a = wrreg IXGBE_VLNCTRL (rdreg a IXGBE_VLNCTRL OR IXGBE_VLNCTRL_VFE) a in
      if \<not> vmdq_enabled a \<or> mac_type (mac (hw a)) = ixgbe_mac_82598EB then a
      else if \<not> vlan_promisc a then a
      else let a = a\<lparr>vlan_promisc := False\<rparr>
           in fold (\<lambda>k. ixgbe_scrub_vfta (8 * k)) [0..<(unat (vft_size (mac (hw a))) + 7) div 8] a)"

text \<open>
  The kernel's \<open>__dev_uc_sync\<close> is a parameter: it calls \<open>ixgbe_uc_sync\<close> and \<open>ixgbe_uc_unsync\<close> for the
  addresses that changed and returns an error if one of the calls failed.
\<close>

definition ixgbe_set_rx_mode :: "(ixgbe_adapter \<Rightarrow> int \<times> ixgbe_adapter) \<Rightarrow> ixgbe_adapter \<Rightarrow> ixgbe_adapter" where
  "ixgbe_set_rx_mode dev_uc_sync a =
     (let fctrl = rdreg a IXGBE_FCTRL OR IXGBE_FCTRL_BAM OR IXGBE_FCTRL_DPF OR IXGBE_FCTRL_PMCF;
          fctrl = fctrl AND NOT (IXGBE_FCTRL_UPE OR IXGBE_FCTRL_MPE);
          vmolr = IXGBE_VMOLR_BAM OR IXGBE_VMOLR_AUPE;
          pr = promisc (netdev a); am = allmulti (netdev a);
          fctrl = (if pr then fctrl OR (IXGBE_FCTRL_UPE OR IXGBE_FCTRL_MPE) else if am then fctrl OR IXGBE_FCTRL_MPE else fctrl);
          vmolr = (if pr \<or> am then vmolr OR IXGBE_VMOLR_MPE else vmolr);
          filter_vlans = (vlan_ctag_filter (netdev a) \<and> \<not> pr);
          a = a\<lparr>hw := (hw a)\<lparr>addr_ctrl := (addr_ctrl (hw a))\<lparr>user_set_promisc := pr\<rparr>\<rparr>\<rparr>;
          (err, a) = dev_uc_sync a;
          (fctrl, vmolr) = (if err \<noteq> 0 then (fctrl OR IXGBE_FCTRL_UPE, vmolr OR IXGBE_VMOLR_ROPE) else (fctrl, vmolr));
          (count, a) = ixgbe_write_mc_addr_list a;
          (fctrl, vmolr) = (if count < 0 then (fctrl OR IXGBE_FCTRL_MPE, vmolr OR IXGBE_VMOLR_MPE)
             else if count \<noteq> 0 then (fctrl, vmolr OR IXGBE_VMOLR_ROMPE) else (fctrl, vmolr));
          a = (if mac_type (mac (hw a)) \<noteq> ixgbe_mac_82598EB then
                 wrreg (IXGBE_VMOLR (VMDQ_P a 0)) (vmolr OR (rdreg a (IXGBE_VMOLR (VMDQ_P a 0)) AND
                   NOT (IXGBE_VMOLR_MPE OR IXGBE_VMOLR_ROMPE OR IXGBE_VMOLR_ROPE))) a
               else a);
          a = wrreg IXGBE_FCTRL fctrl a;
          a = (if vlan_ctag_rx (netdev a) then ixgbe_vlan_strip_enable a else ixgbe_vlan_strip_disable a)
      in if filter_vlans then ixgbe_vlan_promisc_disable a else ixgbe_vlan_promisc_enable a)"

section \<open>VLANs of the PF\<close>

definition ixgbe_vlan_rx_add_vid :: "ixgbe_adapter \<Rightarrow> u16 \<Rightarrow> ixgbe_adapter" where
  "ixgbe_vlan_rx_add_vid a vid =
     (let a = (if vid < 4096 then a\<lparr>active_vlans := (active_vlans a)(unat vid := True)\<rparr> else a);
          a = (if vid = 0 \<or> \<not> vlan_promisc a then snd (set_vfta a (ucast vid) (VMDQ_P a 0) True (vid \<noteq> 0)) else a)
      in if vmdq_enabled a \<and> mac_type (mac (hw a)) \<noteq> ixgbe_mac_82598EB
         then for_upto 1 (num_rx_pools a) (\<lambda>i a. snd (set_vfta a (ucast vid) (VMDQ_P a i) True True)) a
         else a)"

definition ixgbe_vlan_rx_kill_vid :: "ixgbe_adapter \<Rightarrow> u16 \<Rightarrow> ixgbe_adapter" where
  "ixgbe_vlan_rx_kill_vid a vid =
     (if vid = 0 then a
      else
        let a = (if \<not> vlan_promisc a then snd (set_vfta a (ucast vid) (VMDQ_P a 0) False True) else a);
            a = (if vmdq_enabled a \<and> mac_type (mac (hw a)) \<noteq> ixgbe_mac_82598EB
                 then for_upto 1 (num_rx_pools a) (\<lambda>i a. snd (set_vfta a (ucast vid) (VMDQ_P a i) False True)) a
                 else a)
        in a\<lparr>active_vlans := (active_vlans a)(unat vid := False)\<rparr>)"

section \<open>Requests of a VF\<close>

definition ixgbe_set_vf_mac_addr :: "ixgbe_adapter \<Rightarrow> u32 list \<Rightarrow> nat \<Rightarrow> int \<times> ixgbe_adapter" where
  "ixgbe_set_vf_mac_addr a msg vf =
     (let new_mac = msg_mac msg; v = vfinfo a ! vf in
      if \<not> is_valid_ether_addr new_mac then (- 1, a)
      else if pf_set_mac v \<and> \<not> trusted v \<and> vf_mac_addresses v \<noteq> new_mac then (- 1, a)
      else let (r, a) = ixgbe_set_vf_mac a vf new_mac in (if r < 0 then 1 else 0, a))"

definition ixgbe_set_vf_vlan_msg :: "ixgbe_adapter \<Rightarrow> u32 list \<Rightarrow> nat \<Rightarrow> int \<times> ixgbe_adapter" where
  "ixgbe_set_vf_vlan_msg a msg vf =
     (let add = (msg_info msg \<noteq> 0); vid = msg ! 1 AND 0xFFF in
      if pf_vlan (vfinfo a ! vf) \<noteq> 0 \<or> num_tc (netdev a) \<noteq> 0 then (- 1, a)
      else if vid = 0 \<and> \<not> add then (0, a)
      else ixgbe_set_vf_vlan a add vid vf)"

definition ixgbe_set_vf_macvlan_msg :: "ixgbe_adapter \<Rightarrow> u32 list \<Rightarrow> nat \<Rightarrow> int \<times> ixgbe_adapter" where
  "ixgbe_set_vf_macvlan_msg a msg vf =
     (let new_mac = msg_mac msg; index = msg_info msg; v = vfinfo a ! vf in
      if pf_set_mac v \<and> \<not> trusted v \<and> index > 0 then (- 1, a)
      else if index \<noteq> 0 \<and> \<not> is_valid_ether_addr new_mac then (- 1, a)
      else
        let a = (if index \<noteq> 0 \<and> spoofchk_enabled v
                 then a\<lparr>hw := ixgbe_set_vlan_anti_spoofing (ixgbe_set_mac_anti_spoofing (hw a) False vf) False vf\<rparr> else a);
            (err, a) = ixgbe_set_vf_macvlan a vf index new_mac
        in (if err < 0 then 1 else 0, a))"

definition ixgbe_negotiate_vf_api :: "ixgbe_adapter \<Rightarrow> u32 list \<Rightarrow> nat \<Rightarrow> int \<times> ixgbe_adapter" where
  "ixgbe_negotiate_vf_api a msg vf =
     (let api = msg ! 1 in
      if api \<in> {ixgbe_mbox_api_10, ixgbe_mbox_api_11, ixgbe_mbox_api_12, ixgbe_mbox_api_13, ixgbe_mbox_api_16, ixgbe_mbox_api_17}
      then (0, set_vf vf (\<lambda>v. v\<lparr>vf_api := api\<rparr>) a) else (- 1, a))"

text \<open>Handlers that answer in the message return it; \<open>msg[i] = x\<close> is a list update.\<close>

definition ixgbe_get_vf_queues :: "ixgbe_adapter \<Rightarrow> u32 list \<Rightarrow> nat \<Rightarrow> int \<times> u32 list" where
  "ixgbe_get_vf_queues a msg vf =
     (let v = vfinfo a ! vf; tcs = num_tc (netdev a) in
      if vf_api v \<notin> {ixgbe_mbox_api_20, ixgbe_mbox_api_11, ixgbe_mbox_api_12, ixgbe_mbox_api_13, ixgbe_mbox_api_16, ixgbe_mbox_api_17}
      then (- 1, msg)
      else
        (0, msg[1 := of_nat (q_per_pool a), 2 := of_nat (q_per_pool a),
               3 := (if tcs \<noteq> 0 then ucast tcs else if pf_vlan v \<noteq> 0 \<or> pf_qos v \<noteq> 0 then 1 else 0),
               4 := (if tcs > 1 then ucast (prio_tc_map (netdev a) (default_up a)) else 0)]))"

definition ixgbe_rss_indir_tbl_entries :: "ixgbe_adapter \<Rightarrow> nat" where
  "ixgbe_rss_indir_tbl_entries a =
     (if mac_type_val (mac_type (mac (hw a))) < mac_type_val ixgbe_mac_X550 then 128
      else if sriov_enabled a then 64 else 512)"

definition api_12_on :: "u32 set" where
  "api_12_on = {ixgbe_mbox_api_12, ixgbe_mbox_api_13, ixgbe_mbox_api_16, ixgbe_mbox_api_17}"

definition reta_word :: "u8 list \<Rightarrow> nat \<Rightarrow> u32" where
  "reta_word reta i = for_upto 0 16 (\<lambda>j w. w OR push_bit (2 * j) (ucast (reta ! (16 * i + j) AND 0x3))) 0"

definition ixgbe_get_vf_reta :: "ixgbe_adapter \<Rightarrow> u32 list \<Rightarrow> nat \<Rightarrow> int \<times> u32 list" where
  "ixgbe_get_vf_reta a msg vf =
     (let v = vfinfo a ! vf in
      if \<not> rss_query_enabled v then (- EPERM, msg)
      else if vf_api v \<notin> api_12_on then (- EOPNOTSUPP, msg)
      else (0, for_upto 0 (ixgbe_rss_indir_tbl_entries a div 16) (\<lambda>i m. m[1 + i := reta_word (rss_indir_tbl a) i]) msg))"

definition ixgbe_get_vf_rss_key :: "ixgbe_adapter \<Rightarrow> u32 list \<Rightarrow> nat \<Rightarrow> int \<times> u32 list" where
  "ixgbe_get_vf_rss_key a msg vf =
     (let v = vfinfo a ! vf in
      if \<not> rss_query_enabled v then (- EPERM, msg)
      else if vf_api v \<notin> api_12_on then (- EOPNOTSUPP, msg)
      else (0, for_upto 0 10 (\<lambda>i m. m[1 + i := rss_key a ! i]) msg))"

text \<open>The bits that a mode disables and enables; promiscuity needs a part that supports it and a promiscuous PF.\<close>

definition xcast_bits :: "ixgbe_adapter \<Rightarrow> int \<Rightarrow> int + u32 \<times> u32" where
  "xcast_bits a mode =
     (if mode = IXGBEVF_XCAST_MODE_NONE then
        Inr (IXGBE_VMOLR_BAM OR IXGBE_VMOLR_ROMPE OR IXGBE_VMOLR_MPE OR IXGBE_VMOLR_UPE OR IXGBE_VMOLR_VPE, 0)
      else if mode = IXGBEVF_XCAST_MODE_MULTI then
        Inr (IXGBE_VMOLR_MPE OR IXGBE_VMOLR_UPE OR IXGBE_VMOLR_VPE, IXGBE_VMOLR_BAM OR IXGBE_VMOLR_ROMPE)
      else if mode = IXGBEVF_XCAST_MODE_ALLMULTI then
        Inr (IXGBE_VMOLR_UPE OR IXGBE_VMOLR_VPE, IXGBE_VMOLR_BAM OR IXGBE_VMOLR_ROMPE OR IXGBE_VMOLR_MPE)
      else if mode = IXGBEVF_XCAST_MODE_PROMISC then
        (if mac_type_val (mac_type (mac (hw a))) \<le> mac_type_val ixgbe_mac_82599EB then Inl (- EOPNOTSUPP)
         else if rdreg a IXGBE_FCTRL AND IXGBE_FCTRL_UPE = 0 then Inl (- EPERM)
         else Inr (0, IXGBE_VMOLR_BAM OR IXGBE_VMOLR_ROMPE OR IXGBE_VMOLR_MPE OR IXGBE_VMOLR_UPE OR IXGBE_VMOLR_VPE))
      else Inl (- EOPNOTSUPP))"

definition ixgbe_update_vf_xcast_mode :: "ixgbe_adapter \<Rightarrow> u32 list \<Rightarrow> nat \<Rightarrow> int \<times> u32 list \<times> ixgbe_adapter" where
  "ixgbe_update_vf_xcast_mode a msg vf =
     (let xcast = sint (msg ! 1); v = vfinfo a ! vf in
      if vf_api v \<notin> api_12_on then (- EOPNOTSUPP, msg, a)
      else if vf_api v = ixgbe_mbox_api_12 \<and> xcast = IXGBEVF_XCAST_MODE_PROMISC then (- EOPNOTSUPP, msg, a)
      else
        let xcast = (if xcast > IXGBEVF_XCAST_MODE_MULTI \<and> \<not> trusted v then IXGBEVF_XCAST_MODE_MULTI else xcast) in
        if xcast_mode v = xcast then (0, msg[1 := word_of_int xcast], a)
        else case xcast_bits a xcast of
            Inl err \<Rightarrow> (err, msg, a)
          | Inr (disable, enable) \<Rightarrow>
              let vmolr = rdreg a (IXGBE_VMOLR vf);
                  a = wrreg (IXGBE_VMOLR vf) ((vmolr AND NOT disable) OR enable) a;
                  a = set_vf vf (\<lambda>v. v\<lparr>xcast_mode := xcast\<rparr>) a
              in (0, msg[1 := word_of_int xcast], a))"

definition ixgbe_get_vf_link_state :: "ixgbe_adapter \<Rightarrow> u32 list \<Rightarrow> nat \<Rightarrow> int \<times> u32 list" where
  "ixgbe_get_vf_link_state a msg vf =
     (let v = vfinfo a ! vf in
      if vf_api v \<notin> api_12_on then (- EOPNOTSUPP, msg) else (0, msg[1 := (if link_enable v then 1 else 0)]))"

definition ixgbe_get_vf_link_status :: "ixgbe_adapter \<Rightarrow> u32 list \<Rightarrow> nat \<Rightarrow> int \<times> u32 list" where
  "ixgbe_get_vf_link_status a msg vf =
     (if vf_api (vfinfo a ! vf) \<notin> {ixgbe_mbox_api_16, ixgbe_mbox_api_17} then (- EOPNOTSUPP, msg)
      else if mac_type (mac (hw a)) \<noteq> ixgbe_mac_E610 then (- EOPNOTSUPP, msg)
      else (0, msg[1 := link_speed a, 2 := (if link_up a then 1 else 0)]))"

definition ixgbe_negotiate_vf_features :: "ixgbe_adapter \<Rightarrow> u32 list \<Rightarrow> nat \<Rightarrow> int \<times> u32 list" where
  "ixgbe_negotiate_vf_features a msg vf =
     (if vf_api (vfinfo a ! vf) \<noteq> ixgbe_mbox_api_17 then (- EOPNOTSUPP, msg)
      else (0, msg[1 := msg ! 1 AND IXGBE_SUPPORTED_FEATURES]))"

text \<open>
  The switch of \<open>ixgbe_rcv_msg_from_vf\<close>.  \<open>None\<close> is the early return of an oversized frame request,
  which leaves the VF without an answer.
\<close>

definition vf_request :: "ixgbe_adapter \<Rightarrow> u32 list \<Rightarrow> nat \<Rightarrow> (int \<times> u32 list \<times> ixgbe_adapter) option" where
  "vf_request a msg vf =
     (let changed = (\<lambda>(r, a). Some (r, msg, a)); answered = (\<lambda>(r, msg). Some (r, msg, a)); req = msg ! 0 AND 0xFFFF in
      if req = IXGBE_VF_SET_MAC_ADDR then changed (ixgbe_set_vf_mac_addr a msg vf)
      else if req = IXGBE_VF_SET_MULTICAST then changed (ixgbe_set_vf_multicasts a msg vf)
      else if req = IXGBE_VF_SET_VLAN then changed (ixgbe_set_vf_vlan_msg a msg vf)
      else if req = IXGBE_VF_SET_LPE then
        (if msg ! 1 > IXGBE_MAX_JUMBO_FRAME_SIZE then None else changed (ixgbe_set_vf_lpe a (msg ! 1) vf))
      else if req = IXGBE_VF_SET_MACVLAN then changed (ixgbe_set_vf_macvlan_msg a msg vf)
      else if req = IXGBE_VF_API_NEGOTIATE then changed (ixgbe_negotiate_vf_api a msg vf)
      else if req = IXGBE_VF_GET_QUEUES then answered (ixgbe_get_vf_queues a msg vf)
      else if req = IXGBE_VF_GET_RETA then answered (ixgbe_get_vf_reta a msg vf)
      else if req = IXGBE_VF_GET_RSS_KEY then answered (ixgbe_get_vf_rss_key a msg vf)
      else if req = IXGBE_VF_UPDATE_XCAST_MODE then Some (ixgbe_update_vf_xcast_mode a msg vf)
      else if req = IXGBE_VF_GET_LINK_STATE then answered (ixgbe_get_vf_link_state a msg vf)
      else if req = IXGBE_VF_GET_PF_LINK_STATE then answered (ixgbe_get_vf_link_status a msg vf)
      else if req = IXGBE_VF_FEATURES_NEGOTIATE then answered (ixgbe_negotiate_vf_features a msg vf)
      else Some (ixgbe_status_code IXGBE_ERR_MBX, msg, a))"

section \<open>Reset of a VF\<close>

definition vf_toggle_queues :: "ixgbe_adapter \<Rightarrow> nat \<Rightarrow> ixgbe_adapter" where
  "vf_toggle_queues a vf =
     for_upto 0 (q_per_pool a) (\<lambda>queue a.
       let r = IXGBE_PVFTXDCTL (vf * q_per_pool a + queue); v = rdreg a r
       in if v \<noteq> 0 then wrreg r ((v OR IXGBE_TXDCTL_ENABLE) AND NOT IXGBE_TXDCTL_ENABLE)
                          (wrreg r (v OR IXGBE_TXDCTL_ENABLE) a)
          else a) a"

text \<open>\<open>ixgbe_vf_reset_event\<close> up to the clearing of the mailbox memory.\<close>

definition vf_reset_filters :: "(ixgbe_adapter \<Rightarrow> int \<times> ixgbe_adapter) \<Rightarrow> ixgbe_adapter \<Rightarrow> nat \<Rightarrow> ixgbe_adapter" where
  "vf_reset_filters uc a vf =
     (let v = vfinfo a ! vf; tcs = num_tc (netdev a);
          a = ixgbe_clear_vf_vlans a vf;
          a = snd (ixgbe_set_vf_vlan a True (ucast (pf_vlan v)) vf);
          a = ixgbe_set_vmolr vf (pf_vlan v = 0) a;
          a = (if pf_vlan v = 0 \<and> pf_qos v = 0 \<and> tcs = 0 then ixgbe_clear_vmvir a vf
               else if pf_qos v \<noteq> 0 \<or> tcs = 0 then ixgbe_set_vmvir a (pf_vlan v) (pf_qos v) vf
               else ixgbe_set_vmvir a (pf_vlan v) (ucast (default_up a)) vf);
          a = set_vf vf (\<lambda>v. v\<lparr>num_vf_mc_hashes := 0\<rparr>) a;
          a = ixgbe_set_rx_mode uc a;
          a = snd (ixgbe_del_mac_filter a (vf_mac_addresses (vfinfo a ! vf)) (of_nat vf));
          a = snd (ixgbe_set_vf_macvlan a vf 0 []);
          a = set_vf vf (\<lambda>v. v\<lparr>vf_api := ixgbe_mbox_api_10\<rparr>) a
      in if mac_type_val (mac_type (mac (hw a))) \<ge> mac_type_val ixgbe_mac_X550 then vf_toggle_queues a vf else a)"

text \<open>\<open>ixgbe_vf_reset_msg\<close> between the reset event and the answer, and the answer.\<close>

definition vf_reset_enable :: "ixgbe_adapter \<Rightarrow> nat \<Rightarrow> ixgbe_adapter" where
  "vf_reset_enable a vf =
     (let m = vf_mac_addresses (vfinfo a ! vf);
          a = (if \<not> is_zero_ether_addr m then snd (ixgbe_set_vf_mac a vf m) else a);
          a = ixgbe_write_qde a vf (if pf_vlan (vfinfo a ! vf) \<noteq> 0 then IXGBE_QDE_ENABLE OR IXGBE_QDE_HIDE_VLAN else IXGBE_QDE_ENABLE);
          a = ixgbe_set_vf_rx_tx a vf;
          a = set_vf vf (\<lambda>v. v\<lparr>clear_to_send := True\<rparr>) a;
          a = wrreg (IXGBE_VMECM (vf div 32)) (rdreg a (IXGBE_VMECM (vf div 32)) OR BIT (vf mod 32)) a
      in for_upto 0 (q_per_pool a) (\<lambda>i a. wrreg (IXGBE_PVFTDWBAL (q_per_pool a * vf + i)) 0
           (wrreg (IXGBE_PVFTDWBAH (q_per_pool a * vf + i)) 0 a)) a)"

definition vf_reset_answer :: "ixgbe_adapter \<Rightarrow> nat \<Rightarrow> u32 list" where
  "vf_reset_answer a vf =
     (let v = vfinfo a ! vf; m = vf_mac_addresses v; ok = (\<not> is_zero_ether_addr m \<and> pf_set_mac v)
      in [IXGBE_VF_RESET OR (if ok then IXGBE_VT_MSGTYPE_SUCCESS else IXGBE_VT_MSGTYPE_FAILURE),
          if ok then addr_low m else 0, if ok then addr_high m else 0,
          word_of_int (mc_filter_type (mac (hw a)))])"

section \<open>Settings of the administrator\<close>

text \<open>The VF number is the \<open>int\<close> argument of the network device operation and is checked first.\<close>

definition bad_vf :: "ixgbe_adapter \<Rightarrow> int \<Rightarrow> bool" where
  "bad_vf a vf \<longleftrightarrow> vf < 0 \<or> vf \<ge> int (num_vfs a)"

definition ixgbe_ndo_set_vf_mac :: "ixgbe_adapter \<Rightarrow> int \<Rightarrow> u8 list \<Rightarrow> int \<times> ixgbe_adapter" where
  "ixgbe_ndo_set_vf_mac a vf addr =
     (if bad_vf a vf then (- EINVAL, a)
      else if is_valid_ether_addr addr then
        let (retval, a) = ixgbe_set_vf_mac a (nat vf) addr
        in (retval, if retval \<ge> 0 then set_vf (nat vf) (\<lambda>v. v\<lparr>pf_set_mac := True\<rparr>) a else a)
      else if is_zero_ether_addr addr then
        let vf_mac_addr = vf_mac_addresses (vfinfo a ! nat vf) in
        if is_zero_ether_addr vf_mac_addr then (0, a)
        else let (retval, a) = ixgbe_del_mac_filter a vf_mac_addr (word_of_int vf)
             in (retval, if retval \<ge> 0
                         then set_vf (nat vf) (\<lambda>v. v\<lparr>pf_set_mac := False, vf_mac_addresses := addr\<rparr>) a else a)
      else (- EINVAL, a))"

definition ixgbe_enable_port_vlan :: "ixgbe_adapter \<Rightarrow> nat \<Rightarrow> u16 \<Rightarrow> u8 \<Rightarrow> int \<times> ixgbe_adapter" where
  "ixgbe_enable_port_vlan a vf vlan qos =
     (let (err, a) = ixgbe_set_vf_vlan a True (ucast vlan) vf in
      if err \<noteq> 0 then (err, a)
      else
        let a = snd (ixgbe_set_vf_vlan a False 0 vf);
            a = ixgbe_set_vmvir a vlan (ucast qos) vf;
            a = ixgbe_set_vmolr vf False a;
            a = (if mac_type_val (mac_type (mac (hw a))) \<ge> mac_type_val ixgbe_mac_X550
                 then ixgbe_write_qde a vf (IXGBE_QDE_ENABLE OR IXGBE_QDE_HIDE_VLAN) else a)
        in (err, set_vf vf (\<lambda>v. v\<lparr>pf_vlan := vlan, pf_qos := ucast qos\<rparr>) a))"

definition ixgbe_disable_port_vlan :: "ixgbe_adapter \<Rightarrow> nat \<Rightarrow> int \<times> ixgbe_adapter" where
  "ixgbe_disable_port_vlan a vf =
     (let (err, a) = ixgbe_set_vf_vlan a False (ucast (pf_vlan (vfinfo a ! vf))) vf;
          a = snd (ixgbe_set_vf_vlan a True 0 vf);
          a = ixgbe_clear_vmvir a vf;
          a = ixgbe_set_vmolr vf True a;
          a = (if mac_type_val (mac_type (mac (hw a))) \<ge> mac_type_val ixgbe_mac_X550
               then ixgbe_write_qde a vf IXGBE_QDE_ENABLE else a)
      in (err, set_vf vf (\<lambda>v. v\<lparr>pf_vlan := 0, pf_qos := 0\<rparr>) a))"

text \<open>The protocol is compared after conversion to network order; only 802.1Q is accepted.\<close>

definition ixgbe_ndo_set_vf_vlan :: "ixgbe_adapter \<Rightarrow> int \<Rightarrow> u16 \<Rightarrow> u8 \<Rightarrow> u16 \<Rightarrow> int \<times> ixgbe_adapter" where
  "ixgbe_ndo_set_vf_vlan a vf vlan qos vlan_proto =
     (if bad_vf a vf \<or> vlan > 4094 \<or> qos > 7 then (- EINVAL, a)
      else if vlan_proto \<noteq> ETH_P_8021Q then (- EPROTONOSUPPORT, a)
      else if vlan \<noteq> 0 \<or> qos \<noteq> 0 then
        let (err, a) = (if pf_vlan (vfinfo a ! nat vf) \<noteq> 0 then ixgbe_disable_port_vlan a (nat vf) else (0, a))
        in if err \<noteq> 0 then (err, a) else ixgbe_enable_port_vlan a (nat vf) vlan qos
      else ixgbe_disable_port_vlan a (nat vf))"

definition ixgbe_link_mbps :: "ixgbe_adapter \<Rightarrow> int" where
  "ixgbe_link_mbps a =
     (if link_speed a = 0x0008 then 100 else if link_speed a = 0x0020 then 1000
      else if link_speed a = 0x0080 then 10000 else 0)"

definition ixgbe_set_vf_rate_limit :: "ixgbe_adapter \<Rightarrow> nat \<Rightarrow> ixgbe_adapter" where
  "ixgbe_set_vf_rate_limit a vf =
     (let tx = tx_rate (vfinfo a ! vf);
          bcnrc_val = (if tx \<noteq> 0 then
              (push_bit 14 (word_of_int (vf_rate_link_speed a) :: u32) div ucast tx) AND (0x0FFFC000 OR 0x00003FFF) OR 0x80000000
            else 0);
          a = (case mac_type (mac (hw a)) of
                 ixgbe_mac_82599EB \<Rightarrow> wrreg IXGBE_RTTBCNRM 0x4 a
               | ixgbe_mac_X540 \<Rightarrow> wrreg IXGBE_RTTBCNRM 0x14 a
               | _ \<Rightarrow> a)
      in for_upto 0 (q_per_pool a) (\<lambda>queue a.
           wrreg IXGBE_RTTBCNRC bcnrc_val (wrreg IXGBE_RTTDQSEL (of_nat (vf * q_per_pool a + queue)) a)) a)"

definition ixgbe_check_vf_rate_limit :: "ixgbe_adapter \<Rightarrow> ixgbe_adapter" where
  "ixgbe_check_vf_rate_limit a =
     (if vf_rate_link_speed a = 0 then a
      else
        let a = (if ixgbe_link_mbps a \<noteq> vf_rate_link_speed a then a\<lparr>vf_rate_link_speed := 0\<rparr> else a)
        in for_upto 0 (num_vfs a) (\<lambda>i a.
             let a = (if vf_rate_link_speed a = 0 then set_vf i (\<lambda>v. v\<lparr>tx_rate := 0\<rparr>) a else a)
             in ixgbe_set_vf_rate_limit a i) a)"

definition ixgbe_ndo_set_vf_bw :: "ixgbe_adapter \<Rightarrow> int \<Rightarrow> int \<Rightarrow> int \<times> ixgbe_adapter" where
  "ixgbe_ndo_set_vf_bw a vf max_tx_rate =
     (let mbps = ixgbe_link_mbps a in
      if bad_vf a vf then (- EINVAL, a)
      else if \<not> link_up a then (- EINVAL, a)
      else if mbps \<noteq> 10000 then (- EINVAL, a)
      else if max_tx_rate \<noteq> 0 \<and> (max_tx_rate \<le> 10 \<or> max_tx_rate > mbps) then (- EINVAL, a)
      else (0, ixgbe_set_vf_rate_limit (set_vf (nat vf) (\<lambda>v. v\<lparr>tx_rate := word_of_int max_tx_rate\<rparr>)
                 (a\<lparr>vf_rate_link_speed := mbps\<rparr>)) (nat vf)))"

text \<open>The operation is installed from the X550 on.\<close>

definition ixgbe_set_ethertype_anti_spoofing_X550 :: "ixgbe_hw \<Rightarrow> bool \<Rightarrow> nat \<Rightarrow> ixgbe_hw" where
  "ixgbe_set_ethertype_anti_spoofing_X550 h enable vf =
     (let vf_target_reg = vf div 8; vf_target_shift = vf mod 8 + 16;
          pfvfspoof = IXGBE_READ_REG h (IXGBE_PFVFSPOOF vf_target_reg)
      in IXGBE_WRITE_REG h (IXGBE_PFVFSPOOF vf_target_reg)
           (if enable then pfvfspoof OR BIT vf_target_shift else pfvfspoof AND NOT (BIT vf_target_shift)))"

definition ixgbe_ndo_set_vf_spoofchk :: "ixgbe_adapter \<Rightarrow> int \<Rightarrow> bool \<Rightarrow> int \<times> ixgbe_adapter" where
  "ixgbe_ndo_set_vf_spoofchk a vf setting =
     (if bad_vf a vf then (- EINVAL, a)
      else
        let a = set_vf (nat vf) (\<lambda>v. v\<lparr>spoofchk_enabled := setting\<rparr>) a;
            a = a\<lparr>hw := ixgbe_set_vlan_anti_spoofing (ixgbe_set_mac_anti_spoofing (hw a) setting (nat vf)) setting (nat vf)\<rparr>
        in (0, if mac_type_val (mac_type (mac (hw a))) \<ge> mac_type_val ixgbe_mac_X550 then
                 let a = wrreg (IXGBE_ETQF 5) (0x80000000 OR 0x20000000 OR 0x88CC) a;
                     a = wrreg (IXGBE_ETQF 7) (0x80000000 OR 0x20000000 OR 0x8808) a
                 in a\<lparr>hw := ixgbe_set_ethertype_anti_spoofing_X550 (hw a) setting (nat vf)\<rparr>
               else a))"

definition ixgbe_ndo_set_vf_rss_query_en :: "ixgbe_adapter \<Rightarrow> int \<Rightarrow> bool \<Rightarrow> int \<times> ixgbe_adapter" where
  "ixgbe_ndo_set_vf_rss_query_en a vf setting =
     (if mac_type_val (mac_type (mac (hw a))) < mac_type_val ixgbe_mac_82599EB \<or>
         mac_type_val (mac_type (mac (hw a))) \<ge> mac_type_val ixgbe_mac_X550 then (- EOPNOTSUPP, a)
      else if bad_vf a vf then (- EINVAL, a)
      else (0, set_vf (nat vf) (\<lambda>v. v\<lparr>rss_query_enabled := setting\<rparr>) a))"

record ifla_vf_info =
  ivi_vf :: int
  ivi_mac :: "u8 list"
  ivi_max_tx_rate :: u16
  ivi_min_tx_rate :: u16
  ivi_vlan :: u16
  ivi_qos :: u16
  ivi_linkstate :: int
  ivi_spoofchk :: bool
  ivi_rss_query_en :: bool
  ivi_trusted :: bool

definition ixgbe_ndo_get_vf_config :: "ixgbe_adapter \<Rightarrow> int \<Rightarrow> int + ifla_vf_info" where
  "ixgbe_ndo_get_vf_config a vf =
     (if bad_vf a vf then Inl (- EINVAL)
      else let v = vfinfo a ! nat vf in
        Inr \<lparr>ivi_vf = vf, ivi_mac = vf_mac_addresses v, ivi_max_tx_rate = tx_rate v, ivi_min_tx_rate = 0,
             ivi_vlan = pf_vlan v, ivi_qos = pf_qos v, ivi_linkstate = link_state v,
             ivi_spoofchk = spoofchk_enabled v, ivi_rss_query_en = rss_query_enabled v, ivi_trusted = trusted v\<rparr>)"

end
