(* ===== verification/Ixgbe_SriovMsg.thy ===== *)
theory Ixgbe_SriovMsg
  imports Ixgbe_Sriov
begin

text \<open>
  The message loop of the PF (\<open>ixgbe_msg_task\<close>, \<open>ixgbe_sriov.c\<close>): VF resets, requests and
  acknowledgements that arrive through the mailboxes, the answers, notifications of the VFs and
  the malicious driver detection of the X550.  The mailboxes are those of \<open>Ixgbe_Mbx\<close> over an
  arbitrary device.
\<close>

unbundle bit_operations_syntax

section \<open>State\<close>

record 's sriov =
  sr_adapter :: ixgbe_adapter
  sr_mbx :: "'s ixgbe_mbx_info"

type_synonym ('s, 'a) sriov_prog = "('s sriov, 'a) state"

definition on_adapter :: "(ixgbe_adapter \<Rightarrow> ixgbe_adapter) \<Rightarrow> ('s, unit) sriov_prog" where
  "on_adapter f = State (\<lambda>s. ((), s\<lparr>sr_adapter := f (sr_adapter s)\<rparr>))"

definition adapter_get :: "(ixgbe_adapter \<Rightarrow> 'a) \<Rightarrow> ('s, 'a) sriov_prog" where
  "adapter_get f = State (\<lambda>s. (f (sr_adapter s), s))"

definition on_mbx :: "('s, 'a) mbx_prog \<Rightarrow> ('s, 'a) sriov_prog" where
  "on_mbx p = State (\<lambda>s. case run_state p (sr_mbx s) of (x, m) \<Rightarrow> (x, s\<lparr>sr_mbx := m\<rparr>))"

primrec each :: "nat list \<Rightarrow> (nat \<Rightarrow> ('h, unit) state) \<Rightarrow> ('h, unit) state" where
  "each [] f = ret ()"
| "each (i # is) f = do { f i; each is f }"

section \<open>Reset\<close>

text \<open>The mailbox memory of the VF is cleared after the filters (\<open>ixgbe_vf_reset_event\<close>).\<close>

definition ixgbe_vf_reset_event :: "'s device \<Rightarrow> (ixgbe_adapter \<Rightarrow> int \<times> ixgbe_adapter) \<Rightarrow> nat \<Rightarrow> ('s, unit) sriov_prog" where
  "ixgbe_vf_reset_event d uc vf = do {
     on_adapter (\<lambda>a. vf_reset_filters uc a vf);
     t \<leftarrow> adapter_get (\<lambda>a. mac_type (mac (hw a)));
     if mac_type_val t \<ge> mac_type_val ixgbe_mac_X550
     then each [0..<unat IXGBE_VFMAILBOX_SIZE] (\<lambda>word. on_mbx (wr d (IXGBE_PFMBMEM vf word) 0))
     else ret () }"

definition ixgbe_vf_reset_msg :: "'s device \<Rightarrow> (ixgbe_adapter \<Rightarrow> int \<times> ixgbe_adapter) \<Rightarrow> nat \<Rightarrow> ('s, int) sriov_prog" where
  "ixgbe_vf_reset_msg d uc vf = do {
     ixgbe_vf_reset_event d uc vf;
     on_adapter (\<lambda>a. vf_reset_enable a vf);
     msgbuf \<leftarrow> adapter_get (\<lambda>a. vf_reset_answer a vf);
     on_mbx (ixgbe_write_mbx d msgbuf vf);
     ret 0 }"

section \<open>Requests\<close>

definition ixgbe_rcv_msg_from_vf :: "'s device \<Rightarrow> (ixgbe_adapter \<Rightarrow> int \<times> ixgbe_adapter) \<Rightarrow> nat \<Rightarrow> ('s, int) sriov_prog" where
  "ixgbe_rcv_msg_from_vf d uc vf = do {
     (st, msg) \<leftarrow> on_mbx (ixgbe_read_mbx d IXGBE_VFMAILBOX_SIZE vf);
     cts \<leftarrow> adapter_get (\<lambda>a. clear_to_send (vfinfo a ! vf));
     if st \<noteq> IXGBE_SUCCESS then ret (ixgbe_status_code st)
     else if msg ! 0 AND (IXGBE_VT_MSGTYPE_SUCCESS OR IXGBE_VT_MSGTYPE_FAILURE) \<noteq> 0 then ret 0
     else if msg ! 0 = IXGBE_VF_RESET then ixgbe_vf_reset_msg d uc vf
     else if \<not> cts then do {
       on_mbx (ixgbe_write_mbx d [msg ! 0 OR IXGBE_VT_MSGTYPE_FAILURE] vf);
       ret 0 }
     else do {
       r \<leftarrow> adapter_get (\<lambda>a. vf_request a msg vf);
       case r of
         None \<Rightarrow> ret (- EINVAL)
       | Some (retval, msg, a) \<Rightarrow> do {
           on_adapter (\<lambda>_. a);
           let w0 = msg ! 0 OR (if retval \<noteq> 0 then IXGBE_VT_MSGTYPE_FAILURE else IXGBE_VT_MSGTYPE_SUCCESS);
           on_mbx (ixgbe_write_mbx d (msg[0 := w0 OR IXGBE_VT_MSGTYPE_CTS]) vf);
           ret retval } } }"

definition ixgbe_rcv_ack_from_vf :: "'s device \<Rightarrow> nat \<Rightarrow> ('s, unit) sriov_prog" where
  "ixgbe_rcv_ack_from_vf d vf = do {
     cts \<leftarrow> adapter_get (\<lambda>a. clear_to_send (vfinfo a ! vf));
     if \<not> cts then do { on_mbx (ixgbe_write_mbx d [IXGBE_VT_MSGTYPE_FAILURE] vf); ret () } else ret () }"

definition ixgbe_ping_vf :: "'s device \<Rightarrow> nat \<Rightarrow> ('s, unit) sriov_prog" where
  "ixgbe_ping_vf d vf = do {
     cts \<leftarrow> adapter_get (\<lambda>a. clear_to_send (vfinfo a ! vf));
     on_mbx (ixgbe_write_mbx d [if cts then IXGBE_PF_CONTROL_MSG OR IXGBE_VT_MSGTYPE_CTS else IXGBE_PF_CONTROL_MSG] vf);
     ret () }"

definition ixgbe_ping_all_vfs :: "'s device \<Rightarrow> ('s, unit) sriov_prog" where
  "ixgbe_ping_all_vfs d = do {
     n \<leftarrow> adapter_get num_vfs;
     each [0..<n] (ixgbe_ping_vf d) }"

section \<open>Malicious driver detection\<close>

text \<open>
  The registers WQBR have a bit for each blocked queue, and writing a one releases the queue; they
  belong to the device.  MRQC gives the number of queues of a pool.
\<close>

definition mdd_shift :: "u32 \<Rightarrow> nat" where
  "mdd_shift mrqc = (let e = mrqc AND 0xF in if e = 0xC then 3 else if e = 0xA \<or> e = 0xD then 2 else 1)"

definition mark_vf :: "nat \<Rightarrow> nat \<Rightarrow> u32 \<Rightarrow> u32 list \<Rightarrow> u32 list" where
  "mark_vf shift i wqbr vf_bitmap =
     for_upto 0 32 (\<lambda>j bm. if wqbr AND BIT j = 0 then bm
       else let vf = drop_bit shift (j + i * 32) in bm[vf div 32 := bm ! (vf div 32) OR BIT (vf mod 32)]) vf_bitmap"

primrec mdd_scan :: "'s device \<Rightarrow> nat \<Rightarrow> nat list \<Rightarrow> u32 list \<Rightarrow> ('s, u32 list) sriov_prog" where
  "mdd_scan d shift [] vf_bitmap = ret vf_bitmap"
| "mdd_scan d shift (i # is) vf_bitmap = do {
     tx \<leftarrow> on_mbx (rd d (IXGBE_WQBR_TX i));
     rx \<leftarrow> on_mbx (rd d (IXGBE_WQBR_RX i));
     mdd_scan d shift is (mark_vf shift i (tx OR rx) vf_bitmap) }"

definition ixgbe_mdd_event_X550 :: "'s device \<Rightarrow> u32 list \<Rightarrow> ('s, u32 list) sriov_prog" where
  "ixgbe_mdd_event_X550 d vf_bitmap = do {
     reg \<leftarrow> adapter_get (\<lambda>a. rdreg a IXGBE_MRQC);
     mdd_scan d (mdd_shift reg) [0..<4] vf_bitmap }"

definition ixgbe_restore_mdd_vf_X550 :: "'s device \<Rightarrow> nat \<Rightarrow> ('s, unit) sriov_prog" where
  "ixgbe_restore_mdd_vf_X550 d vf = do {
     reg \<leftarrow> adapter_get (\<lambda>a. rdreg a IXGBE_MRQC);
     let e = reg AND 0xF;
     let (num_qs, bitmask) = (if e = 0xC then (8, 0xFF) else if e = 0xA \<or> e = 0xD then (4, 0xF) else (2, 0x3 :: u32));
     let start_q = vf * num_qs;
     on_mbx (wr d (IXGBE_WQBR_TX (start_q div 32)) (push_bit (start_q mod 32) bitmask));
     on_mbx (wr d (IXGBE_WQBR_RX (start_q div 32)) (push_bit (start_q mod 32) bitmask)) }"

text \<open>
  The body of the loop over the pools reported: the two causes are read for the log, the queues are released and
  the driver of the pool is told to build them again.  Both operations are installed from the X550 on.
\<close>

definition mdd_restart :: "'s device \<Rightarrow> nat \<Rightarrow> ('s, unit) sriov_prog" where
  "mdd_restart d vf = do {
     on_mbx (rd d IXGBE_LVMMC_TX);
     on_mbx (rd d IXGBE_LVMMC_RX);
     ixgbe_restore_mdd_vf_X550 d vf;
     on_adapter (set_vf vf (\<lambda>v. v\<lparr>clear_to_send := False\<rparr>));
     on_mbx (ixgbe_write_mbx d [IXGBE_PF_CONTROL_MSG OR IXGBE_VT_MSGTYPE_CTS] vf);
     ret () }"

definition ixgbe_check_mdd_event :: "'s device \<Rightarrow> ('s, bool) sriov_prog" where
  "ixgbe_check_mdd_event d = do {
     t \<leftarrow> adapter_get (\<lambda>a. mac_type (mac (hw a)));
     if mac_type_val t < mac_type_val ixgbe_mac_X550 then ret False
     else do {
       vf_bitmap \<leftarrow> ixgbe_mdd_event_X550 d [0, 0];
       let vfs = filter (\<lambda>vf. vf_bitmap ! (vf div 32) AND BIT (vf mod 32) \<noteq> 0) [0..<64];
       each vfs (mdd_restart d);
       ret (vfs \<noteq> []) } }"

section \<open>The message loop\<close>

definition msg_task_vf :: "'s device \<Rightarrow> (ixgbe_adapter \<Rightarrow> int \<times> ixgbe_adapter) \<Rightarrow> nat \<Rightarrow> ('s, unit) sriov_prog" where
  "msg_task_vf d uc vf = do {
     rst \<leftarrow> on_mbx (ixgbe_check_for_rst d vf);
     (if rst = IXGBE_SUCCESS then ixgbe_vf_reset_event d uc vf else ret ());
     msg \<leftarrow> on_mbx (ixgbe_check_for_msg d vf);
     (if msg = IXGBE_SUCCESS then do { ixgbe_rcv_msg_from_vf d uc vf; ret () } else ret ());
     ack \<leftarrow> on_mbx (ixgbe_check_for_ack d vf);
     if ack = IXGBE_SUCCESS then ixgbe_rcv_ack_from_vf d vf else ret () }"

definition ixgbe_msg_task :: "'s device \<Rightarrow> (ixgbe_adapter \<Rightarrow> int \<times> ixgbe_adapter) \<Rightarrow> ('s, unit) sriov_prog" where
  "ixgbe_msg_task d uc = do {
     no_vfs \<leftarrow> adapter_get (\<lambda>a. vfinfo a = []);
     if no_vfs then ret ()
     else do {
       mdd \<leftarrow> adapter_get mdd_enabled;
       n \<leftarrow> adapter_get num_vfs;
       (if mdd then do { ixgbe_check_mdd_event d; ret () } else ret ());
       each [0..<n] (msg_task_vf d uc) } }"

section \<open>Settings that notify the VF\<close>

definition ixgbe_set_vf_link_state :: "'s device \<Rightarrow> nat \<Rightarrow> int \<Rightarrow> ('s, unit) sriov_prog" where
  "ixgbe_set_vf_link_state d vf state = do {
     on_adapter (\<lambda>a. set_vf vf (\<lambda>v. v\<lparr>link_state := state, link_enable :=
        (if state = 0 then \<not> is_down a else if state = 1 then True else if state = 2 then False else link_enable v)\<rparr>) a);
     on_adapter (\<lambda>a. ixgbe_set_vf_rx_tx a vf);
     on_adapter (set_vf vf (\<lambda>v. v\<lparr>clear_to_send := False\<rparr>));
     ixgbe_ping_vf d vf }"

definition ixgbe_set_all_vfs :: "'s device \<Rightarrow> ('s, unit) sriov_prog" where
  "ixgbe_set_all_vfs d = do {
     n \<leftarrow> adapter_get num_vfs;
     each [0..<n] (\<lambda>i. do { st \<leftarrow> adapter_get (\<lambda>a. link_state (vfinfo a ! i)); ixgbe_set_vf_link_state d i st }) }"

definition ixgbe_ndo_set_vf_link_state :: "'s device \<Rightarrow> int \<Rightarrow> int \<Rightarrow> ('s, int) sriov_prog" where
  "ixgbe_ndo_set_vf_link_state d vf state = do {
     bad \<leftarrow> adapter_get (\<lambda>a. bad_vf a vf);
     if bad then ret (- EINVAL)
     else if state = 1 then ret 0
     else if state = 2 \<or> state = 0 then do { ixgbe_set_vf_link_state d (nat vf) state; ret 0 }
     else ret (- EINVAL) }"

definition ixgbe_ndo_set_vf_trust :: "'s device \<Rightarrow> int \<Rightarrow> bool \<Rightarrow> ('s, int) sriov_prog" where
  "ixgbe_ndo_set_vf_trust d vf setting = do {
     bad \<leftarrow> adapter_get (\<lambda>a. bad_vf a vf);
     old \<leftarrow> adapter_get (\<lambda>a. trusted (vfinfo a ! nat vf));
     if bad then ret (- EINVAL)
     else if old = setting then ret 0
     else do {
       on_adapter (set_vf (nat vf) (\<lambda>v. v\<lparr>trusted := setting, clear_to_send := False\<rparr>));
       ixgbe_ping_vf d (nat vf);
       ret 0 } }"

section \<open>Blocked queues\<close>

definition bitmap_has :: "u32 list \<Rightarrow> nat \<Rightarrow> bool" where
  "bitmap_has bm p \<longleftrightarrow> bit (bm ! (p div 32)) (p mod 32)"

text \<open>The detection, when it runs, reports pools of VFs only.\<close>

definition mdd_within :: "'s device \<Rightarrow> 's sriov \<Rightarrow> bool" where
  "mdd_within d s \<longleftrightarrow> (let a = sr_adapter s; bm = fst (run_state (ixgbe_mdd_event_X550 d [0, 0]) s) in
     mdd_enabled a \<and> mac_type_val ixgbe_mac_X550 \<le> mac_type_val (mac_type (mac (hw a))) \<longrightarrow>
       (\<forall>p < 64. bitmap_has bm p \<longrightarrow> p < num_vfs a))"

lemma bitmap_set:
  assumes "length bm = 2" "v < 64" "p < 64"
  shows "bitmap_has (bm[v div 32 := bm ! (v div 32) OR BIT (v mod 32)]) p \<longleftrightarrow> p = v \<or> bitmap_has bm p"
proof -
  have "v div 32 < 2" "p div 32 < 2" using assms by (simp_all add: div_less_iff_less_mult)
  moreover have "p = v" if "p div 32 = v div 32" "p mod 32 = v mod 32" using that by (metis div_mult_mod_eq)
  ultimately show ?thesis using assms(1) by (auto simp: bitmap_has_def nth_list_update bit_or_iff bit_BIT)
qed

lemma mark_vf_correct:
  assumes "length bm = 2" "i < 4" "0 < shift" "p < 64"
  shows "length (mark_vf shift i wqbr bm) = 2 \<and>
    (bitmap_has (mark_vf shift i wqbr bm) p \<longleftrightarrow> bitmap_has bm p \<or> (\<exists>j < 32. bit wqbr j \<and> drop_bit shift (j + i * 32) = p))"
proof -
  have d: "drop_bit shift (j + i * 32) < 64" if "j < 32" for j
  proof -
    have "drop_bit shift (j + i * 32) \<le> (j + i * 32) div 2"
      using assms(3) power_increasing [of 1 shift "2 :: nat"] by (simp add: drop_bit_eq_div div_le_mono2)
    then show ?thesis using that assms(2) by linarith
  qed
  have "length (fold (\<lambda>j bm. if wqbr AND BIT j = 0 then bm
       else let vf = drop_bit shift (j + i * 32) in bm[vf div 32 := bm ! (vf div 32) OR BIT (vf mod 32)]) js bm) = 2 \<and>
    (bitmap_has (fold (\<lambda>j bm. if wqbr AND BIT j = 0 then bm
       else let vf = drop_bit shift (j + i * 32) in bm[vf div 32 := bm ! (vf div 32) OR BIT (vf mod 32)]) js bm) p \<longleftrightarrow>
     bitmap_has bm p \<or> (\<exists>j \<in> set js. bit wqbr j \<and> drop_bit shift (j + i * 32) = p))" if "\<forall>j \<in> set js. j < 32" for js
    using that assms(1)
  proof (induction js arbitrary: bm)
    case Nil
    then show ?case by simp
  next
    case (Cons j js)
    then have j: "j < 32" "drop_bit shift (j + i * 32) < 64" using d by auto
    let ?bm = "if wqbr AND BIT j = 0 then bm
       else let vf = drop_bit shift (j + i * 32) in bm[vf div 32 := bm ! (vf div 32) OR BIT (vf mod 32)]"
    have "length ?bm = 2" using Cons.prems by (simp add: Let_def)
    moreover have "bitmap_has ?bm p \<longleftrightarrow> bitmap_has bm p \<or> bit wqbr j \<and> drop_bit shift (j + i * 32) = p"
      using bitmap_set [OF Cons.prems(2) j(2) assms(4)] j(1) by (auto simp: Let_def and_BIT_eq_0)
    ultimately show ?case using Cons.IH [of ?bm] Cons.prems(1) by (auto simp only: fold_Cons comp_apply list.set ball_simps bex_simps)
  qed
  from this [of "[0..<32]"] show ?thesis unfolding mark_vf_def by (auto simp: Bex_def)
qed

lemma mdd_scan_correct:
  assumes "\<And>i s. dev_read d (IXGBE_WQBR_TX i) s = (tx s i, s)" "\<And>i s. dev_read d (IXGBE_WQBR_RX i) s = (rx s i, s)"
    and "length bm = 2" "\<forall>i \<in> set ks. i < 4" "0 < shift" "run_state (mdd_scan d shift ks bm) s = (bm', s')" "p < 64"
  shows "s' = s \<and> length bm' = 2 \<and> (bitmap_has bm' p \<longleftrightarrow> bitmap_has bm p \<or>
    (\<exists>i \<in> set ks. \<exists>j < 32. bit (tx (mbx_dev_state (sr_mbx s)) i OR rx (mbx_dev_state (sr_mbx s)) i) j \<and> drop_bit shift (j + i * 32) = p))"
  using assms(3,4,6)
proof (induction ks arbitrary: bm)
  case Nil
  then show ?case by (simp add: State_Monad.return_def)
next
  case (Cons i ks)
  let ?t = "mbx_dev_state (sr_mbx s)"
  let ?bm = "mark_vf shift i (tx ?t i OR rx ?t i) bm"
  have "run_state (mdd_scan d shift ks ?bm) s = (bm', s')"
    using Cons.prems(3) by (simp add: State_Monad.bind_def on_mbx_def rd_def assms(1,2))
  moreover note mark_vf_correct [OF Cons.prems(1) _ assms(5,7), of i "tx ?t i OR rx ?t i"]
  ultimately show ?case using Cons.IH [of ?bm] Cons.prems(2) by auto
qed

lemma mdd_event_pools:
  assumes "\<And>i s. dev_read d (IXGBE_WQBR_TX i) s = (tx s i, s)" "\<And>i s. dev_read d (IXGBE_WQBR_RX i) s = (rx s i, s)"
    and "run_state (ixgbe_mdd_event_X550 d [0, 0]) s = (bm, s')" "p < 64"
    and "shift = mdd_shift (rdreg (sr_adapter s) IXGBE_MRQC)" "t = mbx_dev_state (sr_mbx s)"
  shows "s' = s \<and> length bm = 2 \<and> (bitmap_has bm p \<longleftrightarrow>
    (\<exists>q < 128. q div 2 ^ shift = p \<and> (bit (tx t (q div 32)) (q mod 32) \<or> bit (rx t (q div 32)) (q mod 32))))"
proof -
  have "0 < shift" unfolding assms(5) mdd_shift_def Let_def by simp
  moreover have "run_state (mdd_scan d shift [0..<4] [0, 0]) s = (bm, s')"
    using assms(3) unfolding assms(5) by (simp add: ixgbe_mdd_event_X550_def State_Monad.bind_def adapter_get_def)
  ultimately have c: "s' = s \<and> length bm = 2 \<and> (bitmap_has bm p \<longleftrightarrow> bitmap_has [0, 0] p \<or>
    (\<exists>i \<in> set [0..<4]. \<exists>j < 32. bit (tx t i OR rx t i) j \<and> drop_bit shift (j + i * 32) = p))"
    using mdd_scan_correct [OF assms(1,2), of "[0, 0]" "[0..<4]" shift s bm s' p] assms(4,6) by simp
  have z: "\<not> bitmap_has [0, 0] p" using assms(4) by (cases "p div 32") (auto simp: bitmap_has_def div_less_iff_less_mult less_Suc_eq nth_Cons')
  have "(\<exists>i \<in> set [0..<4]. \<exists>j < 32. bit (tx t i OR rx t i) j \<and> drop_bit shift (j + i * 32) = p) \<longleftrightarrow>
    (\<exists>q < 128. q div 2 ^ shift = p \<and> (bit (tx t (q div 32)) (q mod 32) \<or> bit (rx t (q div 32)) (q mod 32)))" (is "?l = ?r")
  proof
    assume ?l
    then obtain i j where "i < 4" "j < 32" "bit (tx t i OR rx t i) j" "drop_bit shift (j + i * 32) = p" by auto
    then show ?r by (intro exI [of _ "j + i * 32"]) (auto simp: drop_bit_eq_div bit_or_iff)
  next
    assume ?r
    then obtain q where q: "q < 128" "q div 2 ^ shift = p" "bit (tx t (q div 32)) (q mod 32) \<or> bit (rx t (q div 32)) (q mod 32)" by auto
    have "q mod 32 + q div 32 * 32 = q" by simp
    moreover have "q div 32 < 4" using q(1) by (simp add: div_less_iff_less_mult)
    ultimately show ?l using q(2,3)
      by (intro bexI [of _ "q div 32"] exI [of _ "q mod 32"]) (auto simp: drop_bit_eq_div bit_or_iff)
  qed
  with c z show ?thesis by simp
qed

text \<open>
  C30. Malicious driver detection finds the pools with blocked queues: bit \<open>p\<close> of the result is set exactly if one of
  the 128 queues is blocked for sending or receiving and belongs to pool \<open>p\<close> under the queue layout that MRQC
  selects.  All pools are reported, also those from \<open>num_vfs\<close> on, which have no VF.
\<close>

theorem mdd_event_marks_blocked:
  assumes "\<And>i s. dev_read d (IXGBE_WQBR_TX i) s = (tx s i, s)" "\<And>i s. dev_read d (IXGBE_WQBR_RX i) s = (rx s i, s)"
    and "run_state (ixgbe_mdd_event_X550 d [0, 0]) s = (bm, s')" "p < 64"
    and "shift = mdd_shift (rdreg (sr_adapter s) IXGBE_MRQC)" "t = mbx_dev_state (sr_mbx s)"
  shows "s' = s \<and> length bm = 2 \<and> (bit (bm ! (p div 32)) (p mod 32) \<longleftrightarrow>
    (\<exists>q < 128. q div 2 ^ shift = p \<and> (bit (tx t (q div 32)) (q mod 32) \<or> bit (rx t (q div 32)) (q mod 32))))"
  using mdd_event_pools [OF assms] by (simp only: bitmap_has_def)

text \<open>Two VFs with pools of two queues; queue 4, the first one of the PF, is blocked.\<close>

definition sriov_blocked :: "(reg \<Rightarrow> u32) sriov" where
  "sriov_blocked = \<lparr>sr_adapter = adapter_reset, sr_mbx = mbx0 MbxPf ((\<lambda>_. 0)(IXGBE_WQBR_TX 0 := 16))\<rparr>"

theorem mdd_event_marks_blocked_witness:
  "\<exists>bm. run_state (ixgbe_mdd_event_X550 pf_view [0, 0]) sriov_blocked = (bm, sriov_blocked) \<and> bit (bm ! 0) 2 \<and>
     num_vfs (sr_adapter sriov_blocked) = 2"
proof -
  obtain bm s' where r: "run_state (ixgbe_mdd_event_X550 pf_view [0, 0]) sriov_blocked = (bm, s')" by (metis surj_pair)
  have m: "mdd_shift (rdreg (sr_adapter sriov_blocked) IXGBE_MRQC) = 1"
    by (simp add: mdd_shift_def sriov_blocked_def adapter_reset_def hw_reset_def IXGBE_READ_REG_def IXGBE_REMOVED_def)
  have "bit (16 :: u32) 4" by simp
  then have b: "\<exists>q < 128. q div 2 ^ 1 = 2 \<and> (bit (mbx_dev_state (sr_mbx sriov_blocked) (IXGBE_WQBR_TX (q div 32))) (q mod 32) \<or>
    bit (mbx_dev_state (sr_mbx sriov_blocked) (IXGBE_WQBR_RX (q div 32))) (q mod 32))"
    by (intro exI [of _ 4]) (simp add: sriov_blocked_def)
  have "s' = sriov_blocked \<and> length bm = 2 \<and> (bit (bm ! (2 div 32)) (2 mod 32) \<longleftrightarrow>
    (\<exists>q < 128. q div 2 ^ 1 = 2 \<and> (bit (mbx_dev_state (sr_mbx sriov_blocked) (IXGBE_WQBR_TX (q div 32))) (q mod 32) \<or>
      bit (mbx_dev_state (sr_mbx sriov_blocked) (IXGBE_WQBR_RX (q div 32))) (q mod 32))))"
    by (rule mdd_event_marks_blocked [where tx = "\<lambda>s i. s (IXGBE_WQBR_TX i)" and rx = "\<lambda>s i. s (IXGBE_WQBR_RX i)", OF _ _ r])
      (simp_all add: pf_view_def m)
  with b have "s' = sriov_blocked" "bit (bm ! 0) 2" by simp_all
  then show ?thesis using r by (auto simp: sriov_blocked_def adapter_reset_def)
qed

end
