(* ===== verification/Ixgbe_Isolation.thy ===== *)
theory Ixgbe_Isolation
  imports Ixgbe_SriovMsg
begin

text \<open>
  Isolation of virtual functions.  The share of a VF is what the PF driver and the hardware hold for
  it: its data, its MAC filters and its VLANs.  Every operation for one VF keeps the invariant of the
  filters and the shares of all other VFs: the requests, the reset (which also runs the receive mode
  of the PF) and the whole message loop, over an arbitrary mailbox.
\<close>

unbundle bit_operations_syntax


section \<open>Registers of the VLAN filters\<close>

definition vlan_reg :: "reg \<Rightarrow> bool" where
  "vlan_reg r \<longleftrightarrow> (case r of RxReg x \<Rightarrow> (case x of VLVF _ \<Rightarrow> True | VLVFB _ \<Rightarrow> True | VFTA _ \<Rightarrow> True | _ \<Rightarrow> False) | _ \<Rightarrow> False)"

lemma vlan_reg_simps [simp]:
  "vlan_reg (IXGBE_VLVF i)" "vlan_reg (IXGBE_VLVFB i)" "vlan_reg (IXGBE_VFTA i)"
  "\<not> vlan_reg (IXGBE_RAL i)" "\<not> vlan_reg (IXGBE_RAH i)" "\<not> vlan_reg (IXGBE_MPSAR_LO i)" "\<not> vlan_reg (IXGBE_MPSAR_HI i)"
  "\<not> vlan_reg (IXGBE_MTA i)" "\<not> vlan_reg IXGBE_FCTRL" "\<not> vlan_reg IXGBE_MCSTCTRL" "\<not> vlan_reg IXGBE_VT_CTL"
  "\<not> vlan_reg (LinkReg l)" "\<not> vlan_reg (VtReg v)" "\<not> vlan_reg (NvmReg n)" "\<not> vlan_reg (FdirReg f)" "\<not> vlan_reg (DcbReg d)" "\<not> vlan_reg (PoolReg p)"
  by (simp_all add: vlan_reg_def)

definition filter_reg :: "reg \<Rightarrow> bool" where
  "filter_reg r \<longleftrightarrow> rar_reg r \<or> vlan_reg r \<or> r = IXGBE_VT_CTL"

lemma vlan_reg_neq: "\<not> vlan_reg r \<Longrightarrow> r \<noteq> IXGBE_VLVF i \<and> r \<noteq> IXGBE_VLVFB i \<and> r \<noteq> IXGBE_VFTA i"
  by auto

lemma rar_not_vlan: "rar_reg r \<Longrightarrow> \<not> vlan_reg r"
  by (cases r rule: rar_reg.cases) simp_all

lemma set_vfta_regs:
  "\<not> vlan_reg r \<Longrightarrow> IXGBE_READ_REG (snd (ixgbe_set_vfta_generic h x p on b)) r = IXGBE_READ_REG h r"
  "mac (snd (ixgbe_set_vfta_generic h x p on b)) = mac h"
  "hw_removed (snd (ixgbe_set_vfta_generic h x p on b)) = hw_removed h"
  by (auto simp: ixgbe_set_vfta_generic_def ixgbe_set_vlvf_generic_def Let_def vlan_reg_neq split: sum.split)

text \<open>Slots hold nothing or a VLAN with the valid bit; VLAN 0 is in slot 0 and nowhere else.\<close>

definition vlvf_wf :: "ixgbe_hw \<Rightarrow> bool" where
  "vlvf_wf h \<longleftrightarrow> (\<forall>s < 64. IXGBE_READ_REG h (IXGBE_VLVF s) = 0 \<or>
     (\<exists>x \<le> 4095. IXGBE_READ_REG h (IXGBE_VLVF s) = x OR IXGBE_VLVF_VIEN \<and> (x = 0 \<longleftrightarrow> s = 0)))"

lemma vlan_updated_wf:
  assumes "vlvf_wf h" "slot_for h x s" "vlan_updated h h' s x q on" "x \<le> 4095"
  shows "vlvf_wf h'"
proof -
  have s: "s = 0 \<longleftrightarrow> x = 0" using assms(2) by (auto simp: slot_for_def slot_has_def split: if_splits)
  have "IXGBE_READ_REG h' (IXGBE_VLVF t) =
        (if t = s then if \<exists>p < 64. slot_pool h' s p then x OR IXGBE_VLVF_VIEN else 0
         else IXGBE_READ_REG h (IXGBE_VLVF t))" for t
    using assms(3) by (simp add: vlan_updated_def)
  then show ?thesis using assms(1,4) s by (auto simp: vlvf_wf_def)
qed

section \<open>What the PF holds for a VF\<close>

definition vf_pools :: "ixgbe_adapter \<Rightarrow> nat set" where
  "vf_pools a = {p. p < 64 \<and> p \<noteq> vmdq_offset a}"

definition sriov_inv :: "ixgbe_adapter \<Rightarrow> bool" where
  "sriov_inv a \<longleftrightarrow> mac_inv a \<and> vt_enabled (hw a) \<and> vlan_inv_on (vf_pools a) (hw a) \<and> vlvf_wf (hw a) \<and>
     num_vfs a = length (vfinfo a) \<and> num_vfs a \<le> vmdq_offset a \<and> vmdq_offset a < 64 \<and> active_vlans a 0 \<and> \<not> stray_write a \<and>
     (\<forall>w < num_vfs a. length (vf_mac_addresses (vfinfo a ! w)) = 6)"

definition vf_share :: "ixgbe_adapter \<Rightarrow> nat \<Rightarrow> vf_data_storage \<times> (u8 list \<times> nat) multiset \<times> u32 set" where
  "vf_share a w = (vfinfo a ! w, filter_mset (\<lambda>f. snd f = w) (mac_filters a), {x. x \<le> 4095 \<and> vlan_pool (hw a) x w})"

definition isolated :: "nat \<Rightarrow> ixgbe_adapter \<Rightarrow> ixgbe_adapter \<Rightarrow> bool" where
  "isolated vf a a' \<longleftrightarrow> sriov_inv a' \<and> num_vfs a' = num_vfs a \<and> vmdq_offset a' = vmdq_offset a \<and>
     (\<forall>w < num_vfs a. w \<noteq> vf \<longrightarrow> vf_share a' w = vf_share a w)"

lemma isolated_refl: "sriov_inv a \<Longrightarrow> isolated vf a a"
  by (simp add: isolated_def)

lemma isolated_trans: "isolated vf a b \<Longrightarrow> isolated vf b c \<Longrightarrow> isolated vf a c"
  by (simp add: isolated_def)

lemma isolated_inv: "isolated vf a b \<Longrightarrow> sriov_inv b"
  by (simp add: isolated_def)

interpretation iso: preserving sriov_inv "isolated vf" for vf
  by unfold_locales (auto intro: isolated_refl isolated_trans isolated_inv)

lemma isolated_num: "isolated vf a b \<Longrightarrow> num_vfs b = num_vfs a"
  by (simp add: isolated_def)

text \<open>The same for a VF that exists.\<close>

abbreviation keeps_others :: "nat \<Rightarrow> ixgbe_adapter \<Rightarrow> ixgbe_adapter \<Rightarrow> bool" where
  "keeps_others vf a b \<equiv> isolated vf a b \<and> vf < num_vfs b"

interpretation iso_vf: preserving "\<lambda>a. sriov_inv a \<and> vf < num_vfs a" "keeps_others vf" for vf
  by unfold_locales (auto intro: isolated_refl isolated_trans isolated_inv)

lemma isolated_fold:
  assumes "sriov_inv a" "vf < num_vfs a" "\<And>i t. i \<in> set xs \<Longrightarrow> sriov_inv t \<Longrightarrow> vf < num_vfs t \<Longrightarrow> isolated vf t (f i t)"
  shows "isolated vf a (fold f xs a)"
proof (rule iso_vf.over_list [where vf = vf, THEN conjunct1])
  fix i t assume "i \<in> set xs" "sriov_inv t \<and> vf < num_vfs t"
  then show "keeps_others vf t (f i t)" using assms(3) isolated_num by metis
qed (use assms(1,2) in simp)

lemma vlan_views_cong:
  assumes "\<And>r. vlan_reg r \<or> r = IXGBE_VT_CTL \<Longrightarrow> IXGBE_READ_REG h' r = IXGBE_READ_REG h r"
  shows "slot_pool h' = slot_pool h" "vlan_pool h' = vlan_pool h" "vfta_on h' = vfta_on h" "vt_enabled h' = vt_enabled h"
    "vlan_inv_on P h' = vlan_inv_on P h" "vlvf_wf h' = vlvf_wf h"
proof -
  show s: "slot_pool h' = slot_pool h" and f: "vfta_on h' = vfta_on h" and "vt_enabled h' = vt_enabled h"
    using assms by (simp_all add: fun_eq_iff slot_pool_def vfta_on_def vt_enabled_def)
  show v: "vlan_pool h' = vlan_pool h" using assms s by (simp add: fun_eq_iff vlan_pool_def slot_has_def)
  show "vlan_inv_on P h' = vlan_inv_on P h" using assms by (simp add: vlan_inv_on_def s v f)
  show "vlvf_wf h' = vlvf_wf h" using assms by (simp add: vlvf_wf_def)
qed

lemma mac_inv_cong:
  assumes "mac_table a' = mac_table a" "\<And>r. rar_reg r \<Longrightarrow> IXGBE_READ_REG (hw a') r = IXGBE_READ_REG (hw a) r"
    and "hw_removed (hw a') = hw_removed (hw a)" "num_rars a' = num_rars a"
  shows "mac_inv a' = mac_inv a" "mac_filters a' = mac_filters a"
  using assms by (simp_all add: mac_inv_def mac_filters_def rar_holds_def rar_valid_def rar_image_def rar_pool_def)

lemma isolated_frame:
  assumes "sriov_inv a" "mac_table a' = mac_table a" "vmdq_offset a' = vmdq_offset a" "num_vfs a' = num_vfs a"
    and "length (vfinfo a') = length (vfinfo a)" "\<And>w. w \<noteq> vf \<Longrightarrow> vfinfo a' ! w = vfinfo a ! w"
    and "vf < num_vfs a \<Longrightarrow> length (vf_mac_addresses (vfinfo a' ! vf)) = 6" "active_vlans a' 0 = active_vlans a 0"
    and "hw_removed (hw a') = hw_removed (hw a)" "num_rars a' = num_rars a"
    and "\<And>r. filter_reg r \<Longrightarrow> IXGBE_READ_REG (hw a') r = IXGBE_READ_REG (hw a) r" "stray_write a' = stray_write a"
  shows "isolated vf a a'"
proof -
  have m: "mac_inv a' = mac_inv a" "mac_filters a' = mac_filters a"
    using assms by (intro mac_inv_cong; simp add: filter_reg_def)+
  have "\<And>r. vlan_reg r \<or> r = IXGBE_VT_CTL \<Longrightarrow> IXGBE_READ_REG (hw a') r = IXGBE_READ_REG (hw a) r"
    using assms(11) by (simp add: filter_reg_def)
  note v = vlan_views_cong [OF this]
  have "\<forall>w < num_vfs a'. length (vf_mac_addresses (vfinfo a' ! w)) = 6"
    using assms(1,4,6,7) unfolding sriov_inv_def by metis
  then show ?thesis using assms(1-8,12) by (simp add: isolated_def sriov_inv_def vf_share_def vf_pools_def m v)
qed

section \<open>Operations on one VF\<close>

lemma read_write_other: "r' \<noteq> r \<Longrightarrow> IXGBE_READ_REG (IXGBE_WRITE_REG h r v) r' = IXGBE_READ_REG h r'"
  by (simp add: IXGBE_READ_REG_def IXGBE_WRITE_REG_def IXGBE_REMOVED_def)

lemma isolated_wrreg: "sriov_inv a \<Longrightarrow> \<not> filter_reg r \<Longrightarrow> isolated vf a (wrreg r v a)"
  by (rule isolated_frame) (auto simp: wrreg_def sriov_inv_def intro!: read_write_other)

lemma isolated_set_vf:
  assumes "sriov_inv a" "vf < num_vfs a" "\<And>v. length (vf_mac_addresses v) = 6 \<Longrightarrow> length (vf_mac_addresses (f v)) = 6"
  shows "isolated vf a (set_vf vf f a)"
  by (rule isolated_frame [OF assms(1)]) (use assms in \<open>auto simp: set_vf_def sriov_inv_def\<close>)

lemma isolated_filters:
  assumes "sriov_inv a" "mac_inv a'" "a' = a\<lparr>hw := hw a', mac_table := mac_table a'\<rparr>"
    and "\<And>r. \<not> rar_reg r \<Longrightarrow> IXGBE_READ_REG (hw a') r = IXGBE_READ_REG (hw a) r"
    and "\<And>w. w \<noteq> vf \<Longrightarrow> filter_mset (\<lambda>f. snd f = w) (mac_filters a') = filter_mset (\<lambda>f. snd f = w) (mac_filters a)"
  shows "isolated vf a a'"
proof -
  have "\<And>r. vlan_reg r \<or> r = IXGBE_VT_CTL \<Longrightarrow> IXGBE_READ_REG (hw a') r = IXGBE_READ_REG (hw a) r"
    using assms(4) rar_not_vlan by fastforce
  note v = vlan_views_cong [OF this]
  have e: "vfinfo a' = vfinfo a" "num_vfs a' = num_vfs a" "vmdq_offset a' = vmdq_offset a" "active_vlans a' = active_vlans a"
    "stray_write a' = stray_write a"
    by (subst assms(3), simp)+
  show ?thesis using assms(1,2,5) by (simp add: isolated_def sriov_inv_def vf_share_def vf_pools_def e v)
qed

lemma isolated_add:
  assumes "sriov_inv a" "length addr = 6" "vf < 64"
  shows "isolated vf a (snd (ixgbe_add_mac_filter a addr (of_nat vf)))"
  by (rule isolated_filters)
    (use assms mt.add_law(1) mt.add_others mac_filter_frame(1) mac_filter_reg(1) in \<open>simp_all add: sriov_inv_def\<close>)

lemma isolated_del:
  assumes "sriov_inv a" "vf < 64"
  shows "isolated vf a (snd (ixgbe_del_mac_filter a addr (of_nat vf)))"
  by (rule isolated_filters)
    (use assms mt.del_law(1) mt.del_others mac_filter_frame(2) mac_filter_reg(2) in \<open>simp_all add: sriov_inv_def\<close>)


lemma isolated_set_vfta:
  assumes "sriov_inv a" "pool = vf \<or> pool = VMDQ_P a 0" "pool < 64"
  shows "isolated vf a (snd (set_vfta a x pool on False))"
proof (cases "x \<le> 4095")
  case False
  then have "snd (set_vfta a x pool on False) = a" by (simp add: set_vfta_def ixgbe_set_vfta_generic_def not_le)
  then show ?thesis using assms(1) by (simp add: isolated_refl)
next
  case x: True
  let ?h = "hw a" and ?p = "of_nat pool :: u32"
  obtain st h' where r: "ixgbe_set_vfta_generic ?h x ?p on False = (st, h')" by (metis surj_pair)
  have a': "snd (set_vfta a x pool on False) = a\<lparr>hw := h'\<rparr>" by (simp add: set_vfta_def r)
  have p: "unat ?p = pool" "?p < 64" using assms(3) by (simp_all add: word_less_nat_alt unsigned_of_nat take_bit_nat_eq_self)
  have i: "mac_inv a" "\<not> hw_removed ?h" "vt_enabled ?h" "vlan_inv_on (vf_pools a) ?h" "vlvf_wf ?h" "vf_pools a \<subseteq> {..<64}"
    using assms(1) by (auto simp: sriov_inv_def mac_inv_def vf_pools_def)
  show ?thesis
  proof (cases "ixgbe_find_vlvf_slot ?h x False")
    case (Inl e)
    then have "h' = ?h" using set_vfta_no_slot [OF x p(2) i(3) Inl] r by auto
    then show ?thesis using assms(1) by (simp add: a' isolated_refl)
  next
    case (Inr s)
    have u: "vlan_updated ?h h' s x pool on" using set_vfta_slot [OF i(2) x p(2) i(3) Inr r] p by simp
    note f = find_slot_for [OF Inr]
    have m: "mac h' = mac ?h" "hw_removed h' = hw_removed ?h" "\<And>r. \<not> vlan_reg r \<Longrightarrow> IXGBE_READ_REG h' r = IXGBE_READ_REG ?h r"
      using set_vfta_regs(1) [of _ ?h x ?p on False] set_vfta_regs(2,3) [of ?h x ?p on False] r by auto
    have mi: "mac_inv (a\<lparr>hw := h'\<rparr>) = mac_inv a" "mac_filters (a\<lparr>hw := h'\<rparr>) = mac_filters a"
      using m rar_not_vlan by (intro mac_inv_cong; auto)+
    have vt: "vt_enabled h'" using i(3) m(3) [of IXGBE_VT_CTL] by (simp add: vt_enabled_def)
    have "vlan_pool h' y w = vlan_pool ?h y w" if "w < num_vfs a" "w \<noteq> vf" "y \<le> 4095" for y w
      using vlan_updated_pools [OF i(4) f u x that(3), of w] that assms(1,2)
      by (auto simp: vf_pools_def sriov_inv_def)
    with vlan_updated_inv [OF i(4) f u x i(6)] vlan_updated_wf [OF i(5) f u x] vt mi assms(1)
    show ?thesis by (auto simp: a' isolated_def sriov_inv_def vf_share_def vf_pools_def)
  qed
qed

text \<open>
  A change of slot \<open>s\<close> and of the bit table that takes at most VF \<open>vf\<close> out of the slot, empties the
  slot only when no VF is left in it, and keeps the bits of the VLANs of all VFs.
\<close>

lemma isolated_slot:
  assumes "sriov_inv a" "s < 64" "hw_removed h' = hw_removed (hw a)" "mac h' = mac (hw a)"
    and "\<And>r. r \<noteq> IXGBE_VLVF s \<Longrightarrow> r \<noteq> IXGBE_VLVFB (s * 2) \<Longrightarrow> r \<noteq> IXGBE_VLVFB (s * 2 + 1) \<Longrightarrow> (\<And>i. r \<noteq> IXGBE_VFTA i) \<Longrightarrow>
      IXGBE_READ_REG h' r = IXGBE_READ_REG (hw a) r"
    and "\<And>p. p \<in> vf_pools a \<Longrightarrow> p \<noteq> vf \<Longrightarrow> slot_pool h' s p = slot_pool (hw a) s p" "slot_pool h' s vf \<Longrightarrow> slot_pool (hw a) s vf"
    and "IXGBE_READ_REG h' (IXGBE_VLVF s) = IXGBE_READ_REG (hw a) (IXGBE_VLVF s) \<or>
      IXGBE_READ_REG h' (IXGBE_VLVF s) = 0 \<and> (\<forall>p \<in> vf_pools a. \<not> slot_pool h' s p)"
    and "\<And>x t p. x \<le> 4095 \<Longrightarrow> p \<in> vf_pools a \<Longrightarrow> t < 64 \<Longrightarrow> slot_has (hw a) x t \<Longrightarrow> slot_pool h' t p \<Longrightarrow> vfta_on (hw a) x \<Longrightarrow> vfta_on h' x"
  shows "isolated vf a (a\<lparr>hw := h'\<rparr>)"
proof -
  let ?h = "hw a"
  have i: "vt_enabled ?h" "vlan_inv_on (vf_pools a) ?h" "vlvf_wf ?h"
    using assms(1) by (auto simp: sriov_inv_def)
  have rar: "rar_reg r \<Longrightarrow> IXGBE_READ_REG h' r = IXGBE_READ_REG ?h r" for r by (rule assms(5)) auto
  have mi: "mac_inv (a\<lparr>hw := h'\<rparr>) = mac_inv a" "mac_filters (a\<lparr>hw := h'\<rparr>) = mac_filters a"
    using assms(3,4) rar by (intro mac_inv_cong; simp)+
  have vt: "vt_enabled h'" using i(1) assms(5) [of IXGBE_VT_CTL] by (simp add: vt_enabled_def)
  have V: "IXGBE_READ_REG h' (IXGBE_VLVF t) = IXGBE_READ_REG ?h (IXGBE_VLVF t)" if "t \<noteq> s" for t
    using assms(5) [of "IXGBE_VLVF t"] that by auto
  have same: "slot_pool h' t p = slot_pool ?h t p" if "p < 64" "t \<noteq> s" for t p
  proof -
    have "t * 2 + p div 32 \<noteq> s * 2" "t * 2 + p div 32 \<noteq> s * 2 + 1"
      using half_index [of p 0 t s] half_index [of p 32 t s] that by simp_all
    then show ?thesis using assms(5) by (simp add: slot_pool_def)
  qed
  have lt: "p < 64" if "p \<in> vf_pools a" for p using that by (simp add: vf_pools_def)
  have sub: "slot_pool ?h t p" if "p \<in> vf_pools a" "slot_pool h' t p" for t p
    using that assms(6,7) same [OF lt [OF that(1)], of t] by (cases "t = s"; cases "p = vf") auto
  have has: "slot_has ?h x t" if "slot_has h' x t" "slot_pool h' t p" "p \<in> vf_pools a" for x t p
    using that V [of t] assms(8) vien_neq_0 [of x] by (cases "t = s") (auto simp: slot_has_def split: if_splits)
  have has': "slot_has h' x t" if "slot_has ?h x t" "slot_pool h' t p" "p \<in> vf_pools a" for x t p
    using that V [of t] assms(8) by (cases "t = s") (auto simp: slot_has_def split: if_splits)
  have pool: "vlan_pool h' x p = vlan_pool ?h x p" if "p \<in> vf_pools a" "p \<noteq> vf" for x p
  proof -
    have "slot_pool h' t p = slot_pool ?h t p" for t
      using assms(6) [OF that] same [OF lt [OF that(1)], of t] by (cases "t = s") auto
    then show ?thesis unfolding vlan_pool_def using has has' that(1) by blast
  qed
  have "vlan_inv_on (vf_pools a) h'"
    unfolding vlan_inv_on_def
  proof (intro conjI allI impI ballI)
    fix t p assume t: "t < 64" "IXGBE_READ_REG h' (IXGBE_VLVF t) = 0" "p \<in> vf_pools a"
    show "\<not> slot_pool h' t p"
      using t V [of t] assms(8) sub [OF t(3), of t] vlan_inv_dest(1) [OF i(2) t(1,3)] by (cases "t = s") auto
  next
    fix t u assume tu: "t < 64" "u < 64" "0 < t \<and> 0 < u \<and> IXGBE_READ_REG h' (IXGBE_VLVF t) \<noteq> 0 \<and>
      IXGBE_READ_REG h' (IXGBE_VLVF t) = IXGBE_READ_REG h' (IXGBE_VLVF u)"
    have "IXGBE_READ_REG h' (IXGBE_VLVF v) = IXGBE_READ_REG ?h (IXGBE_VLVF v)" if "IXGBE_READ_REG h' (IXGBE_VLVF v) \<noteq> 0" for v
      using that V [of v] assms(8) by (cases "v = s") auto
    then show "t = u" using vlan_inv_dest(2) [OF i(2) tu(1,2)] tu(3) by metis
  next
    fix x p assume xp: "x \<le> 4095" "p \<in> vf_pools a" "vlan_pool h' x p"
    then obtain t where t: "t < 64" "slot_has h' x t" "slot_pool h' t p" by (auto simp: vlan_pool_def)
    have h: "slot_has ?h x t" using has [OF t(2,3) xp(2)] .
    then have "vfta_on ?h x" using vlan_inv_dest(3) [OF i(2) xp(1,2)] sub [OF xp(2) t(3)] t(1) by (auto simp: vlan_pool_def)
    then show "vfta_on h' x" using assms(9) [OF xp(1,2) t(1) h t(3)] by simp
  qed
  moreover have "vlvf_wf h'" using i(3) V assms(8) unfolding vlvf_wf_def by metis
  moreover have "w < num_vfs a \<Longrightarrow> w \<in> vf_pools a" for w using assms(1) by (auto simp: vf_pools_def sriov_inv_def)
  ultimately show ?thesis using vt mi assms(1) pool by (auto simp: isolated_def sriov_inv_def vf_share_def vf_pools_def)
qed


lemma unmodify_id: "\<not> modified e \<Longrightarrow> unmodify e = e"
proof -
  assume "\<not> modified e"
  then have b: "\<not> bit (tbl_state e) 1" by (simp only: modified_bit not_False_eq_True)
  have "tbl_state e AND NOT IXGBE_MAC_STATE_MODIFIED = tbl_state e"
  proof (rule bit_word_eqI)
    fix n assume "n < LENGTH(16)"
    have "bit (IXGBE_MAC_STATE_MODIFIED :: u16) n \<longleftrightarrow> n = 1" using bit_exp_iff [of 1 n, where 'a = "16 word"] by auto
    then show "bit (tbl_state e AND NOT IXGBE_MAC_STATE_MODIFIED) n = bit (tbl_state e) n"
      using b \<open>n < LENGTH(16)\<close> by (auto simp only: bit_and_iff bit_not_iff possible_bit_word)
  qed
  then show ?thesis by (simp add: unmodify_def)
qed

lemma sync_entry_same:
  assumes "mac_inv a" "i < num_rars a"
  shows "mac_inv (sync_entry i a)" "\<exists>h. sync_entry i a = a\<lparr>hw := h\<rparr>" "num_rars (sync_entry i a) = num_rars a"
proof -
  have e: "\<not> modified (mac_table a ! i)" "\<not> hw_removed (hw a)" "in_use (mac_table a ! i) \<Longrightarrow> tbl_pool (mac_table a ! i) < 64"
    using assms by (auto simp: mac_inv_def Let_def)
  have u: "a\<lparr>mac_table := (mac_table a)[i := unmodify (mac_table a ! i)]\<rparr> = a"
    by (simp add: unmodify_id [OF e(1)])
  show x: "\<exists>h. sync_entry i a = a\<lparr>hw := h\<rparr>"
    unfolding sync_entry_unmodify Let_def u by (metis (no_types))
  then have t: "mac_table (sync_entry i a) = mac_table a" by auto
  note k = sync_entry_hw [OF e(2) assms(2) e(3)]
  show n: "num_rars (sync_entry i a) = num_rars a" using k(2) by simp
  show "mac_inv (sync_entry i a)"
    unfolding mac_inv_def t n
  proof (intro conjI allI impI)
    show "\<not> hw_removed (hw (sync_entry i a))" by (rule k(1))
    show "length (mac_table a) = num_rars a" using assms(1) by (simp add: mac_inv_def)
    fix j assume j: "j < num_rars a"
    have old: "\<not> modified (mac_table a ! j)"
      "in_use (mac_table a ! j) \<Longrightarrow> length (tbl_addr (mac_table a ! j)) = 6 \<and> tbl_pool (mac_table a ! j) < 64"
      "if in_use (mac_table a ! j) then rar_holds (hw a) j (tbl_addr (mac_table a ! j)) else \<not> rar_valid (hw a) j"
      "\<And>p. p < 64 \<Longrightarrow> rar_pool (hw a) j p \<longleftrightarrow> in_use (mac_table a ! j) \<and> p = unat (tbl_pool (mac_table a ! j))"
      using assms(1) j by (auto simp: mac_inv_def Let_def)
    show "let e = mac_table a ! j in \<not> modified e \<and> (in_use e \<longrightarrow> length (tbl_addr e) = 6 \<and> tbl_pool e < 64) \<and>
        (if in_use e then rar_holds (hw (sync_entry i a)) j (tbl_addr e) else \<not> rar_valid (hw (sync_entry i a)) j) \<and>
        (\<forall>p<64. rar_pool (hw (sync_entry i a)) j p \<longleftrightarrow> in_use e \<and> p = unat (tbl_pool e))"
      using old k(4-6) by (cases "j = i") (auto simp: Let_def rar_holds_def split: if_splits)
  qed
qed

lemma full_sync_same:
  assumes "mac_inv a"
  shows "mac_inv (ixgbe_full_sync_mac_table a) \<and> (\<exists>h. ixgbe_full_sync_mac_table a = a\<lparr>hw := h\<rparr>)"
proof -
  have "mac_inv (ixgbe_full_sync_mac_table a) \<and> (\<exists>h. ixgbe_full_sync_mac_table a = a\<lparr>hw := h\<rparr>) \<and> num_rars (ixgbe_full_sync_mac_table a) = num_rars a"
    unfolding ixgbe_full_sync_mac_table_def
  proof (rule for_upto_invariant [where P = "\<lambda>t. mac_inv t \<and> (\<exists>h. t = a\<lparr>hw := h\<rparr>) \<and> num_rars t = num_rars a"])
    fix i t
    assume "i < num_rars a" and t: "mac_inv t \<and> (\<exists>h. t = a\<lparr>hw := h\<rparr>) \<and> num_rars t = num_rars a"
    then have k: "mac_inv (sync_entry i t)" "\<exists>h. sync_entry i t = t\<lparr>hw := h\<rparr>" "num_rars (sync_entry i t) = num_rars t"
      using sync_entry_same [of t i] by auto
    from k(2) t obtain h h' where "t = a\<lparr>hw := h\<rparr>" "sync_entry i t = t\<lparr>hw := h'\<rparr>" by auto
    then have "sync_entry i t = a\<lparr>hw := h'\<rparr>" by simp
    then have "\<exists>h. sync_entry i t = a\<lparr>hw := h\<rparr>" ..
    with k(1,3) t show "mac_inv (sync_entry i t) \<and> (\<exists>h. sync_entry i t = a\<lparr>hw := h\<rparr>) \<and> num_rars (sync_entry i t) = num_rars a" by simp
  next
    have "a = a\<lparr>hw := hw a\<rparr>" by simp
    with assms show "mac_inv a \<and> (\<exists>h. a = a\<lparr>hw := h\<rparr>) \<and> num_rars a = num_rars a" by blast
  qed
  then show ?thesis by blast
qed

lemma isolated_full_sync:
  assumes "sriov_inv a"
  shows "isolated vf a (ixgbe_full_sync_mac_table a)"
proof -
  obtain h where f: "mac_inv (ixgbe_full_sync_mac_table a)" "ixgbe_full_sync_mac_table a = a\<lparr>hw := h\<rparr>"
    using full_sync_same [of a] assms by (auto simp: sriov_inv_def)
  have "\<not> rar_reg r \<Longrightarrow> IXGBE_READ_REG h r = IXGBE_READ_REG (hw a) r" for r
    using sync_table_reg(2) [of r a] f(2) by simp
  then show ?thesis using assms f(1) unfolding f(2) by (intro isolated_filters) (simp_all add: mac_filters_def)
qed

text \<open>States that differ only outside the filters.\<close>

definition same_filters :: "ixgbe_adapter \<Rightarrow> ixgbe_adapter \<Rightarrow> bool" where
  "same_filters a b \<longleftrightarrow> mac_table b = mac_table a \<and> vmdq_offset b = vmdq_offset a \<and> num_vfs b = num_vfs a \<and>
     vfinfo b = vfinfo a \<and> vf_mvs b = vf_mvs a \<and> netdev b = netdev a \<and> active_vlans b = active_vlans a \<and> stray_write b = stray_write a \<and>
     hw_removed (hw b) = hw_removed (hw a) \<and> num_rars b = num_rars a \<and>
     (\<forall>r. filter_reg r \<longrightarrow> IXGBE_READ_REG (hw b) r = IXGBE_READ_REG (hw a) r)"

lemma isolated_same: "sriov_inv a \<Longrightarrow> same_filters a b \<Longrightarrow> isolated vf a b"
  by (rule isolated_frame) (simp_all add: same_filters_def sriov_inv_def)

lemma same_refl: "same_filters a a"
  by (simp add: same_filters_def)

lemma same_trans: "same_filters a b \<Longrightarrow> same_filters b c \<Longrightarrow> same_filters a c"
  by (simp add: same_filters_def)

interpretation same: preserving "\<lambda>_. True" same_filters
  by unfold_locales (auto intro: same_refl same_trans)

lemma same_wrreg: "\<not> filter_reg r \<Longrightarrow> same_filters a (wrreg r v a)"
  by (auto simp: same_filters_def wrreg_def intro!: read_write_other)

lemma same_filters_hw:
  assumes "hw_removed h' = hw_removed (hw a)" "num_rar_entries (mac h') = num_rar_entries (mac (hw a))" 
    "\<And>r. filter_reg r \<Longrightarrow> IXGBE_READ_REG h' r = IXGBE_READ_REG (hw a) r"
  shows "same_filters a (a\<lparr>hw := h'\<rparr>)"
  using assms by (simp add: same_filters_def)

section \<open>Multicast\<close>

definition same_hw :: "ixgbe_hw \<Rightarrow> ixgbe_hw \<Rightarrow> bool" where
  "same_hw h h' \<longleftrightarrow> hw_removed h' = hw_removed h \<and> num_rar_entries (mac h') = num_rar_entries (mac h) \<and>
     (\<forall>r. filter_reg r \<longrightarrow> IXGBE_READ_REG h' r = IXGBE_READ_REG h r)"

lemma same_hw_filters: "same_hw (hw a) h' \<Longrightarrow> same_filters a (a\<lparr>hw := h'\<rparr>)"
  by (simp add: same_hw_def same_filters_hw)

lemma same_hw_trans: "same_hw a b \<Longrightarrow> same_hw b c \<Longrightarrow> same_hw a c"
  by (simp add: same_hw_def)

lemma read_regs_only: "hw_removed h' = hw_removed h \<Longrightarrow> regs h' = regs h \<Longrightarrow> IXGBE_READ_REG h' r = IXGBE_READ_REG h r"
  by (simp add: IXGBE_READ_REG_def IXGBE_REMOVED_def)

lemma same_hw_soft: "hw_removed h' = hw_removed h \<Longrightarrow> regs h' = regs h \<Longrightarrow> num_rar_entries (mac h') = num_rar_entries (mac h) \<Longrightarrow> same_hw h h'"
  unfolding same_hw_def using read_regs_only by blast

lemma same_hw_write: "\<not> filter_reg r \<Longrightarrow> same_hw h (IXGBE_WRITE_REG h r v)"
  by (auto simp: same_hw_def intro!: read_write_other)

interpretation same_hw: preserving "\<lambda>_. True" same_hw
  by unfold_locales (auto intro: same_hw_soft same_hw_trans)

lemma update_mc_same: "same_hw h (snd (ixgbe_update_mc_addr_list_generic h mc c))"
proof -
  define h1 where "h1 = h\<lparr>addr_ctrl := (addr_ctrl h)\<lparr>num_mc_addrs := of_nat (length mc), mta_in_use := 0\<rparr>\<rparr>"
  define h2 where "h2 = (if c then h1\<lparr>mac := (mac h1)\<lparr>mta_shadow := replicate (length (mta_shadow (mac h1))) 0\<rparr>\<rparr> else h1)"
  define h3 where "h3 = fold (\<lambda>x t. ixgbe_set_mta t x) mc h2"
  define h4 where "h4 = for_upto 0 (unat (mcft_size (mac h3))) (\<lambda>i hw. IXGBE_WRITE_REG hw (IXGBE_MTA i) (mta_shadow (mac h3) ! i)) h3"
  have "same_hw h h2" by (rule same_hw_soft) (simp_all add: h1_def h2_def)
  also have "same_hw h2 h3" unfolding h3_def
    by (rule same_hw.over_list, simp, rule same_hw_soft) (simp_all add: ixgbe_set_mta_def Let_def)
  finally (same_hw_trans) have "same_hw h h3" .
  also have "same_hw h3 h4" unfolding h4_def by (rule same_hw.over_list, simp, rule same_hw_write) (simp add: filter_reg_def)
  finally (same_hw_trans) have "same_hw h h4" .
  moreover have "same_hw h4 (IXGBE_WRITE_REG h4 IXGBE_MCSTCTRL v)" for v by (rule same_hw_write) (simp add: filter_reg_def)
  ultimately show ?thesis
    unfolding ixgbe_update_mc_addr_list_generic_def Let_def h1_def [symmetric] h2_def [symmetric] h3_def [symmetric] h4_def [symmetric]
    using same_hw_trans by auto
qed

lemma restore_vf_same: "same_filters a (restore_vf i a)"
proof -
  have "same_filters t (t\<lparr>hw := vf_mta_bit x (hw t)\<rparr>)" for x t
    by (rule same_hw_filters, rule same_hw_soft) (simp_all add: vf_mta_bit_def Let_def)
  then have "same_filters a (for_upto 0 n (\<lambda>j a. a\<lparr>hw := vf_mta_bit (f j) (hw a)\<rparr>) a)" for n f by (intro same.over_list) simp_all
  moreover have "same_filters b (wrreg (IXGBE_VMOLR i) v b)" for v b by (rule same_wrreg) (simp add: filter_reg_def)
  ultimately show ?thesis unfolding restore_vf_def Let_def using same_trans by blast
qed

lemma isolated_mc:
  assumes "sriov_inv a"
  shows "isolated vf a (snd (ixgbe_write_mc_addr_list a))"
proof -
  define a1 where "a1 = a\<lparr>hw := (hw a)\<lparr>mac := (mac (hw a))\<lparr>mta_shadow := replicate (length (mta_shadow (mac (hw a)))) 0\<rparr>\<rparr>\<rparr>"
  define a2 where "a2 = for_upto 0 (num_vfs a1) restore_vf a1"
  define a3 where "a3 = ixgbe_full_sync_mac_table a2"
  have "same_filters a a1" unfolding a1_def by (rule same_hw_filters, rule same_hw_soft) simp_all
  moreover have "same_filters a1 a2" unfolding a2_def by (rule same.over_list) (simp_all add: restore_vf_same)
  ultimately have 2: "isolated vf a a2" using isolated_same [OF assms] same_trans by blast
  then have 3: "isolated vf a a3"
    unfolding a3_def using isolated_full_sync [OF isolated_inv] isolated_trans by blast
  have "isolated vf a3 (a3\<lparr>hw := snd (ixgbe_update_mc_addr_list_generic (hw a3) mc False)\<rparr>)" for mc
    using isolated_same [OF isolated_inv [OF 3] same_hw_filters [OF update_mc_same]] .
  then show ?thesis
    using 3 isolated_trans isolated_refl [OF assms]
    unfolding ixgbe_write_mc_addr_list_def ixgbe_restore_vf_multicasts_def Let_def a1_def [symmetric] a2_def [symmetric] a3_def [symmetric]
    by (auto simp: a3_def)
qed


section \<open>VLAN requests\<close>

lemma vlvf_entry_search_bound: "vlvf_entry_search h x n \<le> n"
  by (induction n) auto

lemma other_half: "q < 2 \<Longrightarrow> other_word (s * 2 + q) = s * 2 + (1 - q)"
  by (cases q) (auto simp: other_word_def less_Suc_eq)

lemma bits_zero_pools:
  assumes "pf < 64" "NOT (BIT (pf mod 32)) AND IXGBE_READ_REG h (IXGBE_VLVFB (s * 2 + pf div 32)) = 0"
    and "IXGBE_READ_REG h (IXGBE_VLVFB (s * 2 + (1 - pf div 32))) = 0" "p < 64" "p \<noteq> pf"
  shows "\<not> slot_pool h s p"
proof (cases "p div 32 = pf div 32")
  case True
  then have n: "p mod 32 \<noteq> pf mod 32" using assms(5) by (metis div_mult_mod_eq)
  have "bit (NOT (BIT (pf mod 32)) AND IXGBE_READ_REG h (IXGBE_VLVFB (s * 2 + pf div 32))) (p mod 32) \<longleftrightarrow>
    bit (IXGBE_READ_REG h (IXGBE_VLVFB (s * 2 + pf div 32))) (p mod 32)"
    using n bit_and_not_BIT [of "IXGBE_READ_REG h (IXGBE_VLVFB (s * 2 + pf div 32))" "pf mod 32" "p mod 32"] by (simp add: and.commute)
  then show ?thesis using assms(2) True by (simp add: slot_pool_def)
next
  case False
  have "p div 32 < 2" "pf div 32 < 2" using assms by auto
  with False have "p div 32 = 1 - pf div 32" by linarith
  then show ?thesis using assms(3) by (simp add: slot_pool_def)
qed

lemma isolated_promisc_vlvf:
  assumes "sriov_inv a" "vf < num_vfs a"
  shows "isolated vf a (ixgbe_update_pf_promisc_vlvf a x)"
proof -
  let ?pf = "vmdq_offset a"
  define s where "s = ixgbe_find_vlvf_entry (hw a) x"
  define word where "word = s * 2 + ?pf div 32"
  have pf: "?pf < 64" "?pf div 32 < 2" "\<not> hw_removed (hw a)" using assms by (auto simp: sriov_inv_def mac_inv_def)
  have s: "s < 64" using vlvf_entry_search_bound [of "hw a" x 63] by (auto simp: s_def ixgbe_find_vlvf_entry_def)
  show ?thesis
  proof (cases "s \<noteq> 0 \<and> NOT (BIT (?pf mod 32)) AND rdreg a (IXGBE_VLVFB word) = 0 \<and> rdreg a (IXGBE_VLVFB (other_word word)) = 0")
    case False
    then have "ixgbe_update_pf_promisc_vlvf a x = a"
      by (auto simp: ixgbe_update_pf_promisc_vlvf_def Let_def s_def [symmetric] word_def [symmetric])
    then show ?thesis using assms by (simp add: isolated_refl)
  next
    case True
    then have none: "\<not> slot_pool (hw a) s p" if "p \<in> vf_pools a" for p
      using bits_zero_pools [OF pf(1), of "hw a" s p] other_half [OF pf(2), of s] that by (auto simp: word_def vf_pools_def)
    define h1 where "h1 = (if \<not> vlan_promisc a then IXGBE_WRITE_REG (hw a) (IXGBE_VLVFB word) 0 else hw a)"
    have eq: "ixgbe_update_pf_promisc_vlvf a x = a\<lparr>hw := IXGBE_WRITE_REG h1 (IXGBE_VLVF s) 0\<rparr>"
      using True by (simp add: ixgbe_update_pf_promisc_vlvf_def Let_def s_def [symmetric] word_def [symmetric] wrreg_def h1_def)
    have w: "word = s * 2 \<or> word = s * 2 + 1" using pf(2) by (auto simp: word_def)
    have none': "\<not> slot_pool h1 s p" if "p \<in> vf_pools a" for p
      using none [OF that] that pf slot_pool_write [OF pf(3), of p ?pf s 0 s] by (auto simp: h1_def word_def vf_pools_def)
    have "vf \<in> vf_pools a" using assms by (auto simp: vf_pools_def sriov_inv_def)
    then show ?thesis
      unfolding eq using none none' pf(3) w
      by (intro isolated_slot [OF assms(1) s]) (auto simp: h1_def read_write_other)
  qed
qed

lemma set_vfta_fields:
  "active_vlans (snd (set_vfta a x p on b)) = active_vlans a" "vlan_promisc (snd (set_vfta a x p on b)) = vlan_promisc a"
  by (simp_all add: set_vfta_def split: prod.split)

lemma isolated_vf_vlan:
  assumes "sriov_inv a" "vf < num_vfs a"
  shows "isolated vf a (snd (ixgbe_set_vf_vlan a add x vf))"
proof -
  have b: "vf < 64" "vmdq_offset a < 64" using assms by (auto simp: sriov_inv_def)
  obtain e1 a1 where r1: "(if add \<and> active_vlans a (unat x) then set_vfta a x (VMDQ_P a 0) True False else (0, a)) = (e1, a1)"
    by (metis surj_pair)
  have "a1 = (if add \<and> active_vlans a (unat x) then snd (set_vfta a x (VMDQ_P a 0) True False) else a)"
    using r1 by (metis snd_conv)
  then have 1: "isolated vf a a1"
    using isolated_set_vfta [OF assms(1), of "VMDQ_P a 0" vf x True] b(2) isolated_refl [OF assms(1), of vf] by simp
  obtain e2 a2 where r2: "set_vfta a1 x vf add False = (e2, a2)" by (metis surj_pair)
  have 2: "isolated vf a1 a2"
    using isolated_set_vfta [OF isolated_inv [OF 1] disjI1 [OF refl] b(1), of x add] r2 by simp
  have 3: "isolated vf a2 (ixgbe_update_pf_promisc_vlvf a2 x)"
    using 1 2 assms(2) by (intro isolated_promisc_vlvf [OF isolated_inv [OF 2]]) (simp add: isolated_def)
  have "snd (ixgbe_set_vf_vlan a add x vf) \<in> {a1, a2, ixgbe_update_pf_promisc_vlvf a2 x}"
    unfolding ixgbe_set_vf_vlan_def Let_def r1 prod.case r2 by simp
  moreover note isolated_trans [OF 1 2] isolated_trans [OF isolated_trans [OF 1 2] 3]
  ultimately show ?thesis using 1 by auto
qed

section \<open>MAC requests\<close>

lemma msg_mac_length: "length (msg_mac msg) = 6"
  by (simp add: msg_mac_def)

lemma vf_bound: "sriov_inv a \<Longrightarrow> vf < num_vfs a \<Longrightarrow> vf < 64"
  by (simp add: sriov_inv_def)

lemma isolated_vf_mac:
  assumes "sriov_inv a" "vf < num_vfs a" "length addr = 6"
  shows "isolated vf a (snd (ixgbe_set_vf_mac a vf addr))"
proof -
  define a1 where "a1 = snd (ixgbe_del_mac_filter a (vf_mac_addresses (vfinfo a ! vf)) (of_nat vf))"
  have 1: "isolated vf a a1" unfolding a1_def by (rule isolated_del [OF assms(1) vf_bound [OF assms(1,2)]])
  obtain r a2 where r: "ixgbe_add_mac_filter a1 addr (of_nat vf) = (r, a2)" by (metis surj_pair)
  have 2: "isolated vf a1 a2" using isolated_add [OF isolated_inv [OF 1] assms(3) vf_bound [OF assms(1,2)]] r by simp
  have "isolated vf a2 (set_vf vf (\<lambda>v. v\<lparr>vf_mac_addresses := (if r \<ge> 0 then addr else replicate 6 0)\<rparr>) a2)"
    using assms(2,3) isolated_num [OF 1] isolated_num [OF 2] by (intro isolated_set_vf [OF isolated_inv [OF 2]]) simp_all
  from isolated_trans [OF isolated_trans [OF 1 2] this] show ?thesis
    unfolding ixgbe_set_vf_mac_def Let_def a1_def [symmetric] r by simp
qed

lemma isolated_mvs: "sriov_inv a \<Longrightarrow> isolated vf a (a\<lparr>vf_mvs := m\<rparr>)"
  by (rule isolated_frame) (simp_all add: sriov_inv_def)

lemma isolated_drop_macvlan: "sriov_inv a \<Longrightarrow> vf < 64 \<Longrightarrow> isolated vf a (drop_macvlan vf k a)"
  unfolding drop_macvlan_def Let_def
  using isolated_trans [OF isolated_mvs isolated_del [OF isolated_inv [OF isolated_mvs]]] isolated_refl by auto

lemma isolated_macvlan:
  assumes "sriov_inv a" "vf < 64" "length addr = 6 \<or> index = 0"
  shows "isolated vf a (snd (ixgbe_set_vf_macvlan a vf index addr))"
proof -
  define a1 where "a1 = (if index \<le> 1 then for_upto 0 (length (vf_mvs a)) (drop_macvlan vf) a else a)"
  have 1: "isolated vf a a1"
    unfolding a1_def using assms(1,2) by (intro iso.over_if iso.over_list isolated_drop_macvlan)
  obtain r a2 where r: "ixgbe_add_mac_filter a1 addr (of_nat vf) = (r, a2)" by (metis surj_pair)
  have 2: "isolated vf a1 a2" if "index \<noteq> 0" using isolated_add [OF isolated_inv [OF 1] _ assms(2)] r assms(3) that by (metis snd_conv)
  have "snd (ixgbe_set_vf_macvlan a vf index addr) \<in> {a1} \<union> (if index = 0 then {} else {a2} \<union> range (\<lambda>m. a2\<lparr>vf_mvs := m\<rparr>))"
    unfolding ixgbe_set_vf_macvlan_def Let_def a1_def [symmetric] r by (auto split: option.split)
  moreover have "isolated vf a a2" "isolated vf a (a2\<lparr>vf_mvs := m\<rparr>)" if "index \<noteq> 0" for m
    using isolated_trans [OF 1 2 [OF that]] isolated_trans [OF _ isolated_mvs [OF isolated_inv]] by blast+
  ultimately show ?thesis using 1 by (auto split: if_splits)
qed


section \<open>Requests\<close>

lemma isolated_set_vf_mac_addr:
  "sriov_inv a \<Longrightarrow> vf < num_vfs a \<Longrightarrow> isolated vf a (snd (ixgbe_set_vf_mac_addr a msg vf))"
  using isolated_vf_mac [of a vf "msg_mac msg"] isolated_refl [of a vf]
  by (auto simp: ixgbe_set_vf_mac_addr_def msg_mac_length Let_def split: prod.split)

lemma isolated_set_vf_loop:
  assumes "sriov_inv a" "vf < num_vfs a"
    and "\<And>i v. length (vf_mac_addresses v) = 6 \<Longrightarrow> length (vf_mac_addresses (f i v)) = 6"
  shows "isolated vf a (fold (\<lambda>i. set_vf vf (f i)) xs a)"
  by (rule isolated_fold [OF assms(1,2)], rule isolated_set_vf) (use assms(3) in simp_all)

lemma isolated_set_vf_multicasts:
  assumes "sriov_inv a" "vf < num_vfs a"
  shows "isolated vf a (snd (ixgbe_set_vf_multicasts a msg vf))"
proof -
  define n where "n = min (msg_info msg) IXGBE_MAX_VF_MC_ENTRIES"
  define a1 where "a1 = set_vf vf (\<lambda>v. v\<lparr>num_vf_mc_hashes := n\<rparr>) a"
  define a2 where "a2 = for_upto 0 n (\<lambda>i. set_vf vf (\<lambda>v. v\<lparr>vf_mc_hashes := (vf_mc_hashes v)[i := msg_hash msg i]\<rparr>)) a1"
  define a3 where "a3 = wrreg (IXGBE_VMOLR vf) (rdreg a (IXGBE_VMOLR vf) OR IXGBE_VMOLR_ROMPE) a2"
  have 1: "isolated vf a a1" unfolding a1_def by (rule isolated_set_vf [OF assms]) simp
  have 2: "isolated vf a1 a2"
    unfolding a2_def using isolated_inv [OF 1] isolated_num [OF 1] assms(2) by (intro isolated_set_vf_loop) simp_all
  have 3: "isolated vf a2 a3" unfolding a3_def by (rule isolated_wrreg [OF isolated_inv [OF 2]]) (simp add: filter_reg_def)
  have "isolated vf a3 (snd (ixgbe_write_mc_addr_list a3))" by (rule isolated_mc [OF isolated_inv [OF 3]])
  with isolated_trans [OF isolated_trans [OF 1 2] 3] isolated_trans show ?thesis
    unfolding ixgbe_set_vf_multicasts_def Let_def n_def [symmetric] a1_def [symmetric] a2_def [symmetric] a3_def [symmetric] snd_conv by blast
qed

lemma isolated_set_vf_vlan_msg:
  "sriov_inv a \<Longrightarrow> vf < num_vfs a \<Longrightarrow> isolated vf a (snd (ixgbe_set_vf_vlan_msg a msg vf))"
  using isolated_vf_vlan [of a vf] isolated_refl [of a vf]
  by (simp add: ixgbe_set_vf_vlan_msg_def Let_def)

lemma isolated_wrreg_if: "sriov_inv a \<Longrightarrow> \<not> filter_reg r \<Longrightarrow> isolated vf a (if c then wrreg r v a else a)"
  using isolated_wrreg isolated_refl by simp

lemma isolated_set_vf_lpe:
  assumes "sriov_inv a"
  shows "isolated vf a (snd (ixgbe_set_vf_lpe a m vf))"
proof -
  have f: "\<not> filter_reg (IXGBE_VFRE i)" "\<not> filter_reg IXGBE_MAXFRS" for i by (simp_all add: filter_reg_def)
  have 1: "isolated vf a (if c then wrreg (IXGBE_VFRE i) v a else a)" for c i v by (rule isolated_wrreg_if [OF assms f(1)])
  have 2: "isolated vf a (if c' then wrreg IXGBE_MAXFRS v' b else b)" if "b = (if c then wrreg (IXGBE_VFRE i) v a else a)" for c c' i v v' b
    using isolated_trans [OF 1 isolated_wrreg_if [OF isolated_inv [OF 1] f(2)]] that by blast
  show ?thesis unfolding ixgbe_set_vf_lpe_def Let_def using 1 2 [OF refl] by (simp only: if_split snd_conv split: if_split) blast
qed

lemma spoof_same: "same_filters a (a\<lparr>hw := ixgbe_set_vlan_anti_spoofing (ixgbe_set_mac_anti_spoofing (hw a) on vf) on vf\<rparr>)"
proof -
  have f: "\<not> filter_reg (IXGBE_PFVFSPOOF i)" for i by (simp add: filter_reg_def)
  have "same_hw h (ixgbe_set_mac_anti_spoofing h on vf)" "same_hw h (ixgbe_set_vlan_anti_spoofing h on vf)" for h
    using same_hw_write [OF f] same_hw_soft [of h h] by (simp_all add: ixgbe_set_mac_anti_spoofing_def ixgbe_set_vlan_anti_spoofing_def Let_def)
  then show ?thesis using same_hw_trans same_hw_filters by blast
qed

lemma isolated_set_vf_macvlan_msg:
  assumes "sriov_inv a" "vf < 64"
  shows "isolated vf a (snd (ixgbe_set_vf_macvlan_msg a msg vf))"
proof -
  define b where "b = (if msg_info msg \<noteq> 0 \<and> spoofchk_enabled (vfinfo a ! vf)
    then a\<lparr>hw := ixgbe_set_vlan_anti_spoofing (ixgbe_set_mac_anti_spoofing (hw a) False vf) False vf\<rparr> else a)"
  have 1: "isolated vf a b" unfolding b_def using isolated_same [OF assms(1) spoof_same] isolated_refl [OF assms(1)] by simp
  have "isolated vf b (snd (ixgbe_set_vf_macvlan b vf (msg_info msg) (msg_mac msg)))"
    by (rule isolated_macvlan [OF isolated_inv [OF 1] assms(2)]) (simp add: msg_mac_length)
  from isolated_trans [OF 1 this] isolated_refl [OF assms(1)] show ?thesis
    unfolding ixgbe_set_vf_macvlan_msg_def Let_def b_def [symmetric] by (auto split: prod.split)
qed

lemma isolated_negotiate_vf_api: "sriov_inv a \<Longrightarrow> vf < num_vfs a \<Longrightarrow> isolated vf a (snd (ixgbe_negotiate_vf_api a msg vf))"
  using isolated_set_vf [of a vf "\<lambda>v. v\<lparr>vf_api := msg ! 1\<rparr>"] isolated_refl [of a vf] by (simp add: ixgbe_negotiate_vf_api_def Let_def)

lemma isolated_xcast: "sriov_inv a \<Longrightarrow> vf < num_vfs a \<Longrightarrow> isolated vf a (snd (snd (ixgbe_update_vf_xcast_mode a msg vf)))"
proof -
  assume a: "sriov_inv a" and b: "vf < num_vfs a"
  have 1: "isolated vf a (wrreg (IXGBE_VMOLR vf) v a)" for v by (rule isolated_wrreg [OF a]) (simp add: filter_reg_def)
  have "isolated vf a (set_vf vf (\<lambda>v. v\<lparr>xcast_mode := x\<rparr>) (wrreg (IXGBE_VMOLR vf) v a))" for x v
    using b isolated_num [OF 1] by (intro isolated_trans [OF 1 isolated_set_vf [OF isolated_inv [OF 1]]]) simp_all
  then show ?thesis using isolated_refl [OF a]
    unfolding ixgbe_update_vf_xcast_mode_def Let_def by (auto split: sum.split)
qed

lemmas isolated_handlers = isolated_set_vf_mac_addr isolated_set_vf_multicasts isolated_set_vf_vlan_msg isolated_set_vf_lpe
  isolated_set_vf_macvlan_msg isolated_negotiate_vf_api isolated_xcast isolated_refl

lemma isolated_request:
  assumes "sriov_inv a" "vf < num_vfs a" "vf_request a msg vf = Some (r, msg', a')"
  shows "isolated vf a a'"
proof -
  have b: "vf < 64" using assms by (auto simp: sriov_inv_def)
  have "a' \<in> {a, snd (ixgbe_set_vf_mac_addr a msg vf), snd (ixgbe_set_vf_multicasts a msg vf), snd (ixgbe_set_vf_vlan_msg a msg vf),
     snd (ixgbe_set_vf_lpe a (msg ! 1) vf), snd (ixgbe_set_vf_macvlan_msg a msg vf), snd (ixgbe_negotiate_vf_api a msg vf),
     snd (snd (ixgbe_update_vf_xcast_mode a msg vf))}"
    using assms(3) by (auto simp: vf_request_def Let_def split: if_splits prod.splits)
  then show ?thesis using isolated_handlers assms(1,2) b by auto
qed


section \<open>Leaving all VLANs\<close>

lemma vid_of_slot: "(x :: u32) \<le> 4095 \<Longrightarrow> (x OR IXGBE_VLVF_VIEN) AND 0xFFF = x"
proof (rule bit_word_eqI)
  fix n assume x: "x \<le> 4095" and "n < LENGTH(32)"
  have "(0xFFF :: u32) = mask 12" by (simp add: mask_eq_exp_minus_1)
  then have "bit (0xFFF :: u32) n = (n < 12)" using \<open>n < LENGTH(32)\<close> by (simp only: bit_mask_iff possible_bit_word simp_thms)
  then show "bit ((x OR IXGBE_VLVF_VIEN) AND 0xFFF) n = bit x n"
    using bit_small [OF x, of n] by (auto simp only: bit_and_iff bit_or_VIEN)
qed

lemma slot_vid_unique:
  assumes "sriov_inv a" "i < 64" "IXGBE_READ_REG (hw a) (IXGBE_VLVF i) \<noteq> 0" "slot_has (hw a) x t" "t < 64"
    and "x = IXGBE_READ_REG (hw a) (IXGBE_VLVF i) AND 0xFFF"
  shows "t = i"
proof -
  obtain y where y: "y \<le> 4095" "IXGBE_READ_REG (hw a) (IXGBE_VLVF i) = y OR IXGBE_VLVF_VIEN" "y = 0 \<longleftrightarrow> i = 0"
    using assms(1-3) by (auto simp: sriov_inv_def vlvf_wf_def)
  have x: "x = y" using assms(6) y vid_of_slot by simp
  have "vlan_inv_on (vf_pools a) (hw a)" using assms(1) by (simp add: sriov_inv_def)
  from vlan_inv_dest(2) [OF this assms(5,2)] show ?thesis
    using assms(3,4) x y by (cases "y = 0") (auto simp: slot_has_def)
qed

lemma vfta_xor:
  assumes "vfta_on h x" "x \<noteq> y"
  shows "vfta_on (IXGBE_WRITE_REG h (IXGBE_VFTA (unat (y div 32))) (IXGBE_READ_REG h (IXGBE_VFTA (unat (y div 32))) XOR BIT (unat (y mod 32)))) x"
proof (cases "hw_removed h")
  case True
  then show ?thesis using assms(1) by (simp add: IXGBE_WRITE_REG_def IXGBE_REMOVED_def)
next
  case False
  then show ?thesis using assms vlan_index_inject [of x y]
    by (auto simp: vfta_on_def unat_div_mod_32 bit_xor_iff bit_BIT)
qed

lemma isolated_clear_slot:
  assumes "sriov_inv a" "i < 64" "vf < num_vfs a"
  shows "isolated vf a (clear_vf_vlan_slot vf i a)"
proof -
  let ?h = "hw a" and ?pf = "vmdq_offset a"
  define q where "q = vf div 32"
  define word where "word = i * 2 + q"
  define old where "old = rdreg a (IXGBE_VLVFB word)"
  define vlvf where "vlvf = rdreg a (IXGBE_VLVF i)"
  define h1 where "h1 = write_pool ?h i vf False"
  have nr: "\<not> hw_removed ?h" and pf: "?pf < 64" and vf: "vf < 64" "vf \<in> vf_pools a"
    using assms by (auto simp: sriov_inv_def mac_inv_def vf_pools_def)
  have q1: "q < 2" using vf(1) by (simp add: q_def div_less_iff_less_mult)
  then have q01: "q = 0 \<or> q = 1" by (simp only: less_2_cases_iff One_nat_def)
  have w: "word mod 2 = q" using q1 by (simp add: word_def)
  have w2: "word = i * 2 \<or> word = i * 2 + 1" using q01 by (auto simp: word_def)
  have ow: "other_word word = i * 2 + (1 - q)" unfolding word_def by (rule other_half [OF q1])
  show ?thesis
  proof (cases "old AND BIT (vf mod 32) = 0")
    case True
    then show ?thesis using assms(1)
      by (simp add: clear_vf_vlan_slot_def Let_def old_def word_def q_def isolated_refl)
  next
    case False
    then have ob: "bit old (vf mod 32)" by (simp add: and_BIT_eq_0)
    define new where "new = old XOR BIT (vf mod 32)"
    have new: "new = pool_bits ?h i vf False"
      using ob by (auto intro!: bit_word_eqI simp: new_def pool_bits_def Let_def old_def word_def q_def bit_xor_iff bit_BIT bit_and_not_BIT)
    define bits where "bits = (\<lambda>k. if k = word mod 2 then new else rdreg a (IXGBE_VLVFB (other_word word)))"
    have h1: "h1 = IXGBE_WRITE_REG ?h (IXGBE_VLVFB word) new" by (simp add: h1_def write_pool_def new word_def q_def)
    have bits: "IXGBE_READ_REG h1 (IXGBE_VLVFB (i * 2 + k)) = bits k" if "k < 2" for k
    proof (cases "k = q")
      case True
      then show ?thesis using nr by (simp add: h1 bits_def w) (simp add: word_def)
    next
      case False
      have "k = 0 \<or> k = 1" using that by (simp only: less_2_cases_iff One_nat_def)
      then have k: "k = 1 - q" using q01 False by auto
      then have "i * 2 + k \<noteq> word" using q01 by (auto simp: word_def)
      then show ?thesis using False k by (simp add: h1 bits_def w ow read_write_other)
    qed
    have P1: "slot_pool h1 t p = (if t = i \<and> p = vf then False else slot_pool ?h t p)" if "p < 64" for t p
      unfolding h1_def by (rule write_pool_effect [OF nr that vf(1)])
    define cond where "cond \<longleftrightarrow> bits (1 - ?pf div 32) \<noteq> 0 \<or> bits (?pf div 32) AND NOT (BIT (?pf mod 32)) \<noteq> 0"
    have pf2: "?pf div 32 < 2" using pf by (simp add: div_less_iff_less_mult)
    have none: "\<not> slot_pool h1 i p" if "\<not> cond" "p \<in> vf_pools a" for p
      using that bits_zero_pools [OF pf, of h1 i p] bits [OF pf2] bits [of "1 - ?pf div 32"]
      by (auto simp: cond_def vf_pools_def and.commute)
    have leave: "isolated vf a (a\<lparr>hw := h1\<rparr>)"
      using nr w2 P1 vf by (intro isolated_slot [OF assms(1,2)]) (auto simp: h1 read_write_other vf_pools_def vfta_on_def)
    have gone: "isolated vf a (a\<lparr>hw := IXGBE_WRITE_REG (IXGBE_WRITE_REG h0 (IXGBE_VLVF i) 0) (IXGBE_VLVFB word) v\<rparr>)"
      if "\<not> cond" "v = 0 \<or> v = new" "hw_removed h0 = hw_removed ?h" "mac h0 = mac ?h" "\<And>r. (\<And>i. r \<noteq> IXGBE_VFTA i) \<Longrightarrow> IXGBE_READ_REG h0 r = IXGBE_READ_REG ?h r"
        "\<And>x t. slot_has ?h x t \<Longrightarrow> t < 64 \<Longrightarrow> t \<noteq> i \<Longrightarrow> vfta_on ?h x \<Longrightarrow> vfta_on h0 x" for h0 v
    proof -
      let ?h2 = "IXGBE_WRITE_REG (IXGBE_WRITE_REG h0 (IXGBE_VLVF i) 0) (IXGBE_VLVFB word) v"
      note keep = that(6)
      have nr0: "\<not> hw_removed h0" using nr that(3) by simp
      have sp: "slot_pool (IXGBE_WRITE_REG h0 (IXGBE_VLVF i) 0) t p = slot_pool ?h t p" for t p
        using that(5) by (simp add: slot_pool_def)
      have e: "\<not> slot_pool ?h2 i p" if "p \<in> vf_pools a" for p
      proof -
        have p: "p < 64" using that by (simp add: vf_pools_def)
        note n = none [OF \<open>\<not> cond\<close> that]
        have "slot_pool ?h2 i p \<longleftrightarrow> (if p div 32 = q then bit v (p mod 32) else slot_pool ?h i p)"
          using slot_pool_write [of "IXGBE_WRITE_REG h0 (IXGBE_VLVF i) 0" p vf i v i] nr0 p vf(1) sp by (simp add: word_def q_def)
        moreover have "slot_pool h1 i p \<longleftrightarrow> (if p div 32 = q then bit new (p mod 32) else slot_pool ?h i p)"
          using slot_pool_write [OF nr p vf(1), of i new i] by (simp add: h1 word_def q_def)
        ultimately show ?thesis using n \<open>v = 0 \<or> v = new\<close> by (auto split: if_splits)
      qed
      show ?thesis
      proof (rule isolated_slot [OF assms(1,2)])
        show "slot_pool ?h2 i p = slot_pool ?h i p" if "p \<in> vf_pools a" "p \<noteq> vf" for p
          using e [OF that(1)] none [OF \<open>\<not> cond\<close> that(1)] P1 [of p i] that by (auto simp: vf_pools_def)
        show "vfta_on ?h2 x" if "p \<in> vf_pools a" "t < 64" "slot_has ?h x t" "slot_pool ?h2 t p" "vfta_on ?h x" for x t p
          using keep [OF that(3,2) _ that(5)] e [OF that(1)] that(4) by (cases "t = i") auto
      qed (use that(3-5) nr0 w2 e vf in \<open>auto simp: read_write_other\<close>)
    qed
    define vid where "vid = vlvf AND VLAN_VID_MASK"
    define U where "U b = wrreg (IXGBE_VLVFB word) (if \<not> vlan_promisc (wrreg (IXGBE_VLVF i) 0 b) then 0 else new) (wrreg (IXGBE_VLVF i) 0 b)" for b
    have eq: "clear_vf_vlan_slot vf i a =
      (if cond then wrreg (IXGBE_VLVFB word) new a
       else if bits 0 \<noteq> 0 \<or> bits 1 \<noteq> 0 then U a
       else if vlvf = 0 then wrreg (IXGBE_VLVFB word) new a
       else U (if rdreg a (IXGBE_VFTA (unat (vid div 32))) AND BIT (unat (vid mod 32)) \<noteq> 0
         then wrreg (IXGBE_VFTA (unat (vid div 32))) (rdreg a (IXGBE_VFTA (unat (vid div 32))) XOR BIT (unat (vid mod 32))) a else a))"
      unfolding clear_vf_vlan_slot_def Let_def add_0 cond_def bits_def U_def q_def [symmetric] word_def [symmetric] old_def [symmetric]
        new_def [symmetric] vlvf_def [symmetric] vid_def [symmetric]
      by (simp only: False if_False)
    have 1: "isolated vf a (wrreg (IXGBE_VLVFB word) new a)" using leave by (simp add: wrreg_def h1)
    have 2: "isolated vf a (U a)" if "\<not> cond"
      using gone [OF that, of "if \<not> vlan_promisc a then 0 else new" ?h] by (simp add: U_def wrreg_def)
    have 3: "isolated vf a (U (wrreg (IXGBE_VFTA (unat (vid div 32))) (rdreg a (IXGBE_VFTA (unat (vid div 32))) XOR BIT (unat (vid mod 32))) a))"
      if "\<not> cond" "vlvf \<noteq> 0"
    proof -
      define h0 where "h0 = IXGBE_WRITE_REG ?h (IXGBE_VFTA (unat (vid div 32))) (rdreg a (IXGBE_VFTA (unat (vid div 32))) XOR BIT (unat (vid mod 32)))"
      have "vfta_on h0 x" if "slot_has ?h x t" "t < 64" "t \<noteq> i" "vfta_on ?h x" for x t
        unfolding h0_def using slot_vid_unique [OF assms(1,2) _ that(1,2)] that(3) \<open>vlvf \<noteq> 0\<close>
        by (intro vfta_xor [OF that(4)]) (auto simp: vid_def vlvf_def)
      then show ?thesis
        using gone [OF that(1), of "if \<not> vlan_promisc a then 0 else new" h0] by (simp add: U_def wrreg_def h0_def read_write_other)
    qed
    show ?thesis unfolding eq using 1 2 3 by (simp only: split: if_split) blast
  qed
qed

lemma isolated_clear_vf_vlans: "sriov_inv a \<Longrightarrow> vf < num_vfs a \<Longrightarrow> isolated vf a (ixgbe_clear_vf_vlans a vf)"
  unfolding ixgbe_clear_vf_vlans_def by (rule isolated_fold) (auto intro: isolated_clear_slot)


section \<open>The receive mode\<close>

lemma isolated_flag: "sriov_inv a \<Longrightarrow> isolated vf a (a\<lparr>vlan_promisc := x\<rparr>)"
  by (rule isolated_frame) (simp_all add: sriov_inv_def)

lemma isolated_wrregs:
  assumes "sriov_inv a" "\<And>i. \<not> filter_reg (r i)"
  shows "isolated vf a (fold (\<lambda>i t. wrreg (r i) (v i t) t) xs a)"
  by (rule iso.over_list [OF assms(1)], erule isolated_wrreg) (rule assms(2))

lemma isolated_vlan_strip: "sriov_inv a \<Longrightarrow> isolated vf a (vlan_strip on a)"
proof -
  assume a: "sriov_inv a"
  have f: "\<not> filter_reg IXGBE_VLNCTRL" "\<not> filter_reg (IXGBE_RXDCTL i)" for i by (simp_all add: filter_reg_def)
  show ?thesis
    unfolding vlan_strip_def using isolated_wrreg [OF a f(1)] isolated_wrregs [OF a f(2)] isolated_refl [OF a]
    by (cases "mac_type (mac (hw a))") simp_all
qed

text \<open>The VLANs that may have a slot.\<close>

definition has_slot :: "ixgbe_hw \<Rightarrow> u32 \<Rightarrow> bool" where
  "has_slot h x \<longleftrightarrow> x \<le> 4095 \<and> (x = 0 \<or> (\<exists>s < 64. 0 < s \<and> IXGBE_READ_REG h (IXGBE_VLVF s) = x OR IXGBE_VLVF_VIEN))"

lemma slot_pool_frame: "(\<And>i. IXGBE_READ_REG h' (IXGBE_VLVFB i) = IXGBE_READ_REG h (IXGBE_VLVFB i)) \<Longrightarrow> slot_pool h' = slot_pool h"
  by (simp add: slot_pool_def fun_eq_iff)

lemma isolated_vfta:
  assumes "sriov_inv a" "\<And>x. has_slot (hw a) x \<Longrightarrow> unat x div 32 = j \<Longrightarrow> bit v (unat x mod 32)"
  shows "isolated vf a (wrreg (IXGBE_VFTA j) v a)"
proof -
  let ?h = "IXGBE_WRITE_REG (hw a) (IXGBE_VFTA j) v"
  have nr: "\<not> hw_removed (hw a)" using assms(1) by (simp add: sriov_inv_def mac_inv_def)
  have sp: "slot_pool ?h = slot_pool (hw a)" by (rule slot_pool_frame) (simp add: read_write_other)
  have "vfta_on ?h x" if "x \<le> 4095" "slot_has (hw a) x t" "vfta_on (hw a) x" for x t
  proof (cases "unat x div 32 = j")
    case True
    have "has_slot (hw a) x" using that(1,2) by (auto simp: has_slot_def slot_has_def split: if_splits)
    with assms(2) True nr show ?thesis by (simp add: vfta_on_def)
  next
    case False
    then show ?thesis using that(3) by (simp add: vfta_on_def read_write_other)
  qed
  then show ?thesis
    unfolding wrreg_def using sp by (intro isolated_slot [OF assms(1), of 0]) (auto simp: read_write_other)
qed

lemma isolated_pf_bit:
  assumes "sriov_inv a" "vf < num_vfs a" "i < 64"
  shows "isolated vf a (a\<lparr>hw := write_pool (hw a) i (vmdq_offset a) on\<rparr>)"
proof -
  let ?pf = "vmdq_offset a"
  have b: "\<not> hw_removed (hw a)" "?pf < 64" "vf < 64" "vf \<noteq> ?pf" using assms by (auto simp: sriov_inv_def mac_inv_def)
  have w: "?pf div 32 = 0 \<or> ?pf div 32 = 1" using b(2) by auto
  have sp: "slot_pool (write_pool (hw a) i ?pf on) t p = slot_pool (hw a) t p" if "p < 64" "p \<noteq> ?pf" for t p
    using write_pool_effect [OF b(1) that(1) b(2)] that(2) by simp
  have rd: "IXGBE_READ_REG (write_pool (hw a) i ?pf on) r = IXGBE_READ_REG (hw a) r"
    if "r \<noteq> IXGBE_VLVFB (i * 2)" "r \<noteq> IXGBE_VLVFB (i * 2 + 1)" for r
    using that w by (auto simp: write_pool_def intro!: read_write_other)
  have m: "mac (write_pool (hw a) i ?pf on) = mac (hw a)" by (simp add: write_pool_def)
  show ?thesis
    using sp b rd m by (intro isolated_slot [OF assms(1,3)]) (auto simp: vf_pools_def)
qed

lemma isolated_offset: "isolated vf a b \<Longrightarrow> vmdq_offset b = vmdq_offset a"
  by (simp add: isolated_def)

lemma isolated_promisc_enable:
  assumes "sriov_inv a" "vf < num_vfs a"
  shows "isolated vf a (ixgbe_vlan_promisc_enable a)"
proof -
  have f: "\<not> filter_reg IXGBE_VLNCTRL" by (simp add: filter_reg_def)
  note w = isolated_wrreg [OF assms(1) f, of vf]
  define a1 where "a1 = wrreg IXGBE_VLNCTRL (rdreg a IXGBE_VLNCTRL OR IXGBE_VLNCTRL_VFE) a"
  define a2 where "a2 = a1\<lparr>vlan_promisc := True\<rparr>"
  define a3 where "a3 = fold (\<lambda>i a. let r = IXGBE_VLVFB (i * 2 + VMDQ_P a 0 div 32)
      in wrreg r (rdreg a r OR BIT (VMDQ_P a 0 mod 32)) a) (rev [1..<IXGBE_VLVF_ENTRIES]) a2"
  have 1: "isolated vf a a1" unfolding a1_def by (rule w)
  have 2: "isolated vf a a2" unfolding a2_def by (rule isolated_trans [OF 1 isolated_flag [OF isolated_inv [OF 1]]])
  have n2: "vf < num_vfs a2" using assms(2) isolated_num [OF 2] by simp
  have "isolated vf a2 a3"
    unfolding a3_def
  proof (rule isolated_fold [OF isolated_inv [OF 2] n2])
    fix i t assume i: "i \<in> set (rev [1..<IXGBE_VLVF_ENTRIES])" "sriov_inv t" "vf < num_vfs t"
    then have "isolated vf t (t\<lparr>hw := write_pool (hw t) i (vmdq_offset t) True\<rparr>)" by (intro isolated_pf_bit) auto
    then show "isolated vf t (let r = IXGBE_VLVFB (i * 2 + VMDQ_P t 0 div 32) in wrreg r (rdreg t r OR BIT (VMDQ_P t 0 mod 32)) t)"
      by (simp add: wrreg_def write_pool_def pool_bits_def Let_def)
  qed
  from isolated_trans [OF 2 this] have 3: "isolated vf a a3" .
  have n3: "vf < num_vfs a3" using assms(2) isolated_num [OF 3] by simp
  have "isolated vf a3 (fold (\<lambda>i. wrreg (IXGBE_VFTA i) 0xFFFFFFFF) xs a3)" for xs
  proof (rule isolated_fold [OF isolated_inv [OF 3] n3])
    have "bit (0xFFFFFFFF :: u32) k" if "k < 32" for k
    proof -
      have "(0xFFFFFFFF :: u32) = mask 32" by (simp add: mask_eq_exp_minus_1)
      then show ?thesis using that by (simp only: bit_mask_iff possible_bit_word) simp
    qed
    then show "isolated vf t (wrreg (IXGBE_VFTA i) 0xFFFFFFFF t)" if "sriov_inv t" for i t by (intro isolated_vfta [OF that]) simp
  qed
  note 4 = isolated_trans [OF 3 this]
  have "ixgbe_vlan_promisc_enable a \<in> {wrreg IXGBE_VLNCTRL (rdreg a IXGBE_VLNCTRL AND NOT IXGBE_VLNCTRL_VFE) a, a1,
      fold (\<lambda>i. wrreg (IXGBE_VFTA i) 0xFFFFFFFF) (rev [0..<unat (vft_size (mac (hw a3)))]) a3}"
    unfolding ixgbe_vlan_promisc_enable_def Let_def [of "rdreg a IXGBE_VLNCTRL"]
    by (simp only: Let_def a1_def [symmetric] a2_def [symmetric] a3_def [unfolded Let_def, symmetric]) simp
  then show ?thesis by (elim insertE emptyE) (simp_all only: w 1 4)
qed


section \<open>Rebuilding the VLAN table\<close>

lemma isolated_remove_pf:
  assumes "sriov_inv a" "vf < num_vfs a" "i < 64"
  shows "isolated vf a (wrreg (IXGBE_VLVFB (i * 2 + VMDQ_P a 0 div 32))
    (NOT (BIT (VMDQ_P a 0 mod 32)) AND rdreg a (IXGBE_VLVFB (i * 2 + VMDQ_P a 0 div 32))) a)"
  using isolated_pf_bit [OF assms, of False] by (simp add: wrreg_def write_pool_def pool_bits_def Let_def and.commute)

text \<open>
  What a rebuilding pass keeps: the other VFs, the VLANs of the slots and the VLANs of the PF.
\<close>

definition scrubbed :: "nat \<Rightarrow> ixgbe_adapter \<Rightarrow> ixgbe_adapter \<Rightarrow> bool" where
  "scrubbed vf a b \<longleftrightarrow> isolated vf a b \<and> active_vlans b = active_vlans a \<and>
     (\<forall>s. IXGBE_READ_REG (hw b) (IXGBE_VLVF s) = IXGBE_READ_REG (hw a) (IXGBE_VLVF s))"

lemma scrubbed_refl: "sriov_inv a \<Longrightarrow> scrubbed vf a a"
  by (simp add: scrubbed_def isolated_refl)

lemma scrubbed_trans: "scrubbed vf a b \<Longrightarrow> scrubbed vf b c \<Longrightarrow> scrubbed vf a c"
  unfolding scrubbed_def using isolated_trans by (metis (full_types))

lemma scrubbed_inv: "scrubbed vf a b \<Longrightarrow> sriov_inv b" "scrubbed vf a b \<Longrightarrow> num_vfs b = num_vfs a"
  by (auto simp: scrubbed_def isolated_def)

lemma scrubbed_slot: "scrubbed vf a b \<Longrightarrow> has_slot (hw b) x = has_slot (hw a) x"
  by (simp add: scrubbed_def has_slot_def)

lemma scrubbed_wrreg: "isolated vf a (wrreg r v a) \<Longrightarrow> (\<And>s. r \<noteq> IXGBE_VLVF s) \<Longrightarrow> scrubbed vf a (wrreg r v a)"
  by (auto simp: scrubbed_def wrreg_def intro!: read_write_other)

text \<open>The bit that a pass sets for slot \<open>s\<close>.\<close>

definition collected :: "nat \<Rightarrow> ixgbe_adapter \<Rightarrow> u32 list \<Rightarrow> nat \<Rightarrow> bool" where
  "collected off a v s \<longleftrightarrow> (let vlvf = IXGBE_READ_REG (hw a) (IXGBE_VLVF s); vid = unat (vlvf AND 0xFFF) in
     vlvf = 0 \<or> vid < off * 32 \<or> vid \<ge> off * 32 + 256 \<or> bit (v ! ((vid - off * 32) div 32)) (vid mod 32))"

lemma collected_cong: "scrubbed vf a b \<Longrightarrow> collected off b v s = collected off a v s"
  by (simp add: collected_def scrubbed_def)

definition grown :: "u32 list \<Rightarrow> u32 list \<Rightarrow> bool" where
  "grown v w \<longleftrightarrow> length w = length v \<and> (\<forall>k < length v. \<forall>n. bit (v ! k) n \<longrightarrow> bit (w ! k) n)"

lemma collected_grown: "collected off a v s \<Longrightarrow> grown v w \<Longrightarrow> length v = 8 \<Longrightarrow> collected off a w s"
proof -
  assume c: "collected off a v s" "grown v w" "length v = 8"
  define vid where "vid = unat (IXGBE_READ_REG (hw a) (IXGBE_VLVF s) AND 0xFFF)"
  have "(vid - off * 32) div 32 < 8" if "vid < off * 32 + 256" using that by auto
  then show ?thesis using c unfolding collected_def grown_def Let_def vid_def [symmetric] by (cases "vid < off * 32 + 256") auto
qed

lemma scrub_slot_step:
  assumes "sriov_inv a" "vf < num_vfs a" "i < 64" "length v = 8" "scrub_slot off i (v, a) = (w, t)"
  shows "scrubbed vf a t \<and> grown v w \<and> collected off a w i"
proof -
  define vlvf where "vlvf = rdreg a (IXGBE_VLVF i)"
  define vid where "vid = unat (vlvf AND 0xFFF)"
  define k where "k = (vid - off * 32) div 32"
  define v' where "v' = v[k := v ! k OR BIT (vid mod 32)]"
  define a' where "a' = wrreg (IXGBE_VLVFB (i * 2 + VMDQ_P a 0 div 32))
    (NOT (BIT (VMDQ_P a 0 mod 32)) AND rdreg a (IXGBE_VLVFB (i * 2 + VMDQ_P a 0 div 32))) a"
  have r: "scrubbed vf a a'" unfolding a'_def by (rule scrubbed_wrreg [OF isolated_remove_pf [OF assms(1-3)]]) simp
  have g: "grown v v" "grown v v'" by (cases "k < length v"; auto simp: grown_def v'_def nth_list_update bit_or_iff)+
  have c: "collected off a w i \<longleftrightarrow> vlvf = 0 \<or> vid < off * 32 \<or> vid \<ge> off * 32 + 256 \<or> bit (w ! k) (vid mod 32)" for w
    by (simp add: collected_def vlvf_def vid_def k_def Let_def)
  have "bit (v' ! k) (vid mod 32)" if "\<not> vid < off * 32" "\<not> vid \<ge> off * 32 + 256"
  proof -
    have "k < 8" using that by (auto simp: k_def)
    then show ?thesis using assms(4) by (simp add: v'_def bit_or_iff bit_BIT)
  qed
  note c' = this
  have "(w, t) = (if vid < off * 32 \<or> vid \<ge> off * 32 + 256 then (v, a)
      else if vlvf \<noteq> 0 then (v', if active_vlans a vid then a else a') else (v, a'))"
    unfolding assms(5) [symmetric] scrub_slot_def
    by (simp add: Let_def vlvf_def [symmetric] vid_def [symmetric] k_def [symmetric] v'_def [symmetric] a'_def)
  then show ?thesis
    using scrubbed_refl [OF assms(1)] r g c c' by (auto split: if_splits)
qed

lemma grown_trans: "grown u v \<Longrightarrow> grown v w \<Longrightarrow> grown u w"
  by (simp add: grown_def)

lemma scrub_slots:
  assumes "sriov_inv a" "vf < num_vfs a" "\<forall>i \<in> set xs. i < 64" "length v = 8" "fold (scrub_slot off) xs (v, a) = (w, t)"
  shows "scrubbed vf a t \<and> grown v w \<and> (\<forall>i \<in> set xs. collected off a w i)"
  using assms
proof (induction xs arbitrary: v a)
  case Nil
  then show ?case by (auto simp: scrubbed_refl grown_def)
next
  case (Cons i xs)
  obtain v1 a1 where s: "scrub_slot off i (v, a) = (v1, a1)" by (metis surj_pair)
  from scrub_slot_step [OF Cons.prems(1,2) _ Cons.prems(4) s] Cons.prems(3)
  have 1: "scrubbed vf a a1" "grown v v1" "collected off a v1 i" by auto
  have l: "length v1 = 8" using 1(2) Cons.prems(4) by (simp add: grown_def)
  have "fold (scrub_slot off) xs (v1, a1) = (w, t)" using Cons.prems(5) s by simp
  from Cons.IH [OF scrubbed_inv(1) [OF 1(1)] _ _ l this] Cons.prems(2,3) scrubbed_inv(2) [OF 1(1)]
  have 2: "scrubbed vf a1 t" "grown v1 w" "\<forall>i \<in> set xs. collected off a1 w i" by auto
  show ?case
    using scrubbed_trans [OF 1(1) 2(1)] grown_trans [OF 1(2) 2(2)] collected_grown [OF 1(3) 2(2) l] 2(3)
      collected_cong [OF 1(1)] by auto
qed

lemma bit_select: "bit (foldr (\<lambda>b acc. if P b then acc OR BIT b else acc) bs (0 :: u32)) n \<longleftrightarrow> n < 32 \<and> n \<in> set bs \<and> P n"
  by (induction bs) (auto simp: bit_or_iff bit_BIT)

lemma bit_active_word: "n < 32 \<Longrightarrow> bit (active_word a w) n \<longleftrightarrow> active_vlans a (w * 32 + n)"
  by (simp add: active_word_def bit_select)

text \<open>Every VLAN with a slot has its bit in the rebuilt word.\<close>

lemma scrub_word:
  assumes "has_slot (hw a) x" "unat x div 32 = off + i" "i < 8" "active_vlans a 0"
    and "\<And>s. s \<in> {1..<64} \<Longrightarrow> collected off a w s"
  shows "bit (w ! i OR active_word a (off + i)) (unat x mod 32)"
proof (cases "x = 0")
  case True
  with assms(2,4) show ?thesis by (simp add: bit_or_iff bit_active_word)
next
  case False
  then obtain s where s: "s \<in> {1..<64}" "IXGBE_READ_REG (hw a) (IXGBE_VLVF s) = x OR IXGBE_VLVF_VIEN" "x \<le> 4095"
    using assms(1) unfolding has_slot_def by (metis One_nat_def Suc_leI atLeastLessThan_iff)
  have "x OR IXGBE_VLVF_VIEN \<noteq> 0" using False by (auto simp: or_eq_0_iff)
  moreover have u: "unat x = off * 32 + (i * 32 + unat x mod 32)" using assms(2) by (metis add.assoc add_mult_distrib div_mult_mod_eq)
  have "unat x \<ge> off * 32" "unat x < off * 32 + 256" using u assms(3) mod_less_divisor [of 32 "unat x"] by linarith+
  moreover have "unat x - off * 32 = i * 32 + unat x mod 32" using u by linarith
  then have "(unat x - off * 32) div 32 = i" by simp
  ultimately show ?thesis using assms(5) [OF s(1)] s(2) vid_of_slot [OF s(3)]
    by (auto simp: collected_def Let_def bit_or_iff)
qed

lemma scrubbed_vfta:
  assumes "sriov_inv a" "vf < num_vfs a"
  shows "scrubbed vf a (ixgbe_scrub_vfta off a)"
proof -
  obtain w t where f: "fold (scrub_slot off) (rev [1..<IXGBE_VLVF_ENTRIES]) (replicate 8 0, a) = (w, t)" by (metis surj_pair)
  from scrub_slots [OF assms _ _ f]
  have s: "scrubbed vf a t" "\<And>s. s \<in> {1..<64} \<Longrightarrow> collected off a w s" by auto
  have "scrubbed vf a (fold (\<lambda>i a. wrreg (IXGBE_VFTA (off + i)) (w ! i OR active_word a (off + i)) a) (rev [0..<8]) t)"
  proof (rule fold_invariant [where Q = "\<lambda>i. i < 8" and P = "scrubbed vf a"])
    fix i b assume i: "i < (8 :: nat)" and b: "scrubbed vf a b"
    have v0: "active_vlans b 0" using scrubbed_inv(1) [OF b] by (simp add: sriov_inv_def)
    have "isolated vf b (wrreg (IXGBE_VFTA (off + i)) (w ! i OR active_word b (off + i)) b)"
      by (rule isolated_vfta [OF scrubbed_inv(1) [OF b]], rule scrub_word) (use i v0 s(2) collected_cong [OF b] in auto)
    from scrubbed_trans [OF b scrubbed_wrreg [OF this]]
    show "scrubbed vf a (wrreg (IXGBE_VFTA (off + i)) (w ! i OR active_word b (off + i)) b)" by simp
  qed (use s(1) in auto)
  then show ?thesis by (simp only: ixgbe_scrub_vfta_def f Let_def prod.case)
qed

lemma isolated_promisc_disable:
  assumes "sriov_inv a" "vf < num_vfs a"
  shows "isolated vf a (ixgbe_vlan_promisc_disable a)"
proof -
  have f: "\<not> filter_reg IXGBE_VLNCTRL" by (simp add: filter_reg_def)
  define a1 where "a1 = wrreg IXGBE_VLNCTRL (rdreg a IXGBE_VLNCTRL OR IXGBE_VLNCTRL_VFE) a"
  define a2 where "a2 = a1\<lparr>vlan_promisc := False\<rparr>"
  have 1: "isolated vf a a1" unfolding a1_def by (rule isolated_wrreg [OF assms(1) f])
  have 2: "isolated vf a a2" unfolding a2_def by (rule isolated_trans [OF 1 isolated_flag [OF isolated_inv [OF 1]]])
  have n2: "vf < num_vfs a2" using assms(2) isolated_num [OF 2] by simp
  have "isolated vf a2 (fold (\<lambda>k. ixgbe_scrub_vfta (8 * k)) xs a2)" for xs
    by (rule isolated_fold [OF isolated_inv [OF 2] n2]) (use scrubbed_vfta scrubbed_def in blast)
  note 3 = isolated_trans [OF 2 this]
  show ?thesis
    unfolding ixgbe_vlan_promisc_disable_def Let_def [of "wrreg _ _ _"] a1_def [symmetric]
    unfolding Let_def a2_def [symmetric] using 1 3 by (simp only: split: if_splits) blast
qed


section \<open>Unicast addresses of the PF\<close>

text \<open>
  What \<open>__dev_uc_sync\<close> may do to the adapter: call \<open>ixgbe_uc_sync\<close> and \<open>ixgbe_uc_unsync\<close>, any
  number of times and with any addresses.
\<close>

inductive uc_step :: "ixgbe_adapter \<Rightarrow> ixgbe_adapter \<Rightarrow> bool" where
  uc_step_sync: "length addr = 6 \<Longrightarrow> uc_step a (snd (ixgbe_uc_sync a addr))"
| uc_step_unsync: "uc_step a (snd (ixgbe_uc_unsync a addr))"

definition dev_uc_sync_calls :: "(ixgbe_adapter \<Rightarrow> int \<times> ixgbe_adapter) \<Rightarrow> bool" where
  "dev_uc_sync_calls uc \<longleftrightarrow> (\<forall>a. uc_step\<^sup>*\<^sup>* a (snd (uc a)))"

lemma isolated_pf: "sriov_inv a \<Longrightarrow> isolated (vmdq_offset a) a b \<Longrightarrow> isolated vf a b"
  by (auto simp: isolated_def sriov_inv_def)

lemma isolated_uc_step: "uc_step a b \<Longrightarrow> sriov_inv a \<Longrightarrow> isolated vf a b"
proof (induction rule: uc_step.induct)
  case (uc_step_sync addr a)
  then have "isolated (vmdq_offset a) a (snd (ixgbe_add_mac_filter a addr (of_nat (vmdq_offset a))))"
    by (intro isolated_add) (auto simp: sriov_inv_def)
  then show ?case using isolated_pf [OF uc_step_sync(2)] by (simp add: ixgbe_uc_sync_def split_beta)
next
  case (uc_step_unsync a addr)
  then have "isolated (vmdq_offset a) a (snd (ixgbe_del_mac_filter a addr (of_nat (vmdq_offset a))))"
    by (intro isolated_del) (auto simp: sriov_inv_def)
  then show ?case using isolated_pf [OF uc_step_unsync] by (simp add: ixgbe_uc_unsync_def)
qed

lemma isolated_uc:
  assumes "dev_uc_sync_calls uc" "sriov_inv a"
  shows "isolated vf a (snd (uc a))"
proof -
  have "uc_step\<^sup>*\<^sup>* a (snd (uc a))" using assms(1) by (simp add: dev_uc_sync_calls_def)
  then show ?thesis
  proof (induction rule: rtranclp_induct)
    case base
    then show ?case by (rule isolated_refl [OF assms(2)])
  next
    case (step b c)
    then show ?case using isolated_uc_step isolated_inv isolated_trans by blast
  qed
qed

text \<open>Bindings of a function that leave the other VFs alone whatever values they bind.\<close>

lemma isolated_let:
  "(\<And>x. isolated vf a (f x)) \<Longrightarrow> isolated vf a (let x = (e :: u32) in f x)"
  "(\<And>x. isolated vf a (g x)) \<Longrightarrow> isolated vf a (let x = (c :: bool) in g x)"
  "(\<And>x y. isolated vf a (h x y)) \<Longrightarrow> isolated vf a (let (x, y) = (p :: u32 \<times> u32) in h x y)"
  by (simp_all add: Let_def split_beta)

lemma isolated_rx_mode:
  assumes "dev_uc_sync_calls uc" "sriov_inv a" "vf < num_vfs a"
  shows "isolated vf a (ixgbe_set_rx_mode uc a)"
proof -
  have f: "\<not> filter_reg (IXGBE_VMOLR i)" "\<not> filter_reg IXGBE_FCTRL" for i by (simp_all add: filter_reg_def)
  have "same_filters a (a\<lparr>hw := (hw a)\<lparr>addr_ctrl := x\<rparr>\<rparr>)" for x by (rule same_hw_filters, rule same_hw_soft) simp_all
  then have 1: "isolated vf a (a\<lparr>hw := (hw a)\<lparr>addr_ctrl := x\<rparr>\<rparr>)" for x by (rule isolated_same [OF assms(2)])
  have 4: "isolated vf a (if c then wrreg (IXGBE_VMOLR i) v b else b)" if "isolated vf a b" for b c i v
    using that isolated_trans [OF that isolated_wrreg [OF isolated_inv [OF that] f(1)]] by simp
  have 6: "isolated vf a (if c then ixgbe_vlan_strip_enable b else ixgbe_vlan_strip_disable b)" if "isolated vf a b" for b c
    using that isolated_trans [OF that isolated_vlan_strip [OF isolated_inv [OF that]]]
    by (simp add: ixgbe_vlan_strip_enable_def ixgbe_vlan_strip_disable_def)
  have 7: "isolated vf a (if c then ixgbe_vlan_promisc_disable b else ixgbe_vlan_promisc_enable b)" if "isolated vf a b" for b c
  proof -
    have "sriov_inv b" "vf < num_vfs b" using isolated_inv [OF that] isolated_num [OF that] assms(3) by simp_all
    then show ?thesis using isolated_trans [OF that] isolated_promisc_disable isolated_promisc_enable by simp
  qed
  show ?thesis
    unfolding ixgbe_set_rx_mode_def
    apply (rule isolated_let)+
    apply (rule iso.over_let(1), rule 1)
    apply (rule iso.over_let(2), erule iso.thread, erule isolated_uc [OF assms(1)])
    apply (rule isolated_let)
    apply (rule iso.over_let(2), erule iso.thread, erule isolated_mc)
    apply (rule isolated_let)
    apply (rule iso.over_let(1), erule 4)
    apply (rule iso.over_let(1), erule iso.thread, erule isolated_wrreg, rule f)
    apply (rule iso.over_let(1), erule 6)
    apply (erule 7)
    done
qed

section \<open>Reset of a VF\<close>

lemma isolated_toggle_queues: "sriov_inv a \<Longrightarrow> isolated vf a (vf_toggle_queues a vf)"
  unfolding vf_toggle_queues_def
proof (rule iso.over_list)
  fix i t assume t: "sriov_inv t"
  have f: "\<not> filter_reg (IXGBE_PVFTXDCTL k)" for k by (simp add: filter_reg_def)
  show "isolated vf t (let r = IXGBE_PVFTXDCTL (vf * q_per_pool t + i); v = rdreg t r
       in if v \<noteq> 0 then wrreg r ((v OR IXGBE_TXDCTL_ENABLE) AND NOT IXGBE_TXDCTL_ENABLE)
                          (wrreg r (v OR IXGBE_TXDCTL_ENABLE) t) else t)"
    using iso.thread [OF isolated_wrreg [OF t f] isolated_wrreg [OF _ f]] isolated_refl [OF t] by (simp add: Let_def)
qed

lemma isolated_vmolr: "sriov_inv a \<Longrightarrow> isolated vf a (ixgbe_set_vmolr v b a)"
  unfolding ixgbe_set_vmolr_def Let_def by (rule isolated_wrreg) (simp_all add: filter_reg_def)

lemma isolated_vmvir: "sriov_inv a \<Longrightarrow> isolated vf a (ixgbe_set_vmvir a x q v)" "sriov_inv a \<Longrightarrow> isolated vf a (ixgbe_clear_vmvir a v)"
  unfolding ixgbe_set_vmvir_def ixgbe_clear_vmvir_def by (rule isolated_wrreg; simp add: filter_reg_def)+


lemma isolated_set_vf_rx_tx: "sriov_inv a \<Longrightarrow> isolated vf a (ixgbe_set_vf_rx_tx a vf)"
proof -
  assume a: "sriov_inv a"
  have f: "\<not> filter_reg (IXGBE_VFTE i)" "\<not> filter_reg (IXGBE_VFRE i)" for i by (simp_all add: filter_reg_def)
  have 1: "isolated vf a (if c then wrreg (IXGBE_VFTE i) x a else a)" for c i x
    using isolated_wrreg [OF a f(1)] isolated_refl [OF a] by simp
  have 2: "isolated vf a (if c then wrreg (IXGBE_VFRE i) x b else b)" if "isolated vf a b" for b c i x
    using that iso.thread [OF that isolated_wrreg [OF _ f(2)]] by simp
  show ?thesis unfolding ixgbe_set_vf_rx_tx_def Let_def by (intro 2 1)
qed

lemma isolated_write_qde: "sriov_inv a \<Longrightarrow> isolated vf a (ixgbe_write_qde a vf q)"
  unfolding ixgbe_write_qde_def by (erule iso.over_list, erule isolated_wrreg) (simp add: filter_reg_def)

lemma isolated_thread_vf:
  "isolated vf a b \<Longrightarrow> vf < num_vfs a \<Longrightarrow> (sriov_inv b \<Longrightarrow> vf < num_vfs b \<Longrightarrow> isolated vf b c) \<Longrightarrow> isolated vf a c"
  using isolated_trans isolated_inv isolated_num by metis

lemma isolated_reset_filters:
  assumes "dev_uc_sync_calls uc" "sriov_inv a" "vf < num_vfs a"
  shows "isolated vf a (vf_reset_filters uc a vf)"
proof -
  have b: "vf < 64" using assms(2,3) by (auto simp: sriov_inv_def)
  have m: "isolated vf a (if c then ixgbe_clear_vmvir b vf else if d then ixgbe_set_vmvir b x q vf else ixgbe_set_vmvir b x r vf)"
    if "isolated vf a b" for b c d x q r
    using iso.thread [OF that isolated_vmvir(1)] iso.thread [OF that isolated_vmvir(2)] by simp
  have t: "isolated vf a (if c then vf_toggle_queues b vf else b)" if "isolated vf a b" for b c
    using that iso.thread [OF that isolated_toggle_queues] by simp
  show ?thesis
    unfolding vf_reset_filters_def Let_def [of "vfinfo a ! vf"] Let_def [of "num_tc (netdev a)"]
    apply (rule iso.over_let(1), rule isolated_clear_vf_vlans [OF assms(2,3)])
    apply (rule iso.over_let(1), erule isolated_thread_vf, rule assms(3), erule (1) isolated_vf_vlan)
    apply (rule iso.over_let(1), erule iso.thread, erule isolated_vmolr)
    apply (rule iso.over_let(1), erule m)
    apply (rule iso.over_let(1), erule isolated_thread_vf, rule assms, erule (1) isolated_set_vf, simp)
    apply (rule iso.over_let(1), erule isolated_thread_vf, rule assms(3), erule (1) isolated_rx_mode [OF assms(1)])
    apply (rule iso.over_let(1), erule iso.thread, erule isolated_del, rule b)
    apply (rule iso.over_let(1), erule iso.thread, erule isolated_macvlan, rule b, simp)
    apply (rule iso.over_let(1), erule isolated_thread_vf, rule assms, erule (1) isolated_set_vf, simp)
    apply (erule t)
    done
qed

lemma isolated_reset_enable:
  assumes "sriov_inv a" "vf < num_vfs a"
  shows "isolated vf a (vf_reset_enable a vf)"
proof -
  have b: "vf < 64" "length (vf_mac_addresses (vfinfo a ! vf)) = 6" using assms by (auto simp: sriov_inv_def)
  have f: "\<not> filter_reg (IXGBE_VMECM i)" "\<not> filter_reg (IXGBE_PVFTDWBAL i)" "\<not> filter_reg (IXGBE_PVFTDWBAH i)" for i
    by (simp_all add: filter_reg_def)
  have m: "isolated vf a (if c then snd (ixgbe_set_vf_mac a vf (vf_mac_addresses (vfinfo a ! vf))) else a)" for c
    using isolated_vf_mac [OF assms b(2)] isolated_refl [OF assms(1)] by simp
  show ?thesis
    unfolding vf_reset_enable_def Let_def [of "vf_mac_addresses _"]
    apply (rule iso.over_let(1), rule m)
    apply (rule iso.over_let(1), erule iso.thread, erule isolated_write_qde)
    apply (rule iso.over_let(1), erule iso.thread, erule isolated_set_vf_rx_tx)
    apply (rule iso.over_let(1), erule isolated_thread_vf, rule assms, erule (1) isolated_set_vf, simp)
    apply (rule iso.over_let(1), erule iso.thread, erule isolated_wrreg, rule f)
    apply (erule iso.thread, erule iso.over_list)
    apply (rule iso.thread, erule isolated_wrreg, rule f, erule isolated_wrreg, rule f)
    done
qed

section \<open>Messages\<close>

text \<open>Triples over the adapter: the mailbox is arbitrary before and after.\<close>

definition sr_triple :: "(ixgbe_adapter \<Rightarrow> bool) \<Rightarrow> ('s, 'a) sriov_prog \<Rightarrow> ('a \<Rightarrow> ixgbe_adapter \<Rightarrow> bool) \<Rightarrow> bool" where
  "sr_triple P p Q \<longleftrightarrow> (\<forall>s. P (sr_adapter s) \<longrightarrow> Q (fst (run_state p s)) (sr_adapter (snd (run_state p s))))"

lemma sr_bind: "sr_triple P p Q \<Longrightarrow> (\<And>x. sr_triple (Q x) (f x) R) \<Longrightarrow> sr_triple P (State_Monad.bind p f) R"
  by (simp add: sr_triple_def State_Monad.bind_def split_beta)

lemma sr_ret: "(\<And>a. P a \<Longrightarrow> Q x a) \<Longrightarrow> sr_triple P (State_Monad.return x) Q"
  by (simp add: sr_triple_def State_Monad.return_def)

lemma sr_if: "(c \<Longrightarrow> sr_triple P p Q) \<Longrightarrow> (\<not> c \<Longrightarrow> sr_triple P q Q) \<Longrightarrow> sr_triple P (if c then p else q) Q"
  by simp

lemma sr_mbx: "sr_triple P (on_mbx p) (\<lambda>_. P)"
  by (simp add: sr_triple_def on_mbx_def split_beta)

lemma sr_get: "sr_triple P (adapter_get f) (\<lambda>_. P)"
  by (simp add: sr_triple_def adapter_get_def)

lemma sr_get_eq: "sr_triple P (adapter_get f) (\<lambda>x a. P a \<and> x = f a)"
  by (simp add: sr_triple_def adapter_get_def)

lemma sr_adapter: "(\<And>a. P a \<Longrightarrow> Q () (f a)) \<Longrightarrow> sr_triple P (on_adapter f) Q"
  by (simp add: sr_triple_def on_adapter_def)

lemma sr_weaken: "sr_triple P p (\<lambda>_. Q) \<Longrightarrow> (\<And>a. P' a \<Longrightarrow> P a) \<Longrightarrow> (\<And>x a. Q a \<Longrightarrow> Q' x a) \<Longrightarrow> sr_triple P' p Q'"
  by (simp add: sr_triple_def)

lemma sr_each: "(\<And>i. i \<in> set xs \<Longrightarrow> sr_triple P (f i) (\<lambda>_. P)) \<Longrightarrow> sr_triple P (each xs f) (\<lambda>_. P)"
proof (induction xs)
  case Nil
  then show ?case by (simp add: sr_ret)
next
  case (Cons x xs)
  then show ?case by (simp add: sr_bind [where Q = "\<lambda>_. P"])
qed

lemma keeps_thread:
  assumes "keeps_others vf a b" "sriov_inv b \<Longrightarrow> vf < num_vfs b \<Longrightarrow> isolated vf b c"
  shows "keeps_others vf a c"
  using assms isolated_trans isolated_inv isolated_num by metis

lemma sr_reset_event:
  "dev_uc_sync_calls uc \<Longrightarrow> sr_triple (keeps_others vf a) (ixgbe_vf_reset_event d uc vf) (\<lambda>_. keeps_others vf a)"
  unfolding ixgbe_vf_reset_event_def
  apply (rule sr_bind, rule sr_adapter, erule keeps_thread, erule (2) isolated_reset_filters)
  apply (rule sr_bind, rule sr_get, rule sr_if, rule sr_each, rule sr_mbx, rule sr_ret, assumption)
  done

lemma sr_reset_msg:
  "dev_uc_sync_calls uc \<Longrightarrow> sr_triple (keeps_others vf a) (ixgbe_vf_reset_msg d uc vf) (\<lambda>_. keeps_others vf a)"
  unfolding ixgbe_vf_reset_msg_def
  apply (rule sr_bind, erule sr_reset_event)
  apply (rule sr_bind, rule sr_adapter, erule keeps_thread, erule (1) isolated_reset_enable)
  apply (rule sr_bind, rule sr_get, rule sr_bind, rule sr_mbx, rule sr_ret, assumption)
  done

lemma sr_rcv_msg:
  assumes "dev_uc_sync_calls uc"
  shows "sr_triple (keeps_others vf a) (ixgbe_rcv_msg_from_vf d uc vf) (\<lambda>_. keeps_others vf a)"
proof -
  have r: "sr_triple (\<lambda>b. keeps_others vf a b \<and> r = vf_request b msg vf)
     (case r of None \<Rightarrow> State_Monad.return (- EINVAL) | Some (retval, msg, a) \<Rightarrow> State_Monad.bind (on_adapter (\<lambda>_. a)) (\<lambda>_. p retval msg))
     (\<lambda>_. keeps_others vf a)" if p: "\<And>x y. sr_triple (keeps_others vf a) (p x y) (\<lambda>_. keeps_others vf a)" for r msg p
  proof (cases r)
    case None
    then show ?thesis by (auto intro: sr_ret)
  next
    case (Some t)
    obtain rv m c where t: "t = (rv, m, c)" by (cases t)
    have "sr_triple (\<lambda>b. keeps_others vf a b \<and> r = vf_request b msg vf) (on_adapter (\<lambda>_. c)) (\<lambda>_. keeps_others vf a)"
    proof (rule sr_adapter)
      fix b assume b: "keeps_others vf a b \<and> r = vf_request b msg vf"
      then have "vf_request b msg vf = Some (rv, m, c)" using Some t by simp
      with b show "keeps_others vf a c" using keeps_thread isolated_request by (metis (no_types, lifting))
    qed
    from sr_bind [OF this p] show ?thesis by (simp add: Some t)
  qed
  show ?thesis
    unfolding ixgbe_rcv_msg_from_vf_def
    apply (rule sr_bind, rule sr_mbx)
    subgoal for x
      apply (cases x, simp only: prod.case)
      apply (rule sr_bind, rule sr_get)
      apply (rule sr_if, rule sr_ret, assumption)
      apply (rule sr_if, rule sr_ret, assumption)
      apply (rule sr_if, rule sr_reset_msg [OF assms])
      apply (rule sr_if, rule sr_bind, rule sr_mbx, rule sr_ret, assumption)
      apply (rule sr_bind, rule sr_get_eq, rule r)
      apply (simp only: Let_def, rule sr_bind, rule sr_mbx, rule sr_ret, assumption)
      done
    done
qed


section \<open>Slots shared with the PF\<close>

lemma wrreg_fields: "vmdq_offset (wrreg r v a) = vmdq_offset a" "vlan_promisc (wrreg r v a) = vlan_promisc a"
  "hw_removed (hw (wrreg r v a)) = hw_removed (hw a)"
  by (simp_all add: wrreg_def)

definition same_slot :: "nat \<Rightarrow> ixgbe_adapter \<Rightarrow> ixgbe_adapter \<Rightarrow> bool" where
  "same_slot i a b \<longleftrightarrow> vmdq_offset b = vmdq_offset a \<and> vlan_promisc b = vlan_promisc a \<and> hw_removed (hw b) = hw_removed (hw a) \<and>
     rdreg b (IXGBE_VLVF i) = rdreg a (IXGBE_VLVF i) \<and>
     (\<forall>k < 2. rdreg b (IXGBE_VLVFB (i * 2 + k)) = rdreg a (IXGBE_VLVFB (i * 2 + k)))"

lemma same_slot_trans: "same_slot i a b \<Longrightarrow> same_slot i b c \<Longrightarrow> same_slot i a c"
  by (simp add: same_slot_def)

lemma same_slot_wrreg:
  assumes "same_slot i a b" "r \<noteq> IXGBE_VLVF i" "\<And>k. k < 2 \<Longrightarrow> r \<noteq> IXGBE_VLVFB (i * 2 + k)"
  shows "same_slot i a (wrreg r v b)"
proof -
  have "rdreg (wrreg r v b) (IXGBE_VLVF i) = rdreg b (IXGBE_VLVF i)"
    "k < 2 \<Longrightarrow> rdreg (wrreg r v b) (IXGBE_VLVFB (i * 2 + k)) = rdreg b (IXGBE_VLVFB (i * 2 + k))" for k
    using assms(2,3) by (auto simp: wrreg_def intro!: read_write_other)
  then show ?thesis using assms(1) wrreg_fields by (simp add: same_slot_def)
qed

lemma same_slot_clear:
  assumes "j \<noteq> i" "vf < 64"
  shows "same_slot i a (clear_vf_vlan_slot vf j a)"
proof -
  define q where "q = vf div 32"
  have q: "q < 2" using assms(2) by (simp add: q_def div_less_iff_less_mult)
  have n: "j * 2 + q \<noteq> i * 2 + k" if "k < 2" for k using q that assms(1) by linarith
  have w: "same_slot i a (wrreg (IXGBE_VLVFB (j * 2 + q)) v b)" if "same_slot i a b" for v b
    using n by (intro same_slot_wrreg [OF that]) auto
  have l: "same_slot i a (wrreg (IXGBE_VLVF j) v b)" if "same_slot i a b" for v b
    using assms(1) by (intro same_slot_wrreg [OF that]) auto
  have t: "same_slot i a (wrreg (IXGBE_VFTA k) v b)" if "same_slot i a b" for v b k
    by (intro same_slot_wrreg [OF that]) auto
  have a: "same_slot i a a" by (simp add: same_slot_def)
  show ?thesis
    unfolding clear_vf_vlan_slot_def Let_def q_def [symmetric]
    by (simp only: split: if_split) (intro conjI impI w l t a)
qed

lemma same_slot_clears:
  assumes "i \<notin> set xs" "vf < 64"
  shows "same_slot i a (fold (clear_vf_vlan_slot vf) xs a)"
  using assms(1)
proof (induction xs arbitrary: a)
  case Nil
  then show ?case by (simp add: same_slot_def)
next
  case (Cons j xs)
  then show ?case using same_slot_clear [OF _ assms(2), of j i a] same_slot_trans by (metis fold_Cons list.set_intros comp_apply)
qed

lemma clear_slot_keeps_pf:
  assumes "vf < 64" "vmdq_offset a < 64" "vf div 32 \<noteq> vmdq_offset a div 32" "\<not> hw_removed (hw a)"
    and "rdreg a (IXGBE_VLVFB (i * 2 + vf div 32)) = BIT (vf mod 32)"
    and "rdreg a (IXGBE_VLVFB (i * 2 + vmdq_offset a div 32)) = BIT (vmdq_offset a mod 32)"
  shows "rdreg (clear_vf_vlan_slot vf i a) (IXGBE_VLVF i) = 0 \<and>
    rdreg (clear_vf_vlan_slot vf i a) (IXGBE_VLVFB (i * 2 + vmdq_offset a div 32)) = BIT (vmdq_offset a mod 32)"
proof -
  define q p where "q = vf div 32" and "p = vmdq_offset a div 32"
  have qp: "q < 2" "p < 2" using assms(1,2) by (simp_all add: q_def p_def div_less_iff_less_mult)
  have p: "p = 1 - q" using qp assms(3) by (simp add: q_def [symmetric] p_def [symmetric])
  have o: "other_word (i * 2 + q) = i * 2 + p" unfolding p by (rule other_half [OF qp(1)])
  have m: "(i * 2 + q) mod 2 = q" "1 - p = q" using qp p by simp_all
  have ne: "p \<noteq> q" using assms(3) by (simp add: q_def p_def)
  have b: "BIT n AND BIT n \<noteq> (0 :: u32)" "BIT n XOR BIT n = (0 :: u32)" "BIT n AND NOT (BIT n) = (0 :: u32)" if "n < 32" for n
    using that by (auto simp: BIT_def)
  have c: "(if 0 = q then (0 :: u32) else BIT n) \<noteq> 0 \<or> (if 1 = q then (0 :: u32) else BIT n) \<noteq> 0" if "n < 32" for n
    using qp(1) b(1) [OF that] by (cases q) auto
  have "clear_vf_vlan_slot vf i a = (let a = wrreg (IXGBE_VLVF i) 0 a
      in wrreg (IXGBE_VLVFB (i * 2 + q)) (if \<not> vlan_promisc a then 0 else 0) a)"
    using b [of "vf mod 32"] b [of "vmdq_offset a mod 32"] ne c [of "vmdq_offset a mod 32"] m assms(5,6)
    unfolding clear_vf_vlan_slot_def Let_def q_def [symmetric] p_def [symmetric] by (simp add: o p_def [symmetric] q_def [symmetric])
  then show ?thesis
    using assms(4,6) ne by (simp add: wrreg_def p_def [symmetric])
qed

text \<open>
  C31. Leaving all VLANs when a VF is reset: a slot whose last VF pool goes away is released, but if the
  PF is in it and the pool of the PF is in the other half of the pool bits, the bit of the PF stays in the
  released slot.  The slot breaks the invariant of the VLAN tables, and the next VLAN that gets it includes the PF.
\<close>

theorem clear_vf_vlans_stale_pf:
  assumes "vf < 64" "vmdq_offset a < 64" "vf div 32 \<noteq> vmdq_offset a div 32" "\<not> hw_removed (hw a)" "i < 64"
    and "rdreg a (IXGBE_VLVFB (i * 2 + vf div 32)) = BIT (vf mod 32)"
    and "rdreg a (IXGBE_VLVFB (i * 2 + vmdq_offset a div 32)) = BIT (vmdq_offset a mod 32)"
  shows "rdreg (ixgbe_clear_vf_vlans a vf) (IXGBE_VLVF i) = 0 \<and>
    slot_pool (hw (ixgbe_clear_vf_vlans a vf)) i (vmdq_offset a) \<and> \<not> vlan_inv (hw (ixgbe_clear_vf_vlans a vf))"
proof -
  have l: "rev [0..<64] = rev [Suc i..<64] @ i # rev [0..<i]"
    using assms(5) upt_add_eq_append [of 0 "Suc i" "63 - i"] by simp
  define a1 where "a1 = fold (clear_vf_vlan_slot vf) (rev [Suc i..<64]) a"
  define a2 where "a2 = clear_vf_vlan_slot vf i a1"
  have e: "ixgbe_clear_vf_vlans a vf = fold (clear_vf_vlan_slot vf) (rev [0..<i]) a2"
    unfolding ixgbe_clear_vf_vlans_def l a2_def a1_def by simp
  have p: "vmdq_offset a div 32 < 2" "vf div 32 < 2" using assms(1,2) by (simp_all add: div_less_iff_less_mult)
  have 1: "same_slot i a a1" unfolding a1_def by (rule same_slot_clears [OF _ assms(1)]) simp
  have 2: "rdreg a2 (IXGBE_VLVF i) = 0 \<and> rdreg a2 (IXGBE_VLVFB (i * 2 + vmdq_offset a div 32)) = BIT (vmdq_offset a mod 32)"
    using clear_slot_keeps_pf [of vf a1 i] 1 assms p unfolding a2_def same_slot_def by simp
  have 3: "same_slot i a2 (ixgbe_clear_vf_vlans a vf)" unfolding e by (rule same_slot_clears [OF _ assms(1)]) simp
  have "rdreg (ixgbe_clear_vf_vlans a vf) (IXGBE_VLVF i) = 0"
    "slot_pool (hw (ixgbe_clear_vf_vlans a vf)) i (vmdq_offset a)"
    using 2 3 p(1) by (simp_all add: same_slot_def slot_pool_def bit_BIT)
  then show ?thesis using assms(2,5) by (auto simp: vlan_inv_on_def)
qed

text \<open>VF 0 and the PF, with pool 32, in VLAN 7, which has slot 1.\<close>

definition adapter_shared_vlan :: ixgbe_adapter where
  "adapter_shared_vlan = adapter_reset\<lparr>vmdq_offset := 32, hw := hw_reset\<lparr>regs := (\<lambda>r. if r = IXGBE_VT_CTL then 1
     else if r = IXGBE_VLVF 1 then 7 OR IXGBE_VLVF_VIEN else if r = IXGBE_VLVFB 2 \<or> r = IXGBE_VLVFB 3 then BIT 0
     else if r = IXGBE_VFTA 0 then BIT 7 else 0)\<rparr>\<rparr>"

theorem clear_vf_vlans_stale_pf_witness:
  "rdreg (ixgbe_clear_vf_vlans adapter_shared_vlan 0) (IXGBE_VLVF 1) = 0 \<and>
   slot_pool (hw (ixgbe_clear_vf_vlans adapter_shared_vlan 0)) 1 32"
proof -
  have "vmdq_offset adapter_shared_vlan = 32" "\<not> hw_removed (hw adapter_shared_vlan)"
    "rdreg adapter_shared_vlan (IXGBE_VLVFB 2) = BIT 0" "rdreg adapter_shared_vlan (IXGBE_VLVFB 3) = BIT 0"
    by (simp_all add: adapter_shared_vlan_def hw_reset_def IXGBE_READ_REG_def IXGBE_REMOVED_def)
  then show ?thesis using clear_vf_vlans_stale_pf [of 0 adapter_shared_vlan 1] by simp
qed


section \<open>The message loop\<close>

definition sriov_inv_n :: "nat \<Rightarrow> ixgbe_adapter \<Rightarrow> bool" where
  "sriov_inv_n n a \<longleftrightarrow> sriov_inv a \<and> num_vfs a = n"

lemma sriov_inv_n_isolated: "sriov_inv_n n a \<Longrightarrow> (sriov_inv a \<Longrightarrow> isolated vf a b) \<Longrightarrow> sriov_inv_n n b"
  by (auto simp: sriov_inv_n_def isolated_def)

lemma sr_inv:
  fixes p :: "('s, 'a) sriov_prog"
  assumes "\<And>a. sr_triple (keeps_others vf a) p (\<lambda>_. keeps_others vf a)" "vf < n"
  shows "sr_triple (sriov_inv_n n) p (\<lambda>_. sriov_inv_n n)"
  unfolding sr_triple_def
proof (intro allI impI)
  fix s :: "'s sriov" assume s: "sriov_inv_n n (sr_adapter s)"
  then have "keeps_others vf (sr_adapter s) (sr_adapter s)" using assms(2) by (simp add: sriov_inv_n_def isolated_refl)
  then have "isolated vf (sr_adapter s) (sr_adapter (snd (run_state p s)))"
    using assms(1) [of "sr_adapter s"] unfolding sr_triple_def by blast
  then show "sriov_inv_n n (sr_adapter (snd (run_state p s)))" using s by (auto simp: sriov_inv_n_def isolated_def)
qed

lemma sr_rcv_ack: "sr_triple P (ixgbe_rcv_ack_from_vf d vf) (\<lambda>_. P)"
  unfolding ixgbe_rcv_ack_from_vf_def
  by (rule sr_bind, rule sr_get, rule sr_if, rule sr_bind, rule sr_mbx, rule sr_ret, assumption, rule sr_ret, assumption)

lemma sr_mdd_scan: "sr_triple P (mdd_scan d sh xs bm) (\<lambda>_. P)"
proof (induction xs arbitrary: bm)
  case Nil
  then show ?case by (simp add: sr_ret)
next
  case (Cons x xs)
  show ?case unfolding mdd_scan.simps by (rule sr_bind, rule sr_mbx, rule sr_bind, rule sr_mbx, rule Cons.IH)
qed

lemma sr_mdd_event: "sr_triple P (ixgbe_mdd_event_X550 d bm) (\<lambda>_. P)"
  unfolding ixgbe_mdd_event_X550_def by (rule sr_bind, rule sr_get, rule sr_mdd_scan)

lemma sr_restore_mdd: "sr_triple P (ixgbe_restore_mdd_vf_X550 d vf) (\<lambda>_. P)"
  unfolding ixgbe_restore_mdd_vf_X550_def Let_def split_beta
  by (rule sr_bind, rule sr_get, rule sr_bind, rule sr_mbx, rule sr_mbx)

text \<open>The loop of the malicious driver detection over the pools that were reported.\<close>

lemma sr_mdd_restart:
  "(\<And>a. P a \<Longrightarrow> Q (set_vf vf (\<lambda>v. v\<lparr>clear_to_send := False\<rparr>) a)) \<Longrightarrow> sr_triple P (mdd_restart d vf) (\<lambda>_. Q)"
  unfolding mdd_restart_def
  by (rule sr_bind, rule sr_mbx, rule sr_bind, rule sr_mbx, rule sr_bind, rule sr_restore_mdd, rule sr_bind, rule sr_adapter,
      assumption, rule sr_bind, rule sr_mbx, rule sr_ret)

lemma check_mdd_run:
  assumes "mac_type_val ixgbe_mac_X550 \<le> mac_type_val (mac_type (mac (hw (sr_adapter s))))"
    and "run_state (ixgbe_mdd_event_X550 d [0, 0]) s = (bm, s1)"
  shows "sr_adapter s1 = sr_adapter s"
    "snd (run_state (ixgbe_check_mdd_event d) s) = snd (run_state (each (filter (bitmap_has bm) [0..<64]) (mdd_restart d)) s1)"
proof -
  show "sr_adapter s1 = sr_adapter s"
    using sr_mdd_event [of "\<lambda>a. a = sr_adapter s" d "[0, 0]"] assms(2) by (auto simp: sr_triple_def)
  have f: "filter (\<lambda>vf. bm ! (vf div 32) AND BIT (vf mod 32) \<noteq> 0) [0..<64] = filter (bitmap_has bm) [0..<64]"
    by (rule filter_cong) (simp_all add: bitmap_has_def and_BIT_eq_0)
  show "snd (run_state (ixgbe_check_mdd_event d) s) = snd (run_state (each (filter (bitmap_has bm) [0..<64]) (mdd_restart d)) s1)"
    using assms unfolding ixgbe_check_mdd_event_def Let_def
    by (simp add: State_Monad.bind_def State_Monad.return_def adapter_get_def split_beta f)
qed

lemma sr_mdd_restart_inv: "vf < n \<Longrightarrow> sr_triple (sriov_inv_n n) (mdd_restart d vf) (\<lambda>_. sriov_inv_n n)"
  by (rule sr_mdd_restart, rule sriov_inv_n_isolated, assumption, rule isolated_set_vf) (simp_all add: sriov_inv_n_def)

lemma check_mdd_inv:
  assumes "sriov_inv_n n (sr_adapter s)" "mdd_enabled (sr_adapter s)" "mdd_within d s"
  shows "sriov_inv_n n (sr_adapter (snd (run_state (ixgbe_check_mdd_event d) s)))"
proof (cases "mac_type_val ixgbe_mac_X550 \<le> mac_type_val (mac_type (mac (hw (sr_adapter s))))")
  case True
  obtain bm s1 where m: "run_state (ixgbe_mdd_event_X550 d [0, 0]) s = (bm, s1)" by (metis surj_pair)
  have "vf < n" if "vf \<in> set (filter (bitmap_has bm) [0..<64])" for vf
    using that assms m True by (auto simp: mdd_within_def sriov_inv_n_def)
  then have "sr_triple (sriov_inv_n n) (each (filter (bitmap_has bm) [0..<64]) (mdd_restart d)) (\<lambda>_. sriov_inv_n n)"
    by (intro sr_each sr_mdd_restart_inv)
  then show ?thesis using check_mdd_run [OF True m] assms(1) by (simp add: sr_triple_def)
next
  case False
  then show ?thesis using assms(1) unfolding ixgbe_check_mdd_event_def Let_def
    by (simp add: State_Monad.bind_def State_Monad.return_def adapter_get_def)
qed

text \<open>
  A pool without a VF that is reported, such as one of the PF's own, makes the PF store past the end of
  \<open>vfinfo\<close>.
\<close>

theorem check_mdd_stray_write:
  assumes "mac_type_val ixgbe_mac_X550 \<le> mac_type_val (mac_type (mac (hw (sr_adapter s))))"
    and "run_state (ixgbe_mdd_event_X550 d [0, 0]) s = (bm, s1)" "bitmap_has bm p" "p < 64" "length (vfinfo (sr_adapter s)) \<le> p"
  shows "stray_write (sr_adapter (snd (run_state (ixgbe_check_mdd_event d) s)))"
proof -
  let ?Q = "\<lambda>xs a. length (vfinfo a) \<le> p \<and> (stray_write a \<or> p \<in> set xs)"
  have "sr_triple (?Q xs) (each xs (mdd_restart d)) (\<lambda>_. stray_write)" for xs
  proof (induction xs)
    case Nil
    then show ?case by (auto intro!: sr_ret)
  next
    case (Cons x xs)
    have "sr_triple (?Q (x # xs)) (mdd_restart d x) (\<lambda>_. ?Q xs)" by (rule sr_mdd_restart) (auto simp: set_vf_def)
    then show ?case using sr_bind [OF _ Cons.IH] by simp
  qed
  from this [of "filter (bitmap_has bm) [0..<64]"] show ?thesis
    using check_mdd_run [OF assms(1,2)] assms(3-5) by (simp add: sr_triple_def)
qed

lemma sr_msg_task_vf:
  assumes "dev_uc_sync_calls uc" "vf < n"
  shows "sr_triple (sriov_inv_n n) (msg_task_vf d uc vf) (\<lambda>_. sriov_inv_n n)"
  unfolding msg_task_vf_def
  apply (rule sr_bind, rule sr_mbx, rule sr_bind, rule sr_if, rule sr_inv [OF sr_reset_event [OF assms(1)] assms(2)])
  apply (rule sr_ret, assumption)
  apply (rule sr_bind, rule sr_mbx, rule sr_bind, rule sr_if, rule sr_bind, rule sr_inv [OF sr_rcv_msg [OF assms(1)] assms(2)])
  apply (rule sr_ret, assumption, rule sr_ret, assumption)
  apply (rule sr_bind, rule sr_mbx, rule sr_if, rule sr_rcv_ack, rule sr_ret, assumption)
  done

lemma msg_task_inv:
  assumes "dev_uc_sync_calls uc" "sriov_inv_n n (sr_adapter s)" "mdd_within d s"
  shows "sriov_inv_n n (sr_adapter (snd (run_state (ixgbe_msg_task d uc) s)))"
proof -
  define t where "t = (if mdd_enabled (sr_adapter s) then snd (run_state (ixgbe_check_mdd_event d) s) else s)"
  have "sriov_inv_n n (sr_adapter t)" using check_mdd_inv [OF assms(2) _ assms(3)] assms(2) by (simp add: t_def)
  moreover have "sr_triple (sriov_inv_n n) (each [0..<n] (msg_task_vf d uc)) (\<lambda>_. sriov_inv_n n)"
    by (rule sr_each, rule sr_msg_task_vf [OF assms(1)]) simp
  ultimately have "sriov_inv_n n (sr_adapter (snd (run_state (each [0..<n] (msg_task_vf d uc)) t)))" by (simp add: sr_triple_def)
  moreover have "snd (run_state (ixgbe_msg_task d uc) s) \<in> {s, snd (run_state (each [0..<n] (msg_task_vf d uc)) t)}"
    using assms(2) unfolding ixgbe_msg_task_def t_def sriov_inv_n_def
    by (simp add: State_Monad.bind_def State_Monad.return_def adapter_get_def split_beta)
  ultimately show ?thesis using assms(2) by auto
qed

section \<open>Properties\<close>

text \<open>
  C1. VFs are isolated: whatever message a VF sends, a reset included, the PF keeps for every
  other VF its data, its MAC filters and its VLANs, and the tables keep their invariant.
\<close>

theorem vf_message_isolated:
  assumes "sriov_inv (sr_adapter s)" "dev_uc_sync_calls uc" "vf < num_vfs (sr_adapter s)"
    and "run_state (ixgbe_rcv_msg_from_vf d uc vf) s = (r, s')" "w < num_vfs (sr_adapter s)" "w \<noteq> vf"
  shows "vfinfo (sr_adapter s') ! w = vfinfo (sr_adapter s) ! w \<and>
    filter_mset (\<lambda>f. snd f = w) (mac_filters (sr_adapter s')) = filter_mset (\<lambda>f. snd f = w) (mac_filters (sr_adapter s)) \<and>
    {x. x \<le> 4095 \<and> vlan_pool (hw (sr_adapter s')) x w} = {x. x \<le> 4095 \<and> vlan_pool (hw (sr_adapter s)) x w} \<and>
    sriov_inv (sr_adapter s')"
proof -
  have "sr_triple (keeps_others vf (sr_adapter s)) (ixgbe_rcv_msg_from_vf d uc vf) (\<lambda>_. keeps_others vf (sr_adapter s))"
    by (rule sr_rcv_msg [OF assms(2)])
  then have "isolated vf (sr_adapter s) (sr_adapter s')"
    unfolding sr_triple_def using assms(1,3,4) isolated_refl by (metis snd_conv)
  then show ?thesis using assms(5,6) by (simp add: isolated_def vf_share_def)
qed

definition adapter_vfs :: ixgbe_adapter where
  "adapter_vfs = adapter_reset\<lparr>hw := hw_vt, active_vlans := (\<lambda>x. x = 0)\<rparr>"

lemma adapter_vfs_inv: "sriov_inv adapter_vfs"
proof -
  have "mac_inv adapter_vfs"
    by (auto simp: mac_inv_def adapter_vfs_def adapter_reset_def in_use_def modified_def Let_def rar_valid_def rar_pool_def hw_reset_def)
  moreover have "vlan_inv_on (vf_pools adapter_vfs) hw_vt" by (auto simp: vlan_inv_on_def vlan_pool_def slot_pool_def)
  ultimately show ?thesis
    using hw_vt_ok(3) by (simp add: sriov_inv_def vlvf_wf_def adapter_vfs_def adapter_reset_def vf_reset_data_def nth_Cons' numeral_2_eq_2)
qed

lemma no_uc_calls: "dev_uc_sync_calls (\<lambda>a. (0, a))"
  by (simp add: dev_uc_sync_calls_def)

text \<open>A reset message of VF 0.\<close>

definition sriov_vfs :: "u32 \<Rightarrow> (reg \<Rightarrow> u32) sriov" where
  "sriov_vfs x = \<lparr>sr_adapter = adapter_vfs, sr_mbx = mbx0 MbxPf ((\<lambda>_. 0)(IXGBE_PFMBMEM 0 0 := x))\<rparr>"

lemma sriov_vfs_inv: "sriov_inv (sr_adapter (sriov_vfs x))" "num_vfs (sr_adapter (sriov_vfs x)) = 2"
  "mac_filters (sr_adapter (sriov_vfs x)) = {#}" "vfinfo (sr_adapter (sriov_vfs x)) ! 1 = vf_reset_data"
  using adapter_vfs_inv by (simp_all add: sriov_vfs_def adapter_vfs_def adapter_reset_def mac_filters_def in_use_def)

theorem vf_message_isolated_witness:
  "vfinfo (sr_adapter (snd (run_state (ixgbe_rcv_msg_from_vf pf_view (\<lambda>a. (0, a)) 0) (sriov_vfs IXGBE_VF_RESET)))) ! 1 = vf_reset_data \<and>
   filter_mset (\<lambda>f. snd f = 1) (mac_filters (sr_adapter (snd (run_state (ixgbe_rcv_msg_from_vf pf_view (\<lambda>a. (0, a)) 0) (sriov_vfs IXGBE_VF_RESET))))) = {#}"
  using vf_message_isolated [OF sriov_vfs_inv(1) no_uc_calls _ prod.collapse [symmetric], of 0 IXGBE_VF_RESET 1 pf_view] by (simp add: sriov_vfs_inv sriov_vfs_inv(4) [simplified])

text \<open>
  C3. The message loop of the PF keeps the invariant of the filter tables, whatever the VFs sent and
  whatever the mailboxes report, as long as the malicious driver detection reports pools of VFs only: every
  address in the table is in its receive address register for its pool only, every VLAN of a VF has one slot
  and its filter bit, the number of VFs is that of their data, and no store went past the end of that data.
\<close>

theorem msg_task_invariant:
  assumes "sriov_inv (sr_adapter s)" "dev_uc_sync_calls uc" "mdd_within d s" "run_state (ixgbe_msg_task d uc) s = (r, s')"
  shows "sriov_inv (sr_adapter s') \<and> num_vfs (sr_adapter s') = num_vfs (sr_adapter s)"
  using msg_task_inv [OF assms(2) _ assms(3)] assms(1,4) by (simp add: sriov_inv_n_def)

text \<open>An X550 with detection on; the first queue of VF 0 is blocked, and VF 0 sent a reset message.\<close>

definition adapter_mdd :: ixgbe_adapter where
  "adapter_mdd = adapter_vfs\<lparr>mdd_enabled := True, hw := hw_vt\<lparr>mac := (mac hw_vt)\<lparr>mac_type := ixgbe_mac_X550\<rparr>\<rparr>\<rparr>"

definition sriov_mdd :: "(reg \<Rightarrow> u32) sriov" where
  "sriov_mdd = \<lparr>sr_adapter = adapter_mdd,
     sr_mbx = mbx0 MbxPf ((\<lambda>_. 0)(IXGBE_PFMBMEM 0 0 := IXGBE_VF_RESET, IXGBE_WQBR_TX 0 := 1))\<rparr>"

lemma adapter_mdd_inv: "sriov_inv adapter_mdd" "num_vfs adapter_mdd = 2"
proof -
  have "isolated 0 adapter_vfs adapter_mdd"
    by (rule isolated_frame [OF adapter_vfs_inv])
      (simp_all add: adapter_mdd_def adapter_vfs_def adapter_reset_def IXGBE_READ_REG_def IXGBE_REMOVED_def vf_reset_data_def)
  then show "sriov_inv adapter_mdd" by (rule isolated_inv)
  show "num_vfs adapter_mdd = 2" by (simp add: adapter_mdd_def adapter_vfs_def adapter_reset_def)
qed

lemma sriov_mdd_within: "mdd_within pf_view sriov_mdd"
proof -
  obtain bm s' where r: "run_state (ixgbe_mdd_event_X550 pf_view [0, 0]) sriov_mdd = (bm, s')" by (metis surj_pair)
  have "p < 2" if p: "p < 64" "bitmap_has bm p" for p
  proof -
    obtain q where q: "q < 128" "q div 2 ^ mdd_shift (rdreg (sr_adapter sriov_mdd) IXGBE_MRQC) = p"
      "bit (mbx_dev_state (sr_mbx sriov_mdd) (IXGBE_WQBR_TX (q div 32))) (q mod 32) \<or>
       bit (mbx_dev_state (sr_mbx sriov_mdd) (IXGBE_WQBR_RX (q div 32))) (q mod 32)"
      using mdd_event_pools [where tx = "\<lambda>s i. s (IXGBE_WQBR_TX i)" and rx = "\<lambda>s i. s (IXGBE_WQBR_RX i)", OF _ _ r p(1) refl refl] p(2)
      by (auto simp: pf_view_def)
    then have "bit (if q div 32 = 0 then 1 else 0 :: u32) (q mod 32)" by (simp add: sriov_mdd_def split: if_splits)
    then have "q div 32 = 0" "q mod 32 = 0" by (auto simp: bit_1_iff split: if_splits)
    then have "q = 0" using div_mult_mod_eq [of q 32] by simp
    with q(2) show ?thesis by simp
  qed
  then show ?thesis using r adapter_mdd_inv(2) by (simp add: mdd_within_def sriov_mdd_def)
qed

theorem msg_task_invariant_witness:
  "sriov_inv (sr_adapter (snd (run_state (ixgbe_msg_task pf_view (\<lambda>a. (0, a))) sriov_mdd)))"
  using msg_task_invariant [OF _ no_uc_calls sriov_mdd_within prod.collapse [symmetric]] adapter_mdd_inv(1)
  by (simp add: sriov_mdd_def)

end
