(* ===== verification/Ixgbe_VfAdmin.thy ===== *)
theory Ixgbe_VfAdmin
  imports Ixgbe_Isolation
begin

text \<open>
  The settings of the administrator bind the VF they are made for: no request changes them, and a VF
  with a fixed VLAN, a fixed address or without trust does not get what the setting excludes.
\<close>

unbundle bit_operations_syntax


section \<open>Settings of the administrator\<close>

definition admin :: "vf_data_storage \<Rightarrow> bool \<times> bool \<times> u16 \<times> u16 \<times> u16 \<times> bool \<times> int \<times> bool \<times> bool" where
  "admin v = (pf_set_mac v, trusted v, pf_vlan v, pf_qos v, tx_rate v, link_enable v, link_state v, spoofchk_enabled v, rss_query_enabled v)"

text \<open>The bits of VMOLR that let a VF receive the traffic of others: UPE, VPE and MPE.\<close>

definition promisc_bits :: "ixgbe_adapter \<Rightarrow> nat \<Rightarrow> nat set" where
  "promisc_bits a vf = {n \<in> {22, 23, 28}. bit (rdreg a (IXGBE_VMOLR vf)) n}"

text \<open>
  What a step for VF \<open>vf\<close> leaves alone: the settings of the administrator always, the VLAN
  registers if \<open>V\<close>, the MAC filters up to address \<open>m\<close> if \<open>F\<close>, and the promiscuous bits if \<open>T\<close>.
\<close>

definition kept :: "bool \<Rightarrow> bool \<Rightarrow> bool \<Rightarrow> u8 list \<Rightarrow> nat \<Rightarrow> ixgbe_adapter \<Rightarrow> ixgbe_adapter \<Rightarrow> bool" where
  "kept V F T m vf a b \<longleftrightarrow> map admin (vfinfo b) = map admin (vfinfo a) \<and>
     (V \<longrightarrow> (\<forall>r. vlan_reg r \<longrightarrow> rdreg b r = rdreg a r)) \<and>
     (F \<longrightarrow> set_mset (mac_filters b) \<subseteq> insert (m, vf) (set_mset (mac_filters a)) \<and>
        vf_mac_addresses (vfinfo b ! vf) \<in> {vf_mac_addresses (vfinfo a ! vf), m, replicate 6 0}) \<and>
     (T \<longrightarrow> promisc_bits b vf \<subseteq> promisc_bits a vf)"

lemma kept_refl: "kept V F T m vf a a"
  by (simp add: kept_def subset_insertI)

lemma kept_trans: "kept V F T m vf a b \<Longrightarrow> kept V F T m vf b c \<Longrightarrow> kept V F T m vf a c"
  unfolding kept_def by auto

interpretation kp: preserving P "\<lambda>a b. kept V F T m vf a b \<and> P b" for P V F T m vf
  by unfold_locales (auto intro: kept_refl kept_trans)

lemma kept_loop:
  assumes "\<And>i t. P t \<Longrightarrow> kept V F T m vf t (f i t) \<and> P (f i t)" "P a"
  shows "kept V F T m vf a (for_upto i n f a)"
  using kp.over_list [where P = P and V = V and F = F and T = T and m = m and vf = vf and f = f and xs = "[i..<n]", OF assms(2)] assms(1) by blast

lemma map_update_same: "g (f (xs ! i)) = g (xs ! i) \<Longrightarrow> map g (xs[i := f (xs ! i)]) = map g xs"
  by (cases "i < length xs") (simp_all add: map_update list_update_beyond, metis list_update_id nth_map)

lemma set_vf_fields [simp]: "hw (set_vf vf f a) = hw a" "mac_table (set_vf vf f a) = mac_table a" "num_vfs (set_vf vf f a) = num_vfs a"
  by (simp_all add: set_vf_def)

lemma mac_filters_table: "mac_table b = mac_table a \<Longrightarrow> mac_filters b = mac_filters a"
  by (simp add: mac_filters_def)

lemma kept_set_vf:
  assumes "\<And>v. admin (f v) = admin v" "\<And>v. F \<Longrightarrow> vf_mac_addresses (f v) \<in> {vf_mac_addresses v, m, replicate 6 0}"
  shows "kept V F T m vf a (set_vf vf f a)"
proof -
  have "mac_filters (set_vf vf f a) = mac_filters a" by (rule mac_filters_table) simp
  moreover have "vf_mac_addresses (vfinfo (set_vf vf f a) ! vf) \<in> {vf_mac_addresses (vfinfo a ! vf), m, replicate 6 0}" if F
    using assms(2) [OF that] by (cases "vf < length (vfinfo a)") (auto simp: set_vf_def)
  ultimately show ?thesis
    unfolding kept_def promisc_bits_def using map_update_same [of admin f] assms(1) by (auto simp: set_vf_def)
qed

lemma kept_hw:
  assumes "vfinfo b = vfinfo a" "mac_filters b = mac_filters a"
    and "\<And>r. vlan_reg r \<Longrightarrow> rdreg b r = rdreg a r" "promisc_bits b vf \<subseteq> promisc_bits a vf"
  shows "kept V F T m vf a b"
  using assms unfolding kept_def by auto

lemma kept_wrreg: "\<not> vlan_reg r \<Longrightarrow> r \<noteq> IXGBE_VMOLR vf \<Longrightarrow> kept V F T m vf a (wrreg r v a)"
  by (rule kept_hw) (auto simp: wrreg_def promisc_bits_def mac_filters_def read_write_other intro!: read_write_other)

lemma kept_vmolr:
  assumes "\<And>n. T \<Longrightarrow> n \<in> {22, 23, 28} \<Longrightarrow> bit v n \<Longrightarrow> bit (rdreg a (IXGBE_VMOLR vf)) n"
  shows "kept V F T m vf a (wrreg (IXGBE_VMOLR vf) v a)"
proof -
  have "T \<longrightarrow> promisc_bits (wrreg (IXGBE_VMOLR vf) v a) vf \<subseteq> promisc_bits a vf"
  proof (cases "hw_removed (hw a)")
    case True
    then have "wrreg (IXGBE_VMOLR vf) v a = a" by (simp add: wrreg_def IXGBE_WRITE_REG_def IXGBE_REMOVED_def)
    then show ?thesis by simp
  next
    case False
    then have v: "rdreg (wrreg (IXGBE_VMOLR vf) v a) (IXGBE_VMOLR vf) = v" by (simp add: wrreg_def)
    show ?thesis
    proof (intro impI subsetI)
      fix n assume t: T and "n \<in> promisc_bits (wrreg (IXGBE_VMOLR vf) v a) vf"
      then have "n \<in> {22, 23, 28}" "bit v n" by (simp_all only: promisc_bits_def mem_Collect_eq v)
      with assms [OF t] show "n \<in> promisc_bits a vf" by (simp only: promisc_bits_def mem_Collect_eq simp_thms)
    qed
  qed
  then show ?thesis unfolding kept_def by (auto simp: wrreg_def mac_filters_def intro!: read_write_other)
qed

lemma mac_filter_vfinfo:
  "vfinfo (snd (ixgbe_add_mac_filter a x p)) = vfinfo a" "vfinfo (snd (ixgbe_del_mac_filter a x p)) = vfinfo a"
  by (subst mac_filter_frame, simp)+

lemma kept_mac_filter:
  assumes "vfinfo b = vfinfo a" "F \<Longrightarrow> set_mset (mac_filters b) \<subseteq> insert (m, vf) (set_mset (mac_filters a))"
    and "\<And>r. \<not> rar_reg r \<Longrightarrow> rdreg b r = rdreg a r"
  shows "kept V F T m vf a b"
proof -
  have "vlan_reg r \<Longrightarrow> rdreg b r = rdreg a r" for r using assms(3) rar_not_vlan by blast
  moreover have "promisc_bits b vf = promisc_bits a vf" using assms(3) by (simp add: promisc_bits_def)
  ultimately show ?thesis using assms(1,2) unfolding kept_def by auto
qed

lemma kept_del:
  assumes "mac_inv a" "p < 64"
  shows "kept V F T m vf a (snd (ixgbe_del_mac_filter a x (of_nat p)))"
  by (rule kept_mac_filter) (use mt.del_subset [OF assms] in \<open>auto simp: mac_filter_vfinfo mac_filter_reg\<close>)

lemma kept_add:
  assumes "mac_inv a" "length x = 6" "vf < 64" "F \<Longrightarrow> x = m"
  shows "kept V F T m vf a (snd (ixgbe_add_mac_filter a x (of_nat vf)))"
  by (rule kept_mac_filter)
    (use mt.add_subset [OF assms(1) assms(2,3)] assms(4) in \<open>auto simp: mac_filter_vfinfo mac_filter_reg\<close>)


lemma kept_set_vf_mac:
  assumes "sriov_inv a" "vf < 64" "length x = 6" "F \<Longrightarrow> x = m"
  shows "kept V F T m vf a (snd (ixgbe_set_vf_mac a vf x))"
proof -
  define a1 where "a1 = snd (ixgbe_del_mac_filter a (vf_mac_addresses (vfinfo a ! vf)) (of_nat vf))"
  have 1: "kept V F T m vf a a1" unfolding a1_def using assms(1,2) by (intro kept_del) (simp_all add: sriov_inv_def)
  have i1: "mac_inv a1" using isolated_inv [OF isolated_del [OF assms(1,2)]] by (simp add: a1_def sriov_inv_def)
  obtain r a2 where r: "ixgbe_add_mac_filter a1 x (of_nat vf) = (r, a2)" by (metis surj_pair)
  have 2: "kept V F T m vf a1 a2" using kept_add [OF i1 assms(3,2,4)] r by simp
  have 3: "kept V F T m vf a2 (set_vf vf (\<lambda>v. v\<lparr>vf_mac_addresses := (if r \<ge> 0 then x else replicate 6 0)\<rparr>) a2)"
    by (rule kept_set_vf) (auto simp: admin_def assms(4))
  show ?thesis
    unfolding ixgbe_set_vf_mac_def Let_def a1_def [symmetric] r
    using kept_trans [OF kept_trans [OF 1 2] 3] by simp
qed

lemma kept_mac_addr:
  assumes "sriov_inv a" "vf < 64" "F \<Longrightarrow> pf_set_mac (vfinfo a ! vf) \<and> \<not> trusted (vfinfo a ! vf)" "m = vf_mac_addresses (vfinfo a ! vf)"
  shows "kept V F T m vf a (snd (ixgbe_set_vf_mac_addr a msg vf))"
proof (cases "\<not> is_valid_ether_addr (msg_mac msg) \<or>
    pf_set_mac (vfinfo a ! vf) \<and> \<not> trusted (vfinfo a ! vf) \<and> vf_mac_addresses (vfinfo a ! vf) \<noteq> msg_mac msg")
  case True
  then show ?thesis by (auto simp: ixgbe_set_vf_mac_addr_def Let_def kept_refl)
next
  case False
  then have "kept V F T m vf a (snd (ixgbe_set_vf_mac a vf (msg_mac msg)))"
    using assms by (intro kept_set_vf_mac) (auto simp: msg_mac_length)
  with False show ?thesis by (auto simp: ixgbe_set_vf_mac_addr_def Let_def split: prod.split)
qed

lemma kept_soft:
  assumes "vfinfo b = vfinfo a" "mac_table b = mac_table a" "\<And>r. vlan_reg r \<or> r = IXGBE_VMOLR vf \<Longrightarrow> rdreg b r = rdreg a r"
  shows "kept V F T m vf a b"
proof (rule kept_hw [OF assms(1) mac_filters_table [OF assms(2)]])
  have "rdreg b (IXGBE_VMOLR vf) = rdreg a (IXGBE_VMOLR vf)" using assms(3) by blast
  then show "promisc_bits b vf \<subseteq> promisc_bits a vf" by (simp only: promisc_bits_def subset_refl)
qed (use assms(3) in blast)

lemma rompe_bits:
  assumes "n \<in> {22, 23, 28}"
  shows "bit (x OR IXGBE_VMOLR_ROMPE) n = bit x n" "bit (x AND NOT IXGBE_VMOLR_ROMPE) n \<Longrightarrow> bit x n"
proof -
  have "\<not> bit (IXGBE_VMOLR_ROMPE :: u32) n" using bit_BIT [of 25 n] assms by (auto simp: BIT_def)
  then show "bit (x OR IXGBE_VMOLR_ROMPE) n = bit x n" by (simp only: bit_or_iff simp_thms)
qed (simp add: bit_and_iff)

lemma kept_restore_vf: "kept V F T m vf a (restore_vf i a)"
proof -
  define b where "b = for_upto 0 (num_vf_mc_hashes (vfinfo a ! i)) (\<lambda>j t. t\<lparr>hw := vf_mta_bit (vf_mc_hashes (vfinfo a ! i) ! j) (hw t)\<rparr>) a"
  have same: "vfinfo b = vfinfo a \<and> mac_table b = mac_table a \<and> (\<forall>r. rdreg b r = rdreg a r)"
    unfolding b_def
    by (rule for_upto_invariant) (auto simp: vf_mta_bit_def Let_def IXGBE_READ_REG_def IXGBE_REMOVED_def)
  then have 1: "kept V F T m vf a b" by (intro kept_soft) simp_all
  have 2: "kept V F T m vf b (wrreg (IXGBE_VMOLR i) (if c then rdreg a (IXGBE_VMOLR i) OR IXGBE_VMOLR_ROMPE
      else rdreg a (IXGBE_VMOLR i) AND NOT IXGBE_VMOLR_ROMPE) b)" for c
  proof (cases "i = vf")
    case True
    show ?thesis unfolding True using same rompe_bits by (intro kept_vmolr) (auto split: if_splits)
  next
    case False
    then show ?thesis by (intro kept_wrreg) simp_all
  qed
  show ?thesis unfolding restore_vf_def Let_def b_def [symmetric] by (rule kept_trans [OF 1 2])
qed

lemma kept_full_sync:
  assumes "mac_inv a"
  shows "kept V F T m vf a (ixgbe_full_sync_mac_table a)"
proof -
  obtain h where f: "ixgbe_full_sync_mac_table a = a\<lparr>hw := h\<rparr>" using full_sync_same [OF assms] by blast
  show ?thesis
  proof (rule kept_mac_filter)
    show "rdreg (ixgbe_full_sync_mac_table a) r = rdreg a r" if "\<not> rar_reg r" for r using sync_table_reg(2) [OF that] .
  qed (auto simp: f mac_filters_def)
qed

lemma update_mc_regs:
  "(\<And>i. r \<noteq> IXGBE_MTA i) \<Longrightarrow> r \<noteq> IXGBE_MCSTCTRL \<Longrightarrow>
     IXGBE_READ_REG (snd (ixgbe_update_mc_addr_list_generic h mc c)) r = IXGBE_READ_REG h r"
proof -
  assume r: "\<And>i. r \<noteq> IXGBE_MTA i" "r \<noteq> IXGBE_MCSTCTRL"
  have s: "IXGBE_READ_REG (fold (\<lambda>x t. ixgbe_set_mta t x) xs t) r = IXGBE_READ_REG t r" for xs t
    by (induction xs arbitrary: t) (simp_all add: ixgbe_set_mta_def Let_def IXGBE_READ_REG_def IXGBE_REMOVED_def)
  have w: "IXGBE_READ_REG (for_upto 0 n (\<lambda>i t. IXGBE_WRITE_REG t (IXGBE_MTA i) (f i)) t) r = IXGBE_READ_REG t r" for n f t
    by (rule for_upto_frame [where f = "\<lambda>t. IXGBE_READ_REG t r"]) (simp add: read_write_other r)
  show ?thesis
    unfolding ixgbe_update_mc_addr_list_generic_def Let_def
    by (simp add: read_write_other r(2) w s)
qed

lemma kept_mc:
  assumes "sriov_inv a"
  shows "kept V F T m vf a (snd (ixgbe_write_mc_addr_list a))"
proof -
  define a1 where "a1 = a\<lparr>hw := (hw a)\<lparr>mac := (mac (hw a))\<lparr>mta_shadow := replicate (length (mta_shadow (mac (hw a)))) 0\<rparr>\<rparr>\<rparr>"
  define a2 where "a2 = for_upto 0 (num_vfs a1) restore_vf a1"
  define a3 where "a3 = ixgbe_full_sync_mac_table a2"
  have s1: "same_filters a a1" unfolding a1_def by (rule same_hw_filters, rule same_hw_soft) simp_all
  have 1: "kept V F T m vf a a1" by (rule kept_soft) (simp_all add: a1_def IXGBE_READ_REG_def IXGBE_REMOVED_def)
  have 2: "kept V F T m vf a1 a2" unfolding a2_def by (rule kept_loop [where P = "\<lambda>_. True"]) (simp_all add: kept_restore_vf)
  have "same_filters a1 a2" unfolding a2_def by (rule same.over_list) (simp_all add: restore_vf_same)
  then have "mac_inv a2" using isolated_inv [OF isolated_same [OF assms same_trans [OF s1]]] by (simp add: sriov_inv_def)
  then have 3: "kept V F T m vf a2 a3" unfolding a3_def by (rule kept_full_sync)
  have 4: "kept V F T m vf a3 (a3\<lparr>hw := snd (ixgbe_update_mc_addr_list_generic (hw a3) mc False)\<rparr>)" for mc
    by (rule kept_soft) (auto intro!: update_mc_regs)
  show ?thesis
    using kept_trans [OF kept_trans [OF kept_trans [OF 1 2] 3] 4] kept_refl
    unfolding ixgbe_write_mc_addr_list_def ixgbe_restore_vf_multicasts_def Let_def a1_def [symmetric] a2_def [symmetric] a3_def [symmetric]
    by (auto simp: a3_def)
qed

lemma kept_multicasts:
  assumes "sriov_inv a" "vf < num_vfs a"
  shows "kept V F T m vf a (snd (ixgbe_set_vf_multicasts a msg vf))"
proof -
  define n where "n = min (msg_info msg) IXGBE_MAX_VF_MC_ENTRIES"
  define a1 where "a1 = set_vf vf (\<lambda>v. v\<lparr>num_vf_mc_hashes := n\<rparr>) a"
  define a2 where "a2 = for_upto 0 n (\<lambda>i. set_vf vf (\<lambda>v. v\<lparr>vf_mc_hashes := (vf_mc_hashes v)[i := msg_hash msg i]\<rparr>)) a1"
  define a3 where "a3 = wrreg (IXGBE_VMOLR vf) (rdreg a (IXGBE_VMOLR vf) OR IXGBE_VMOLR_ROMPE) a2"
  have i1: "isolated vf a a1" unfolding a1_def by (rule isolated_set_vf [OF assms]) simp
  have i2: "isolated vf a1 a2"
    unfolding a2_def using isolated_inv [OF i1] isolated_num [OF i1] assms(2) by (intro isolated_set_vf_loop) simp_all
  have i3: "isolated vf a2 a3" unfolding a3_def by (rule isolated_wrreg [OF isolated_inv [OF i2]]) (simp add: filter_reg_def)
  have 1: "kept V F T m vf a a1" unfolding a1_def by (rule kept_set_vf) (simp_all add: admin_def)
  have 2: "kept V F T m vf a1 a2" unfolding a2_def by (rule kept_loop [where P = "\<lambda>_. True"]) (simp_all add: kept_set_vf admin_def)
  have "hw a2 = hw a1" unfolding a2_def by (rule for_upto_frame [where f = hw]) simp
  then have h: "rdreg a2 r = rdreg a r" for r by (simp add: a1_def)
  have 3: "kept V F T m vf a2 a3" unfolding a3_def by (rule kept_vmolr) (use h rompe_bits in simp)
  have "kept V F T m vf a3 (snd (ixgbe_write_mc_addr_list a3))" by (rule kept_mc [OF isolated_inv [OF i3]])
  with kept_trans [OF kept_trans [OF 1 2] 3] kept_trans show ?thesis
    unfolding ixgbe_set_vf_multicasts_def Let_def n_def [symmetric] a1_def [symmetric] a2_def [symmetric] a3_def [symmetric] snd_conv by blast
qed

lemma promisc_bits_cong: "rdreg b (IXGBE_VMOLR vf) = rdreg a (IXGBE_VMOLR vf) \<Longrightarrow> promisc_bits b vf = promisc_bits a vf"
  by (simp only: promisc_bits_def)

lemma kept_vlan_only:
  assumes "vfinfo b = vfinfo a" "mac_table b = mac_table a" "rdreg b (IXGBE_VMOLR vf) = rdreg a (IXGBE_VMOLR vf)"
  shows "kept False F T m vf a b"
  unfolding kept_def mac_filters_table [OF assms(2)] promisc_bits_cong [OF assms(3)] assms(1) by blast

lemma kept_set_vfta: "kept False F T m vf a (snd (set_vfta a x p on b))"
proof -
  obtain st h where r: "ixgbe_set_vfta_generic (hw a) x (of_nat p) on b = (st, h)" by (metis surj_pair)
  have "IXGBE_READ_REG h (IXGBE_VMOLR vf) = rdreg a (IXGBE_VMOLR vf)"
    using set_vfta_regs(1) [of "IXGBE_VMOLR vf" "hw a" x "of_nat p" on b] by (simp add: r)
  then show ?thesis by (intro kept_vlan_only) (simp_all add: set_vfta_def r)
qed

lemma kept_promisc_vlvf: "kept False F T m vf a (ixgbe_update_pf_promisc_vlvf a x)"
  by (rule kept_vlan_only) (simp_all add: ixgbe_update_pf_promisc_vlvf_def Let_def wrreg_def read_write_other)


lemma kept_vf_vlan: "kept False F T m vf a (snd (ixgbe_set_vf_vlan a add x v))"
proof -
  obtain e1 a1 where r1: "(if add \<and> active_vlans a (unat x) then set_vfta a x (VMDQ_P a 0) True False else (0, a)) = (e1, a1)"
    by (metis surj_pair)
  have "a1 = (if add \<and> active_vlans a (unat x) then snd (set_vfta a x (VMDQ_P a 0) True False) else a)"
    using r1 by (metis snd_conv)
  then have 1: "kept False F T m vf a a1" using kept_set_vfta kept_refl by presburger
  obtain e2 a2 where r2: "set_vfta a1 x v add False = (e2, a2)" by (metis surj_pair)
  have 2: "kept False F T m vf a1 a2" using kept_set_vfta [of F T m vf a1 x v add False] by (simp only: r2 snd_conv)
  have "snd (ixgbe_set_vf_vlan a add x v) \<in> {a1, a2, ixgbe_update_pf_promisc_vlvf a2 x}"
    unfolding ixgbe_set_vf_vlan_def Let_def r1 prod.case r2 by simp
  moreover note kept_trans [OF 1 2] kept_trans [OF kept_trans [OF 1 2] kept_promisc_vlvf]
  ultimately show ?thesis using 1 by (metis insertE singletonD)
qed

lemma kept_vlan_msg:
  assumes "V \<Longrightarrow> pf_vlan (vfinfo a ! vf) \<noteq> 0 \<or> num_tc (netdev a) \<noteq> 0"
  shows "kept V F T m vf a (snd (ixgbe_set_vf_vlan_msg a msg vf))"
proof (cases V)
  case True
  with assms have "ixgbe_set_vf_vlan_msg a msg vf = (- 1, a)" by (simp add: ixgbe_set_vf_vlan_msg_def Let_def)
  then show ?thesis by (simp only: snd_conv kept_refl)
next
  case False
  have "snd (ixgbe_set_vf_vlan_msg a msg vf) \<in> {a, snd (ixgbe_set_vf_vlan a (msg_info msg \<noteq> 0) (msg ! 1 AND 0xFFF) vf)}"
    by (simp add: ixgbe_set_vf_vlan_msg_def Let_def)
  then show ?thesis using False by (auto simp: kept_refl kept_vf_vlan)
qed

lemma kept_set_vf_lpe: "kept V F T m vf a (snd (ixgbe_set_vf_lpe a x vf))"
proof -
  have 1: "kept V F T m vf b (if c then wrreg (IXGBE_VFRE i) v b else b)" for c i v b
    using kept_wrreg [of "IXGBE_VFRE i" vf V F T m b v] kept_refl by simp
  have 2: "kept V F T m vf b (if c then wrreg IXGBE_MAXFRS v b else b)" for c v b
    using kept_wrreg [of IXGBE_MAXFRS vf V F T m b v] kept_refl by simp
  note 3 = kept_trans [OF 1 2]
  show ?thesis unfolding ixgbe_set_vf_lpe_def Let_def using 1 3 by (simp only: if_split snd_conv split: if_split) blast
qed

lemma drop_macvlan_kept: "sriov_inv a \<Longrightarrow> vf < 64 \<Longrightarrow> kept V F T m vf a (drop_macvlan vf k a)"
proof -
  assume a: "sriov_inv a" "vf < 64"
  have 1: "kept V F T m vf a (a\<lparr>vf_mvs := x\<rparr>)" for x by (rule kept_soft) simp_all
  have "mac_inv (a\<lparr>vf_mvs := x\<rparr>)" for x using isolated_inv [OF isolated_mvs [OF a(1)]] by (simp add: sriov_inv_def)
  note 2 = kept_trans [OF 1 kept_del [OF this a(2)]]
  show ?thesis unfolding drop_macvlan_def Let_def using 2 kept_refl by (simp only: split: if_split) blast
qed

lemma kept_macvlan:
  assumes "sriov_inv a" "vf < 64" "index = 0 \<or> length x = 6 \<and> \<not> F"
  shows "kept V F T m vf a (snd (ixgbe_set_vf_macvlan a vf index x))"
proof -
  define a1 where "a1 = (if index \<le> 1 then for_upto 0 (length (vf_mvs a)) (drop_macvlan vf) a else a)"
  have i1: "isolated vf a a1"
    unfolding a1_def using assms(1,2) by (intro iso.over_if iso.over_list isolated_drop_macvlan)
  have "kept V F T m vf a (for_upto 0 n (drop_macvlan vf) a)" for n
    by (rule kept_loop [where P = sriov_inv]) (use assms drop_macvlan_kept isolated_drop_macvlan isolated_inv in blast)+
  then have 1: "kept V F T m vf a a1" unfolding a1_def using kept_refl by presburger
  obtain r a2 where r: "ixgbe_add_mac_filter a1 x (of_nat vf) = (r, a2)" by (metis surj_pair)
  have m1: "mac_inv a1" using isolated_inv [OF i1] by (simp add: sriov_inv_def)
  have 2: "kept V F T m vf a1 a2" if "index \<noteq> 0"
  proof -
    have "kept V F T m vf a1 (snd (ixgbe_add_mac_filter a1 x (of_nat vf)))"
      using assms(2,3) that by (intro kept_add [OF m1]) auto
    then show ?thesis by (simp only: r snd_conv)
  qed
  have 3: "kept V F T m vf b (b\<lparr>vf_mvs := y\<rparr>)" for b y by (rule kept_soft) simp_all
  have "snd (ixgbe_set_vf_macvlan a vf index x) \<in> {a1} \<union> (if index = 0 then {} else {a2} \<union> range (\<lambda>m. a2\<lparr>vf_mvs := m\<rparr>))"
    unfolding ixgbe_set_vf_macvlan_def Let_def a1_def [symmetric] r by (auto split: option.split)
  moreover have "kept V F T m vf a a2" "kept V F T m vf a (a2\<lparr>vf_mvs := y\<rparr>)" if "index \<noteq> 0" for y
    using kept_trans [OF 1 2 [OF that]] kept_trans [OF _ 3] by blast+
  ultimately show ?thesis using 1 by (auto split: if_splits)
qed

lemma spoof_kept: "kept V F T m vf a (a\<lparr>hw := ixgbe_set_vlan_anti_spoofing (ixgbe_set_mac_anti_spoofing (hw a) on i) on i\<rparr>)"
proof (rule kept_soft)
  fix r assume r: "vlan_reg r \<or> r = IXGBE_VMOLR vf"
  have n: "r \<noteq> IXGBE_PFVFSPOOF j" for j using r by auto
  have "IXGBE_READ_REG (ixgbe_set_mac_anti_spoofing h on i) r = IXGBE_READ_REG h r"
    "IXGBE_READ_REG (ixgbe_set_vlan_anti_spoofing h on i) r = IXGBE_READ_REG h r" for h
    using read_write_other [OF n] by (simp_all add: ixgbe_set_mac_anti_spoofing_def ixgbe_set_vlan_anti_spoofing_def Let_def)
  then show "rdreg (a\<lparr>hw := ixgbe_set_vlan_anti_spoofing (ixgbe_set_mac_anti_spoofing (hw a) on i) on i\<rparr>) r = rdreg a r" by simp
qed simp_all

lemma kept_macvlan_msg:
  assumes "sriov_inv a" "vf < 64" "F \<Longrightarrow> pf_set_mac (vfinfo a ! vf) \<and> \<not> trusted (vfinfo a ! vf)"
  shows "kept V F T m vf a (snd (ixgbe_set_vf_macvlan_msg a msg vf))"
proof -
  define b where "b = (if msg_info msg \<noteq> 0 \<and> spoofchk_enabled (vfinfo a ! vf)
    then a\<lparr>hw := ixgbe_set_vlan_anti_spoofing (ixgbe_set_mac_anti_spoofing (hw a) False vf) False vf\<rparr> else a)"
  have i: "isolated vf a b" unfolding b_def using isolated_same [OF assms(1) spoof_same] isolated_refl [OF assms(1)] by simp
  have 1: "kept V F T m vf a b" unfolding b_def using spoof_kept kept_refl by presburger
  have 2: "kept V F T m vf b (snd (ixgbe_set_vf_macvlan b vf (msg_info msg) (msg_mac msg)))" if "msg_info msg = 0 \<or> \<not> F"
    using that by (intro kept_macvlan [OF isolated_inv [OF i] assms(2)]) (auto simp: msg_mac_length)
  have "snd (ixgbe_set_vf_macvlan_msg a msg vf) \<in> {a} \<union>
    (if msg_info msg = 0 \<or> \<not> F then {snd (ixgbe_set_vf_macvlan b vf (msg_info msg) (msg_mac msg))} else {})"
    unfolding ixgbe_set_vf_macvlan_msg_def Let_def b_def [symmetric] using assms(3) by (auto split: prod.split)
  then show ?thesis using kept_refl kept_trans [OF 1 2] by (auto split: if_splits)
qed

lemma kept_api: "kept V F T m vf a (snd (ixgbe_negotiate_vf_api a msg vf))"
  using kept_set_vf [of "\<lambda>v. v\<lparr>vf_api := msg ! 1\<rparr>" F m V T vf a] kept_refl
  by (simp add: ixgbe_negotiate_vf_api_def Let_def admin_def)

text \<open>Without trust the mode is at most \<open>MULTI\<close>, which clears the promiscuous bits.\<close>

lemma xcast_multi_bits:
  assumes "xcast_bits a mode = Inr (d, e)" "mode \<le> IXGBEVF_XCAST_MODE_MULTI" "n \<in> {22, 23, 28}" "bit ((x AND NOT d) OR e) n"
  shows "bit x n"
proof -
  have "bit (IXGBE_VMOLR_BAM :: u32) n = (n = 27)" "bit (IXGBE_VMOLR_ROMPE :: u32) n = (n = 25)"
    using bit_BIT [of 27 n] bit_BIT [of 25 n] by (simp_all add: BIT_def del: bit_numeral_iff)
  moreover have "e = 0 \<or> e = IXGBE_VMOLR_BAM OR IXGBE_VMOLR_ROMPE"
    using assms(1,2) by (auto simp: xcast_bits_def split: if_splits)
  moreover have "n \<noteq> 27" "n \<noteq> 25" using assms(3) by auto
  ultimately have "\<not> bit e n" by (metis bit_or_iff bit_0_eq bot_apply bot_bool_def)
  with assms(4) show ?thesis by (simp only: bit_or_iff bit_and_iff simp_thms)
qed

lemma kept_xcast:
  assumes "T \<Longrightarrow> \<not> trusted (vfinfo a ! vf)"
  shows "kept V F T m vf a (snd (snd (ixgbe_update_vf_xcast_mode a msg vf)))"
proof -
  define mode where "mode = (if sint (msg ! 1) > IXGBEVF_XCAST_MODE_MULTI \<and> \<not> trusted (vfinfo a ! vf) then IXGBEVF_XCAST_MODE_MULTI else sint (msg ! 1))"
  have le: "mode \<le> IXGBEVF_XCAST_MODE_MULTI" if T using assms [OF that] by (simp add: mode_def)
  have "snd (snd (ixgbe_update_vf_xcast_mode a msg vf)) \<in> {a} \<union> (case xcast_bits a mode of Inl e \<Rightarrow> {} | Inr (d, e) \<Rightarrow>
    {set_vf vf (\<lambda>v. v\<lparr>xcast_mode := mode\<rparr>) (wrreg (IXGBE_VMOLR vf) ((rdreg a (IXGBE_VMOLR vf) AND NOT d) OR e) a)})"
    unfolding ixgbe_update_vf_xcast_mode_def Let_def mode_def [symmetric] by (simp split: sum.split prod.split)
  moreover have "kept V F T m vf a (set_vf vf (\<lambda>v. v\<lparr>xcast_mode := mode\<rparr>) (wrreg (IXGBE_VMOLR vf) ((rdreg a (IXGBE_VMOLR vf) AND NOT d) OR e) a))"
    if "xcast_bits a mode = Inr (d, e)" for d e
  proof (rule kept_trans)
    show "kept V F T m vf a (wrreg (IXGBE_VMOLR vf) ((rdreg a (IXGBE_VMOLR vf) AND NOT d) OR e) a)"
      by (rule kept_vmolr) (use xcast_multi_bits [OF that] le in blast)
  qed (rule kept_set_vf; simp add: admin_def)
  ultimately show ?thesis using kept_refl by (cases "xcast_bits a mode") (auto split: prod.splits)
qed

lemma kept_request:
  assumes "sriov_inv a" "vf < num_vfs a" "vf_request a msg vf = Some (r, msg', a')"
    and "V \<Longrightarrow> pf_vlan (vfinfo a ! vf) \<noteq> 0 \<or> num_tc (netdev a) \<noteq> 0"
    and "F \<Longrightarrow> pf_set_mac (vfinfo a ! vf) \<and> \<not> trusted (vfinfo a ! vf)" "T \<Longrightarrow> \<not> trusted (vfinfo a ! vf)"
    and "m = vf_mac_addresses (vfinfo a ! vf)"
  shows "kept V F T m vf a a'"
proof -
  have b: "vf < 64" using assms(1,2) by (simp add: sriov_inv_def)
  have "a' \<in> {a, snd (ixgbe_set_vf_mac_addr a msg vf), snd (ixgbe_set_vf_multicasts a msg vf), snd (ixgbe_set_vf_vlan_msg a msg vf),
     snd (ixgbe_set_vf_lpe a (msg ! 1) vf), snd (ixgbe_set_vf_macvlan_msg a msg vf), snd (ixgbe_negotiate_vf_api a msg vf),
     snd (snd (ixgbe_update_vf_xcast_mode a msg vf))}"
    using assms(3) by (auto simp: vf_request_def Let_def split: if_splits prod.splits)
  then show ?thesis
    using kept_mac_addr [OF assms(1) b assms(5,7)] kept_multicasts [OF assms(1,2)] kept_vlan_msg [OF assms(4)]
      kept_macvlan_msg [OF assms(1) b assms(5)] kept_xcast [OF assms(6)]
    by (elim insertE emptyE) (simp_all only: kept_refl kept_set_vf_lpe kept_api)
qed

section \<open>Properties\<close>

text \<open>
  C2. The settings of the administrator bind the VFs: no request of a VF changes them, for any VF; a VF with
  a port VLAN, or on an adapter with traffic classes, leaves the VLAN tables alone; a VF with an address set by the
  administrator and without trust gets no other MAC filter; and a VF without trust does
  not gain a promiscuous mode.  Spoof checking and the link state are among the settings as the PF records them; nothing
  is said of the hardware's anti-spoofing bits, which a request for a MACVLAN filter turns off.
\<close>

theorem vf_request_respects_admin:
  assumes "sriov_inv a" "vf < num_vfs a" "vf_request a msg vf = Some (r, msg', a')" "v = vfinfo a ! vf"
  shows "map admin (vfinfo a') = map admin (vfinfo a) \<and>
    (pf_vlan v \<noteq> 0 \<or> num_tc (netdev a) \<noteq> 0 \<longrightarrow> (\<forall>r. vlan_reg r \<longrightarrow> rdreg a' r = rdreg a r)) \<and>
    (pf_set_mac v \<and> \<not> trusted v \<longrightarrow> set_mset (mac_filters a') \<subseteq> insert (vf_mac_addresses v, vf) (set_mset (mac_filters a)) \<and>
       vf_mac_addresses (vfinfo a' ! vf) \<in> {vf_mac_addresses v, replicate 6 0}) \<and>
    (\<not> trusted v \<longrightarrow> promisc_bits a' vf \<subseteq> promisc_bits a vf)"
proof -
  have "kept (pf_vlan v \<noteq> 0 \<or> num_tc (netdev a) \<noteq> 0) (pf_set_mac v \<and> \<not> trusted v) (\<not> trusted v) (vf_mac_addresses v) vf a a'"
    by (rule kept_request [OF assms(1-3)]) (use assms(4) in auto)
  then show ?thesis unfolding kept_def using assms(4) by auto
qed

text \<open>VF 0 has a port VLAN and an address of the administrator.  It asks for VLAN 7.\<close>

definition adapter_port_vlan :: ixgbe_adapter where
  "adapter_port_vlan = set_vf 0 (\<lambda>v. v\<lparr>pf_vlan := 5, pf_set_mac := True, vf_mac_addresses := [2, 0, 0, 0, 0, 1]\<rparr>) adapter_vfs"

theorem vf_request_respects_admin_witness:
  "\<exists>r m a'. vf_request adapter_port_vlan [IXGBE_VF_SET_VLAN OR BIT 16, 7] 0 = Some (r, m, a') \<and>
     map admin (vfinfo a') = map admin (vfinfo adapter_port_vlan) \<and> rdreg a' (IXGBE_VLVF 1) = 0 \<and> rdreg a' (IXGBE_VFTA 0) = 0 \<and>
     vf_mac_addresses (vfinfo a' ! 0) \<in> {[2, 0, 0, 0, 0, 1], replicate 6 0} \<and> promisc_bits a' 0 = {}"
proof -
  let ?a = adapter_port_vlan and ?msg = "[IXGBE_VF_SET_VLAN OR BIT 16, 7] :: u32 list"
  have i: "sriov_inv ?a"
    unfolding adapter_port_vlan_def using isolated_set_vf [OF adapter_vfs_inv, THEN isolated_inv] by (simp add: adapter_vfs_def adapter_reset_def)
  have v: "num_vfs ?a = 2" "hw ?a = hw_vt"
    "vfinfo ?a ! 0 = vf_reset_data\<lparr>pf_vlan := 5, pf_set_mac := True, vf_mac_addresses := [2, 0, 0, 0, 0, 1]\<rparr>"
    by (simp_all add: adapter_port_vlan_def adapter_vfs_def adapter_reset_def set_vf_def)
  have "\<exists>r m a'. vf_request ?a ?msg 0 = Some (r, m, a')"
    by (simp add: vf_request_def Let_def split_beta BIT_def)
  then obtain r m a' where q: "vf_request ?a ?msg 0 = Some (r, m, a')" by blast
  note t = vf_request_respects_admin [OF i _ q refl]
  have "rdreg a' r = rdreg ?a r" if "vlan_reg r" for r using t v that by (simp add: vf_reset_data_def)
  then have "rdreg a' (IXGBE_VLVF 1) = 0" "rdreg a' (IXGBE_VFTA 0) = 0" using v(2) by simp_all
  moreover have "promisc_bits ?a 0 = {}" using v(2) by (simp add: promisc_bits_def)
  ultimately show ?thesis using q t v by (simp add: vf_reset_data_def)
qed

end
