(* ===== verification/Spec2Isabelle.thy ===== *)
theory Spec2Isabelle
  imports Ixgbe_Rar Ixgbe_Vlan Ixgbe_Mta Ixgbe_FlowControl Ixgbe_Mbx Ixgbe_Fdir Ixgbe_DcbHw Ixgbe_VfAdmin
begin

text \<open>
  A verification of parts of the Linux driver for the Intel 10 gigabit Ethernet controllers (82598,
  82599, X540, X550, E610).  The driver has a hardware layer shared between operating systems
  (\<open>ixgbe_common.c\<close>, \<open>ixgbe_82599.c\<close>, \<open>ixgbe_mbx.c\<close>, \<open>ixgbe_dcb*.c\<close>, \<open>ixgbe_x550.c\<close>) that programs
  the registers of the controller, and a Linux layer (\<open>ixgbe_main.c\<close>, \<open>ixgbe_sriov.c\<close>) that keeps the
  state of the network device and of the virtual functions (VFs) and calls the hardware layer.

  \<^bold>\<open>Registers.\<close>  \<open>Ixgbe_Hw\<close> has the registers as a data type with one constructor per register of
  \<open>ixgbe_type.h\<close>, grouped by function, and the hardware structure (\<open>struct ixgbe_hw\<close> with its MAC, flow
  control and address parts) as records.  Registers that only the driver changes are a function in the
  record \<open>ixgbe_hw\<close>; a removed adapter reads as all ones and ignores writes, as \<open>IXGBE_REMOVED\<close> and
  \<open>ixgbe_read_reg\<close> do.  Registers that change by themselves (mailboxes, Flow Director commands, blocked
  queues) belong to a device, a pair of read and write operations on an arbitrary state
  (\<open>Ixgbe_Device\<close>); code for them is a program of the state monad, and what the data sheet promises of the
  device is a named hypothesis (\<open>mbx_mem\<close>, \<open>cfg_regs\<close>, \<open>fdir_engine\<close>), shown to be satisfiable by a concrete
  device in the witnesses.

  \<^bold>\<open>Common part.\<close>  \<open>Ixgbe_Prelude\<close> has the word types, the status codes of \<open>ixgbe_type.h\<close>, single-bit
  masks and the rules for bits of words, the reading of \<open>for\<close> loops as folds, and the locale \<open>preserving\<close>.

  \<^bold>\<open>Receive addresses\<close> (\<open>Ixgbe_Rar\<close>, from \<open>ixgbe_common.c\<close>): the receive address registers and their pool
  bitmaps.  Inserting, clearing and listing addresses change exactly the entries they should, and a
  full table is reported; the two mutually recursive clearing functions terminate.

  \<^bold>\<open>VLAN filters\<close> (\<open>Ixgbe_Vlan\<close>, from \<open>ixgbe_common.c\<close>): bit table and pool slots as a set of (VLAN, pool)
  pairs, as a refinement of single calls, an invariant of all histories, and, through the locale
  \<open>vlan_filter\<close>, as the result of any sequence of requests.

  \<^bold>\<open>Multicast filter\<close> (\<open>Ixgbe_Mta\<close>, from \<open>ixgbe_common.c\<close>): the hash table admits exactly the hashes of
  the listed addresses.

  \<^bold>\<open>Flow control\<close> (\<open>Ixgbe_FlowControl\<close>, from \<open>ixgbe_common.c\<close>): advertisement, resolution (the table of IEEE 802.3,
  but receive pause only when both ends are symmetric and full flow control was not requested; and consistent between
  two ends) and programming of the thresholds.

  \<^bold>\<open>Mailboxes\<close> (\<open>Ixgbe_Mbx\<close>, from \<open>ixgbe_mbx.c\<close>): both generations of the PF and VF side.  A message arrives
  as it was sent, is stored completely or not at all and touches no other mailbox; waiting is bounded by
  the timeout in the structure, which is also the bound of the recursion.  The mailboxes of the VFs are one memory with
  16 words for each, so a message that is too long would reach the next mailbox; the check of its length excludes this.

  \<^bold>\<open>Flow Director\<close> (\<open>Ixgbe_Fdir\<close>, from \<open>ixgbe_82599.c\<close>): the hashes against a reference definition, the input
  masks in both modes, and the table of perfect filters.  The polling loops are bounded by the constants of the
  source.  \<open>fdir_engine\<close> is the engine behind the registers: it may complete a command at any later access, may fail to add or to
  remove a filter and counts this, and is not constrained for commands it is given while it is busy.

  \<^bold>\<open>Data center bridging\<close> (\<open>Ixgbe_Dcb\<close> and \<open>Ixgbe_DcbHw\<close>, from \<open>ixgbe_dcb*.c\<close>): the rules of a configuration,
  the credits of the traffic classes, and the path from a configuration to the registers.

  \<^bold>\<open>Adapter\<close> (\<open>Ixgbe_Adapter\<close>, from \<open>ixgbe_main.c\<close> and \<open>ixgbe.h\<close>): \<open>struct ixgbe_adapter\<close> with what the
  modelled code uses, and the software table of MAC filters, which with the registers implements a
  multiset of (address, pool) pairs.  Its contract is the locale \<open>filter_table\<close>, interpreted on the driver's operations.

  \<^bold>\<open>Virtual functions\<close> (\<open>Ixgbe_Sriov\<close> and \<open>Ixgbe_SriovMsg\<close>, from \<open>ixgbe_sriov.c\<close>, the receive mode and VLAN parts
  of \<open>ixgbe_main.c\<close>, and \<open>ixgbe_x550.c\<close>): requests of the VFs, reset, the message loop, malicious driver
  detection and the settings of the administrator.  The loop runs over the mailboxes of an arbitrary device.
  Malicious driver detection reports exactly the pools with blocked queues.  The field \<open>stray_write\<close> of the adapter records a
  store past the end of \<open>vfinfo\<close>; \<open>check_mdd_stray_write\<close> shows that a report for a pool without a VF causes one.

  \<^bold>\<open>Isolation\<close> (\<open>Ixgbe_Isolation\<close>, \<open>Ixgbe_VfAdmin\<close>): theorems over the definitions of the previous two theories and
  of all theories they call.  \<open>sriov_inv\<close> joins the invariants of the MAC filter table and of the VLAN tables;
  \<open>isolated vf a b\<close> says that a step for one VF keeps this invariant and, for every other VF, its data, its MAC filters
  and its VLANs.  It holds for every request, for a reset with all that the receive mode of the PF does in it, and,
  through triples over the programs of the loop, for every message; the loop keeps the invariant as long as malicious
  driver detection reports pools of VFs only (\<open>mdd_within\<close>).  Such relations between states are instances of the locale
  \<open>preserving\<close>, which has the rules for conditionals, loops and bindings.  The kernel's \<open>__dev_uc_sync\<close> may call the two callbacks of the driver in any order (\<open>dev_uc_sync_calls\<close>).  The settings
  of the administrator bind the VF they are made for.  One case in which a VLAN slot keeps a stale pool
  bit of the PF is proved as such; the invariant therefore speaks of the pools of the VFs only.

  \<^bold>\<open>Not modelled.\<close>  Link bring-up, PHY and EEPROM access and the firmware interfaces wait for hardware
  and firmware whose behaviour is not in the repository.  The packet paths, interrupts, XDP and time
  stamping run on data structures of the kernel.  The interfaces for user space (ethtool, devlink,
  debugfs, sysfs, procfs, netlink), the compatibility layer \<open>kcompat\<close> and the FreeBSD wrappers
  translate between representations.  The model is that of a current kernel without FCoE.
\<close>

end
